(* ===== verification/Prelude.thy ===== *)
theory Prelude
  imports Main "HOL-Library.Word" "HOL-Library.Multiset" "HOL-Library.AList"
begin

text \<open>
  Shared vocabulary of the development: the machine integers of the Rust sources, the
  result type that every fallible or panicking function returns, the reading of Rust's
  \<open>?\<close> operator and of destructors that run when a scope is left early, arithmetic
  under the two build profiles, decimal printing, and the big-endian length prefix that
  both ends of the vsock connection use.
\<close>

unbundle bit_operations_syntax

named_theorems res_simps \<open>rewriting of results and of the early-return operator\<close>
named_theorems host_simps \<open>what a host call adds to the history and to the host's tables\<close>

section \<open>Machine integers\<close>

type_synonym u8 = "8 word"
type_synonym u16 = "16 word"
type_synonym u32 = "32 word"
type_synonym u64 = "64 word"
type_synonym i32 = "32 word"
type_synonym i64 = "64 word"
type_synonym byte = "8 word"

lemma unat_u16_less: "unat (w :: u16) < 65536"
  using unsigned_less [of w, where 'a = nat] by simp

lemma unat_u32_less: "unat (w :: u32) < 4294967296"
  using unsigned_less [of w, where 'a = nat] by simp

section \<open>Results, panics and early return\<close>

text \<open>
  \<open>Ok\<close> and \<open>Err\<close> are Rust's \<open>Result\<close>. \<open>Panic\<close> is an unwinding panic: a failed
  \<open>unwrap\<close> or \<open>expect\<close>, or an arithmetic overflow where the build checks for it.
\<close>

datatype ('e, 'a) res = Ok 'a | Err 'e | Panic

fun is_ok :: "('e, 'a) res \<Rightarrow> bool" where
  "is_ok (Ok _) = True"
| "is_ok (Err _) = False"
| "is_ok Panic = False"

text \<open>
  \<open>then_try\<close> is \<open>let x = m?; k\<close> over a state that the call may have changed before it
  failed. \<open>on_exit\<close> runs a destructor when the scope is left by an error or a panic;
  on success the value has been moved out and no destructor runs.
\<close>

fun then_try :: "('e, 'a) res \<times> 's \<Rightarrow> ('a \<Rightarrow> 's \<Rightarrow> ('e, 'b) res \<times> 's) \<Rightarrow> ('e, 'b) res \<times> 's"
  where
  "then_try (Ok a, s) k = k a s"
| "then_try (Err e, s) k = (Err e, s)"
| "then_try (Panic, s) k = (Panic, s)"

fun on_exit :: "('s \<Rightarrow> 's) \<Rightarrow> ('e, 'a) res \<times> 's \<Rightarrow> ('e, 'a) res \<times> 's" where
  "on_exit d (Ok a, s) = (Ok a, s)"
| "on_exit d (Err e, s) = (Err e, d s)"
| "on_exit d (Panic, s) = (Panic, d s)"

text \<open>\<open>map_err\<close> of a result, and a result without its state.\<close>

fun map_err :: "('e \<Rightarrow> 'f) \<Rightarrow> ('e, 'a) res \<Rightarrow> ('f, 'a) res" where
  "map_err f (Ok a) = Ok a"
| "map_err f (Err e) = Err (f e)"
| "map_err f Panic = Panic"

lemma then_try_Ok_iff [res_simps]:
  "then_try m k = (Ok b, s') \<longleftrightarrow> (\<exists>a s. m = (Ok a, s) \<and> k a s = (Ok b, s'))"
  by (cases "(m, k)" rule: then_try.cases) auto

lemma fst_on_exit [simp]: "fst (on_exit d m) = fst m"
  by (cases "(d, m)" rule: on_exit.cases) auto

lemma on_exit_Ok_iff [res_simps]: "on_exit d m = (Ok b, s') \<longleftrightarrow> m = (Ok b, s')"
  by (cases "(d, m)" rule: on_exit.cases) auto

lemma is_ok_iff: "is_ok r \<longleftrightarrow> (\<exists>a. r = Ok a)"
  by (cases r) auto

section \<open>Arithmetic under a build profile\<close>

text \<open>
  \<open>cargo build\<close> compiles with overflow checks, so \<open>+\<close>, \<open>-\<close> and \<open>*\<close> panic when
  the exact result does not fit; \<open>cargo build --release\<close> wraps.
\<close>

datatype profile = Debug | Release

definition add_ovf :: "profile \<Rightarrow> 'w::len word \<Rightarrow> 'w word \<Rightarrow> ('e, 'w word) res" where
  "add_ovf prof a b =
     (if prof = Debug \<and> unat a + unat b \<ge> 2 ^ LENGTH('w) then Panic else Ok (a + b))"

definition sub_ovf :: "profile \<Rightarrow> 'w::len word \<Rightarrow> 'w word \<Rightarrow> ('e, 'w word) res" where
  "sub_ovf prof a b = (if prof = Debug \<and> unat a < unat b then Panic else Ok (a - b))"

definition mul_ovf :: "profile \<Rightarrow> 'w::len word \<Rightarrow> 'w word \<Rightarrow> ('e, 'w word) res" where
  "mul_ovf prof a b =
     (if prof = Debug \<and> unat a * unat b \<ge> 2 ^ LENGTH('w) then Panic else Ok (a * b))"

section \<open>Decimal printing\<close>

fun dec_digit :: "nat \<Rightarrow> char" where
  "dec_digit n = char_of (48 + n mod 10)"

fun dec_string :: "nat \<Rightarrow> string" where
  "dec_string n = (if n < 10 then [dec_digit n] else dec_string (n div 10) @ [dec_digit n])"

declare dec_string.simps [simp del]

lemma dec_digit_inj: "dec_digit m = dec_digit n \<Longrightarrow> m mod 10 = n mod 10"
proof -
  assume "dec_digit m = dec_digit n"
  then have "of_char (char_of (48 + m mod 10) :: char) = (of_char (char_of (48 + n mod 10) :: char) :: nat)"
    by simp
  then have "(48 + m mod 10) mod 256 = (48 + n mod 10) mod 256"
    by (simp only: of_char_of)
  moreover have "48 + m mod 10 < 256" "48 + n mod 10 < 256"
    using mod_less_divisor [of 10 m] mod_less_divisor [of 10 n] by linarith+
  ultimately show ?thesis by simp
qed

lemma dec_string_ne [simp]: "dec_string n \<noteq> []" "[] \<noteq> dec_string n"
  by (subst dec_string.simps, simp)+

lemma dec_string_0: "dec_string 0 = ''0''"
  by code_simp

lemma dec_string_small: "n < 10 \<Longrightarrow> dec_string n = [dec_digit n]"
  by (subst dec_string.simps) simp

lemma dec_string_step: "\<not> n < 10 \<Longrightarrow> dec_string n = dec_string (n div 10) @ [dec_digit n]"
  by (subst dec_string.simps) simp

lemma dec_string_inj: "dec_string m = dec_string n \<Longrightarrow> m = n"
proof (induction m arbitrary: n rule: dec_string.induct)
  case (1 m)
  have same: "m < 10 \<longleftrightarrow> n < 10"
    using "1.prems" by (cases "m < 10"; cases "n < 10") (auto simp: dec_string_small dec_string_step)
  show ?case
  proof (cases "m < 10")
    case True
    with same "1.prems" have "dec_digit m = dec_digit n"
      by (simp add: dec_string_small del: dec_digit.simps)
    with True same show ?thesis by (auto dest: dec_digit_inj simp del: dec_digit.simps)
  next
    case False
    with same "1.prems"
    have "dec_string (m div 10) = dec_string (n div 10)" and "dec_digit m = dec_digit n"
      by (simp_all add: dec_string_step del: dec_digit.simps)
    with "1.IH" [OF False] have "m div 10 = n div 10" and "m mod 10 = n mod 10"
      by (auto dest: dec_digit_inj simp del: dec_digit.simps)
    then show ?thesis by (metis div_mult_mod_eq)
  qed
qed

definition i32_string :: "i32 \<Rightarrow> string" where
  "i32_string w = (if sint w < 0 then ''-'' @ dec_string (nat (- sint w)) else dec_string (nat (sint w)))"

section \<open>Lists\<close>

text \<open>\<open>slice::join\<close> for strings.\<close>

fun join_strings :: "string \<Rightarrow> string list \<Rightarrow> string" where
  "join_strings sep [] = []"
| "join_strings sep [x] = x"
| "join_strings sep (x # y # xs) = x @ sep @ join_strings sep (y # xs)"

text \<open>A hash map is an association list with distinct keys; its entries as a multiset.\<close>

lemma mset_alist_split:
  "distinct (map fst ms) \<Longrightarrow> map_of ms i = Some m \<Longrightarrow> mset ms = add_mset (i, m) (mset (AList.delete i ms))"
proof (induction ms)
  case (Cons x ms)
  obtain k v where x: "x = (k, v)" by (cases x)
  show ?case
  proof (cases "k = i")
    case True
    then have "AList.delete i ms = ms"
      using Cons.prems(1) x by (intro delete_id) auto
    with True Cons.prems x show ?thesis by simp
  qed (use Cons x in auto)
qed simp

lemma mset_alist_update:
  "distinct (map fst ms) \<Longrightarrow> mset (AList.update i m ms) = add_mset (i, m) (mset (AList.delete i ms))"
proof (induction ms)
  case (Cons x ms)
  obtain k v where x: "x = (k, v)" by (cases x)
  show ?case
  proof (cases "k = i")
    case True
    then have "AList.delete i ms = ms"
      using Cons.prems(1) x by (intro delete_id) auto
    with True x show ?thesis by simp
  qed (use Cons x in auto)
qed simp

section \<open>Characters and bytes\<close>

lemma char_byte_inverse: "char_of (unat (of_char c :: byte)) = c"
proof -
  have "unat (of_nat (of_char c) :: byte) = of_char c mod 256" by (simp add: unat_of_nat)
  then have "unat (of_char c :: byte) = of_char c mod 256" by (simp only: of_nat_of_char)
  then show ?thesis by (simp add: char_of_mod_256)
qed

section \<open>Big-endian 32-bit lengths\<close>

text \<open>\<open>u32::to_be_bytes\<close> and \<open>u32::from_be_bytes\<close> (defined on exactly four bytes).\<close>

definition u32_to_be_bytes :: "u32 \<Rightarrow> byte list" where
  "u32_to_be_bytes w = [ucast (drop_bit 24 w), ucast (drop_bit 16 w), ucast (drop_bit 8 w), ucast w]"

fun u32_from_be_bytes :: "byte list \<Rightarrow> u32" where
  "u32_from_be_bytes [a, b, c, d] =
     push_bit 24 (ucast a) OR push_bit 16 (ucast b) OR push_bit 8 (ucast c) OR ucast d"
| "u32_from_be_bytes _ = 0"

lemma length_u32_to_be_bytes [simp]: "length (u32_to_be_bytes w) = 4"
  by (simp add: u32_to_be_bytes_def)

lemma u32_be_roundtrip [simp]: "u32_from_be_bytes (u32_to_be_bytes w) = w"
proof (rule bit_word_eqI)
  fix n
  assume "n < LENGTH(32)"
  then consider "n < 8" | "8 \<le> n" "n < 16" | "16 \<le> n" "n < 24" | "24 \<le> n" "n < 32"
    by fastforce
  then show "bit (u32_from_be_bytes (u32_to_be_bytes w)) n = bit w n"
    by cases (auto simp: u32_to_be_bytes_def bit_or_iff bit_push_bit_iff bit_ucast_iff bit_drop_bit_eq)
qed

end
