(* ===== verification/Host_Calls.thy ===== *)
theory Host_Calls
  imports Prelude
begin

text \<open>
  The boundary between the node manager and its host. Every interaction of
  \<open>nodemanager\<close> with the operating system, the Firecracker API socket, the random
  generator or the async runtime's timers is one \<open>host_call\<close>. The host is a parameter
  \<open>env\<close>: it answers a call as a function of everything that happened before, so it can
  be any deterministic or adversarial environment, and every failure branch of the code
  is reachable. The history of calls and answers is the effect of a definition; the
  tables of the host that the program manages (iptables rules, tap devices) are read off
  the history by \<open>installed\<close> and \<open>taps\<close>.
\<close>

section \<open>The request bodies of the Firecracker API\<close>

record Drive =
  drive_id :: string
  is_read_only :: bool
  is_root_device :: bool
  path_on_host :: string

record NetworkInterface =
  host_dev_name :: string
  iface_id :: string

datatype MmdsVersion = V2

record MmdsConfig =
  mmds_ipv4_address :: string
  network_interfaces :: "string list"
  mmds_version :: MmdsVersion

record BootSource =
  kernel_image_path :: string
  boot_args :: string

record Vsock =
  guest_cid :: u32
  uds_path :: string

record FcMachineConfig =
  mem_size_mib :: u64
  fc_vcpu_count :: u8

datatype InstanceAction = InstanceStart | SendCtrlAltDel

datatype api_body =
    DriveBody Drive
  | NetworkInterfaceBody NetworkInterface
  | MmdsConfigBody MmdsConfig
  | BootSourceBody BootSource
  | VsockBody Vsock
  | MachineConfigBody FcMachineConfig
  | ActionBody InstanceAction

section \<open>Calls, answers and histories\<close>

datatype host_call =
    RunCmd string "string list"         \<comment> \<open>\<open>networking::cmd\<close>: spawn, wait, exit status\<close>
  | NewUuid                              \<comment> \<open>\<open>Uuid::new_v4\<close>\<close>
  | RandomU32                            \<comment> \<open>\<open>rand::random::<u32>\<close>\<close>
  | EnvVarSet string                     \<comment> \<open>\<open>std::env::var(..).is_ok()\<close>\<close>
  | CreateDirAll string
  | WriteFile string string
  | SpawnJailer string "string list" bool \<comment> \<open>binary, arguments, stdio to null\<close>
  | PathExists string
  | SleepMicros nat
  | ApiConnect string
  | ApiPut string api_body               \<comment> \<open>serialise the body and send it\<close>
  | CopyFile string string
  | ChownFile string u32
  | CreateFile string
  | SetLen string u64
  | BindUnixListener string
  | AcceptVsock nat                      \<comment> \<open>\<open>timeout(millis, listener.accept())\<close>\<close>
  | KillProc string                      \<comment> \<open>the jailer child of this machine\<close>
  | RemoveDirAll string
  | LockComm nat                         \<comment> \<open>\<open>timeout(millis, comm.lock())\<close>\<close>
  | VsockWriteAll "byte list"
  | VsockFlush
  | JoinPacketHandler nat                \<comment> \<open>\<open>timeout(millis, join handle)\<close>\<close>

datatype reply =
    Done
  | Failed
  | Elapsed
  | ExitStatus bool
  | HttpStatus nat
  | NotSerialized
  | Flag bool
  | Text string
  | Num u32

type_synonym event = "host_call \<times> reply"
type_synonym env = "event list \<Rightarrow> host_call \<Rightarrow> reply"

text \<open>The errors of the node manager (\<open>anyhow::Error\<close>), by what raised them.\<close>

datatype error =
    IoError host_call
  | CmdFailed string "string list"
  | ApiTransport string
  | ApiStatus string nat
  | ApiNotSerialized string
  | TimedOut host_call
  | Message string

definition perform :: "env \<Rightarrow> host_call \<Rightarrow> event list \<Rightarrow> reply \<times> event list" where
  "perform env c tr = (env tr c, tr @ [(c, env tr c)])"

text \<open>A call that the code follows by \<open>?\<close>: any answer but \<open>Done\<close> is an I/O error.\<close>

definition io :: "env \<Rightarrow> host_call \<Rightarrow> event list \<Rightarrow> (error, unit) res \<times> event list" where
  "io env c tr =
     (case perform env c tr of
        (Done, tr') \<Rightarrow> (Ok (), tr')
      | (_, tr') \<Rightarrow> (Err (IoError c), tr'))"

lemma fst_perform [simp]: "fst (perform env c tr) = env tr c"
  by (simp add: perform_def)

lemma snd_perform [simp]: "snd (perform env c tr) = tr @ [(c, env tr c)]"
  by (simp add: perform_def)

lemma snd_io [simp]: "snd (io env c tr) = tr @ [(c, env tr c)]"
  by (simp add: io_def perform_def split: reply.split)

lemma io_not_panic [simp]: "fst (io env c tr) \<noteq> Panic"
  by (simp add: io_def perform_def split: reply.split)

section \<open>The host tables the program manages\<close>

text \<open>
  \<open>iptables -A\<close> or \<open>-I\<close> with a rule body adds one instance of the rule and \<open>-D\<close>
  with the same body removes one; \<open>ip tuntap add\<close> and \<open>ip link del\<close> create and remove
  a tap device. A command that fails changes nothing.
\<close>

fun rule_event :: "event \<Rightarrow> string list multiset \<Rightarrow> string list multiset" where
  "rule_event (RunCmd prog (op # body), ExitStatus True) R =
     (if prog = ''iptables-nft'' then
        if op = ''-A'' \<or> op = ''-I'' then add_mset body R
        else if op = ''-D'' then R - {#body#}
        else R
      else R)"
| "rule_event _ R = R"

fun tap_event :: "event \<Rightarrow> string multiset \<Rightarrow> string multiset" where
  "tap_event (RunCmd prog args, ExitStatus True) T =
     (if prog = ''ip'' then
        case args of
          [a, b, name, c, d] \<Rightarrow>
            if a = ''tuntap'' \<and> b = ''add'' \<and> c = ''mode'' \<and> d = ''tap'' then add_mset name T else T
        | [a, b, name] \<Rightarrow> if a = ''link'' \<and> b = ''del'' then T - {#name#} else T
        | _ \<Rightarrow> T
      else T)"
| "tap_event _ T = T"

definition installed :: "event list \<Rightarrow> string list multiset" where
  "installed tr = fold rule_event tr {#}"

definition taps :: "event list \<Rightarrow> string multiset" where
  "taps tr = fold tap_event tr {#}"

lemma installed_Nil [simp]: "installed [] = {#}"
  by (simp add: installed_def)

lemma taps_Nil [simp]: "taps [] = {#}"
  by (simp add: taps_def)

lemma installed_append [simp]: "installed (tr @ evs) = fold rule_event evs (installed tr)"
  by (simp add: installed_def)

lemma taps_append [simp]: "taps (tr @ evs) = fold tap_event evs (taps tr)"
  by (simp add: taps_def)

text \<open>
  Documented behaviour of the two tools that the clean-up code relies on: deleting a rule
  that is installed, or a link that exists, succeeds.
\<close>

definition deletes_succeed :: "env \<Rightarrow> bool" where
  "deletes_succeed env \<longleftrightarrow>
     (\<forall>tr body. body \<in># installed tr \<longrightarrow>
        env tr (RunCmd ''iptables-nft'' (''-D'' # body)) = ExitStatus True) \<and>
     (\<forall>tr name. name \<in># taps tr \<longrightarrow>
        env tr (RunCmd ''ip'' [''link'', ''del'', name]) = ExitStatus True)"

section \<open>Calls that leave the host tables alone\<close>

fun runs_command :: "host_call \<Rightarrow> bool" where
  "runs_command (RunCmd _ _) = True"
| "runs_command _ = False"

lemma rule_event_quiet: "\<not> runs_command c \<Longrightarrow> rule_event (c, r) R = R"
  by (cases c) auto

lemma tap_event_quiet: "\<not> runs_command c \<Longrightarrow> tap_event (c, r) T = T"
  by (cases c) auto

text \<open>
  \<open>extends_by P tr tr'\<close>: the history only grew, and by calls that satisfy \<open>P\<close>. Most of
  the Firecracker driver makes boot calls, which neither run a command nor clean up after a
  machine; all of it is quiet, so it preserves every fact about the host tables.
\<close>

fun cleans_up :: "host_call \<Rightarrow> bool" where
  "cleans_up (KillProc _) = True"
| "cleans_up (RemoveDirAll _) = True"
| "cleans_up _ = False"

definition boot_call :: "host_call \<Rightarrow> bool" where
  "boot_call c \<longleftrightarrow> \<not> runs_command c \<and> \<not> cleans_up c"

definition extends_by :: "(host_call \<Rightarrow> bool) \<Rightarrow> event list \<Rightarrow> event list \<Rightarrow> bool" where
  "extends_by P tr tr' \<longleftrightarrow> (\<exists>evs. tr' = tr @ evs \<and> list_all (\<lambda>e. P (fst e)) evs)"

abbreviation extends_quietly :: "event list \<Rightarrow> event list \<Rightarrow> bool" where
  "extends_quietly \<equiv> extends_by (\<lambda>c. \<not> runs_command c)"

lemma extends_by_refl [simp]: "extends_by P tr tr"
  by (simp add: extends_by_def)

lemma extends_by_trans [trans]: "extends_by P a b \<Longrightarrow> extends_by P b c \<Longrightarrow> extends_by P a c"
  by (auto simp: extends_by_def)

lemma extends_by_mono: "extends_by P a b \<Longrightarrow> (\<And>c. P c \<Longrightarrow> Q c) \<Longrightarrow> extends_by Q a b"
  by (fastforce simp: extends_by_def list_all_iff)

lemma boot_quietly: "extends_by boot_call a b \<Longrightarrow> extends_quietly a b"
  by (erule extends_by_mono) (simp add: boot_call_def)

lemma extends_by_snoc [intro]: "P c \<Longrightarrow> extends_by P tr (tr @ [(c, r)])"
  by (simp add: extends_by_def)

lemma extends_quietly_tables:
  assumes "extends_quietly tr tr'"
  shows "installed tr' = installed tr" and "taps tr' = taps tr"
proof -
  obtain evs where tr': "tr' = tr @ evs" and q: "list_all (\<lambda>e. \<not> runs_command (fst e)) evs"
    using assms by (auto simp: extends_by_def)
  have "fold rule_event evs R = R" for R
    using q by (induction evs arbitrary: R) (auto simp: rule_event_quiet)
  then show "installed tr' = installed tr" by (simp add: tr')
  have "fold tap_event evs T = T" for T
    using q by (induction evs arbitrary: T) (auto simp: tap_event_quiet)
  then show "taps tr' = taps tr" by (simp add: tr')
qed

lemma extends_by_io [intro]: "P c \<Longrightarrow> extends_by P tr (snd (io env c tr))"
  by auto

lemma extends_by_then_try [intro]:
  assumes "extends_by P tr (snd m)"
    and "\<And>a s. m = (Ok a, s) \<Longrightarrow> extends_by P s (snd (k a s))"
  shows "extends_by P tr (snd (then_try m k))"
  using assms by (cases "(m, k)" rule: then_try.cases) (auto dest: extends_by_trans)

end
