(* ===== verification/Slot_Pool.thy ===== *)
theory Slot_Pool
  imports Prelude
begin

text \<open>
  The contract between the network manager and the node manager that uses it. The provider
  hands out slots (\<open>take_slot\<close>) and takes them back (\<open>put_slot\<close>); \<open>free\<close> are the
  slots it holds and \<open>issued\<close> all it ever built. The client owns a multiset of slots. The
  lemmas of the locale are all the client needs: ownership stays exclusive whatever it
  does, including losing a slot without giving it back.
\<close>

definition no_dup :: "'a multiset \<Rightarrow> bool" where
  "no_dup M \<longleftrightarrow> (\<forall>x. count M x \<le> 1)"

lemma no_dup_empty [simp]: "no_dup {#}"
  by (simp add: no_dup_def)

lemma no_dup_add: "no_dup (add_mset x M) \<longleftrightarrow> no_dup M \<and> x \<notin># M"
proof
  assume l: "no_dup (add_mset x M)"
  have "count M y \<le> 1" for y
  proof -
    have "count (add_mset x M) y \<le> 1" using l by (simp add: no_dup_def)
    then show ?thesis by (simp split: if_splits)
  qed
  moreover have "count M x = 0"
  proof -
    have "count (add_mset x M) x \<le> 1" using l by (simp only: no_dup_def)
    then show ?thesis by simp
  qed
  ultimately show "no_dup M \<and> x \<notin># M" by (simp add: no_dup_def not_in_iff)
qed (simp add: no_dup_def not_in_iff)

lemma no_dup_subset: "no_dup M \<Longrightarrow> N \<subseteq># M \<Longrightarrow> no_dup N"
  unfolding no_dup_def by (meson mset_subset_eq_count order_trans)

locale slot_pool =
  fixes take_slot :: "'nm \<Rightarrow> ('e, 'slot) res \<times> 'nm"
    and put_slot :: "'slot \<Rightarrow> 'nm \<Rightarrow> 'nm"
    and free :: "'nm \<Rightarrow> 'slot multiset"
    and issued :: "'nm \<Rightarrow> 'slot set"
    and room :: "'nm \<Rightarrow> bool"
  assumes take_Ok: "room nm \<Longrightarrow> take_slot nm = (Ok s, nm') \<Longrightarrow>
      issued nm \<subseteq> issued nm' \<and>
      (free nm = add_mset s (free nm') \<or>
       s \<notin> issued nm \<and> s \<in> issued nm' \<and> free nm' = free nm)"
    and take_not_Ok: "take_slot nm = (r, nm') \<Longrightarrow> \<not> is_ok r \<Longrightarrow>
      issued nm \<subseteq> issued nm' \<and> free nm' = free nm"
    and free_put: "free (put_slot s nm) = add_mset s (free nm)"
    and issued_put: "issued (put_slot s nm) = issued nm"
begin

definition exclusive :: "'nm \<Rightarrow> 'slot multiset \<Rightarrow> bool" where
  "exclusive nm used \<longleftrightarrow> no_dup (used + free nm) \<and> set_mset (used + free nm) \<subseteq> issued nm"

lemma exclusive_take:
  assumes "exclusive nm used" and "room nm" and "take_slot nm = (Ok s, nm')"
  shows "exclusive nm' (add_mset s used)"
proof -
  note t = take_Ok [OF assms(2,3)]
  show ?thesis
  proof (cases "free nm = add_mset s (free nm')")
    case True
    with t assms(1) show ?thesis by (auto simp: exclusive_def)
  next
    case False
    with t have "s \<notin> issued nm" and "s \<in> issued nm'" and "free nm' = free nm" by auto
    with t assms(1) show ?thesis by (auto simp: exclusive_def no_dup_add)
  qed
qed

lemma exclusive_take_failed:
  assumes "exclusive nm used" and "take_slot nm = (r, nm')" and "\<not> is_ok r"
  shows "exclusive nm' used"
  using assms take_not_Ok [OF assms(2,3)] by (auto simp: exclusive_def)

lemma exclusive_put:
  assumes "exclusive nm (add_mset s used)"
  shows "exclusive (put_slot s nm) used"
  using assms by (simp add: exclusive_def free_put issued_put)

lemma exclusive_lose:
  assumes "exclusive nm used" and "used' \<subseteq># used"
  shows "exclusive nm used'"
proof -
  have sub: "used' + free nm \<subseteq># used + free nm" using assms(2) by simp
  show ?thesis
    using assms(1) no_dup_subset [OF _ sub] set_mset_mono [OF sub]
    by (auto simp: exclusive_def)
qed

lemma exclusive_no_dup: "exclusive nm used \<Longrightarrow> no_dup used"
  by (auto simp: exclusive_def intro: no_dup_subset)

lemma exclusive_issued: "exclusive nm used \<Longrightarrow> s \<in># used \<Longrightarrow> s \<in> issued nm"
  by (auto simp: exclusive_def)

end

end
