(* ===== verification/Networking.thy ===== *)
theory Networking
  imports Host_Calls Slot_Pool
begin

text \<open>
  \<open>nodemanager/src/networking.rs\<close>: running \<open>ip\<close> and \<open>iptables-nft\<close>, tap devices, the
  book of iptables rules a network stack has to undo, the network stack of one machine,
  and the allocator of stacks. Destructors (\<open>Drop\<close>) are definitions of their own and are
  called where Rust runs them: when a value goes out of scope, also on an early return.
\<close>

section \<open>Commands\<close>

definition cmd :: "env \<Rightarrow> string \<Rightarrow> string list \<Rightarrow> event list \<Rightarrow> (error, unit) res \<times> event list" where
  "cmd env prog args tr =
     (case perform env (RunCmd prog args) tr of
        (ExitStatus True, tr') \<Rightarrow> (Ok (), tr')
      | (ExitStatus False, tr') \<Rightarrow> (Err (CmdFailed prog args), tr')
      | (_, tr') \<Rightarrow> (Err (IoError (RunCmd prog args)), tr'))"

section \<open>Tap devices\<close>

record TunTap =
  tap_name :: string

definition TunTap_new :: "env \<Rightarrow> string \<Rightarrow> event list \<Rightarrow> (error, TunTap) res \<times> event list" where
  "TunTap_new env name tr =
     then_try (cmd env ''ip'' [''tuntap'', ''add'', name, ''mode'', ''tap''] tr)
       (\<lambda>_ tr. (Ok \<lparr>tap_name = name\<rparr>, tr))"

definition TunTap_add_address :: "env \<Rightarrow> TunTap \<Rightarrow> string \<Rightarrow> event list \<Rightarrow> (error, unit) res \<times> event list" where
  "TunTap_add_address env tap cidr_addrs tr =
     cmd env ''ip'' [''addr'', ''add'', cidr_addrs, ''dev'', tap_name tap] tr"

definition TunTap_up :: "env \<Rightarrow> TunTap \<Rightarrow> event list \<Rightarrow> (error, unit) res \<times> event list" where
  "TunTap_up env tap tr = cmd env ''ip'' [''link'', ''set'', tap_name tap, ''up''] tr"

definition TunTap_drop :: "env \<Rightarrow> TunTap \<Rightarrow> event list \<Rightarrow> event list" where
  "TunTap_drop env tap tr = snd (cmd env ''ip'' [''link'', ''del'', tap_name tap] tr)"

section \<open>The rule book\<close>

record IpRuleBook =
  delete_args :: "string list list"

definition IpRuleBook_new :: IpRuleBook where
  "IpRuleBook_new = \<lparr>delete_args = []\<rparr>"

definition add_ip_rule ::
  "env \<Rightarrow> string list \<Rightarrow> string list \<Rightarrow> IpRuleBook \<times> event list
     \<Rightarrow> (error, unit) res \<times> (IpRuleBook \<times> event list)" where
  "add_ip_rule env args del_args = (\<lambda>(book, tr).
     (case cmd env ''iptables-nft'' args tr of
        (Ok _, tr') \<Rightarrow> (Ok (), (book\<lparr>delete_args := delete_args book @ [del_args]\<rparr>, tr'))
      | (Err e, tr') \<Rightarrow> (Err e, (book, tr'))
      | (Panic, tr') \<Rightarrow> (Panic, (book, tr'))))"

definition add_ip_rule_replace_first_arg ::
  "env \<Rightarrow> string list \<Rightarrow> string \<Rightarrow> IpRuleBook \<times> event list
     \<Rightarrow> (error, unit) res \<times> (IpRuleBook \<times> event list)" where
  "add_ip_rule_replace_first_arg env args delete_replace_arg s =
     add_ip_rule env args (delete_replace_arg # drop 1 args) s"

definition IpRuleBook_drop :: "env \<Rightarrow> IpRuleBook \<Rightarrow> event list \<Rightarrow> event list" where
  "IpRuleBook_drop env book tr =
     fold (\<lambda>rule tr. snd (cmd env ''iptables-nft'' rule tr)) (delete_args book) tr"

section \<open>IPv4 addresses\<close>

datatype Ipv4Addr = Ipv4Addr u8 u8 u8 u8

fun ipv4_string :: "Ipv4Addr \<Rightarrow> string" where
  "ipv4_string (Ipv4Addr a b c d) =
     join_strings ''.'' (map (\<lambda>x. dec_string (unat x)) [a, b, c, d])"

text \<open>The address as a number, for stating which subnet it lies in.\<close>

fun ipv4_nat :: "Ipv4Addr \<Rightarrow> nat" where
  "ipv4_nat (Ipv4Addr a b c d) = ((unat a * 256 + unat b) * 256 + unat c) * 256 + unat d"

section \<open>The network stack of one machine\<close>

record NetworkStackSlot =
  slot_ipv4_addr :: Ipv4Addr
  slot_gateway :: Ipv4Addr
  slot_tap_dev_name :: string

record NetworkStack =
  stack_ipv4_addr :: Ipv4Addr
  stack_gateway :: Ipv4Addr
  nic :: TunTap
  ip_rule_book :: IpRuleBook

definition NetworkStack_new ::
  "env \<Rightarrow> NetworkStackSlot \<Rightarrow> event list \<Rightarrow> (error, NetworkStack) res \<times> event list" where
  "NetworkStack_new env slot tr =
     then_try (TunTap_new env (slot_tap_dev_name slot) tr) (\<lambda>tap tr.
       on_exit (TunTap_drop env tap)
         (then_try (TunTap_add_address env tap (ipv4_string (slot_gateway slot) @ ''/30'') tr) (\<lambda>_ tr.
            then_try (TunTap_up env tap tr) (\<lambda>_ tr.
              (Ok \<lparr>stack_ipv4_addr = slot_ipv4_addr slot, stack_gateway = slot_gateway slot,
                   nic = tap, ip_rule_book = IpRuleBook_new\<rparr>, tr)))))"

text \<open>The fields are dropped in their order of declaration: the tap device, then the rules.\<close>

definition NetworkStack_drop :: "env \<Rightarrow> NetworkStack \<Rightarrow> event list \<Rightarrow> event list" where
  "NetworkStack_drop env st tr = IpRuleBook_drop env (ip_rule_book st) (TunTap_drop env (nic st) tr)"

text \<open>A rule added to the stack's own book (\<open>self.ip_rule_book\<close>).\<close>

definition stack_add_rule ::
  "env \<Rightarrow> string list \<Rightarrow> string \<Rightarrow> NetworkStack \<times> event list
     \<Rightarrow> (error, unit) res \<times> (NetworkStack \<times> event list)" where
  "stack_add_rule env args del = (\<lambda>(st, tr).
     (case add_ip_rule_replace_first_arg env args del (ip_rule_book st, tr) of
        (r, (book, tr')) \<Rightarrow> (r, (st\<lparr>ip_rule_book := book\<rparr>, tr'))))"

definition setup_public_nat ::
  "env \<Rightarrow> string \<Rightarrow> NetworkStack \<times> event list \<Rightarrow> (error, unit) res \<times> (NetworkStack \<times> event list)" where
  "setup_public_nat env outbound_if_name s =
     (let addr = ipv4_string (stack_ipv4_addr (fst s));
          nic_name = tap_name (nic (fst s))
      in then_try
           (stack_add_rule env
              [''-A'', ''POSTROUTING'', ''-t'', ''nat'', ''-o'', outbound_if_name, ''-s'', addr,
               ''-j'', ''MASQUERADE''] ''-D'' s)
           (\<lambda>_ s. then_try
              (stack_add_rule env
                 [''-A'', ''FORWARD'', ''-i'', nic_name, ''-o'', outbound_if_name, ''-j'', ''ACCEPT'']
                 ''-D'' s)
              (\<lambda>_ s. (Ok (), s))))"

definition setup_forwarding ::
  "env \<Rightarrow> string \<Rightarrow> u16 \<Rightarrow> u16 \<Rightarrow> NetworkStack \<times> event list
     \<Rightarrow> (error, unit) res \<times> (NetworkStack \<times> event list)" where
  "setup_forwarding env inbound_if_name inbound_port guest_port s =
     (let nic_name = tap_name (nic (fst s));
          dest = ipv4_string (stack_ipv4_addr (fst s)) @ '':'' @ dec_string (unat guest_port)
      in then_try
           (stack_add_rule env
              [''-A'', ''PREROUTING'', ''-t'', ''nat'', ''-i'', inbound_if_name, ''-p'', ''tcp'',
               ''--dport'', dec_string (unat inbound_port), ''-j'', ''DNAT'', ''--to-destination'', dest]
              ''-D'' s)
           (\<lambda>_ s. then_try
              (stack_add_rule env
                 [''-I'', ''FORWARD'', ''-i'', nic_name, ''-o'', inbound_if_name, ''-p'', ''tcp'',
                  ''--sport'', dec_string (unat guest_port), ''-m'', ''state'', ''--state'',
                  ''ESTABLISHED,RELATED'', ''-j'', ''ACCEPT''] ''-D'' s)
              (\<lambda>_ s. then_try
                 (stack_add_rule env
                    [''-I'', ''FORWARD'', ''-i'', inbound_if_name, ''-o'', nic_name, ''-p'', ''tcp'',
                     ''--dport'', dec_string (unat guest_port), ''-m'', ''state'', ''--state'',
                     ''NEW,ESTABLISHED,RELATED'', ''-j'', ''ACCEPT''] ''-D'' s)
                 (\<lambda>_ s. (Ok (), s)))))"

definition subnet_mask :: string where
  "subnet_mask = ''255.255.255.252''"

text \<open>\<open>NetworkStack::reclaim\<close> consumes the stack: the slot is kept, the stack is dropped.\<close>

definition stack_slot :: "NetworkStack \<Rightarrow> NetworkStackSlot" where
  "stack_slot st = \<lparr>slot_ipv4_addr = stack_ipv4_addr st, slot_gateway = stack_gateway st,
     slot_tap_dev_name = tap_name (nic st)\<rparr>"

definition NetworkStack_reclaim ::
  "env \<Rightarrow> NetworkStack \<Rightarrow> event list \<Rightarrow> NetworkStackSlot \<times> event list" where
  "NetworkStack_reclaim env st tr = (stack_slot st, NetworkStack_drop env st tr)"

section \<open>The allocator\<close>

record NetworkManager =
  recovered_slots :: "NetworkStackSlot list"
  next_id :: u16
  global_rules :: IpRuleBook

definition NetworkManager_new :: "env \<Rightarrow> event list \<Rightarrow> (error, NetworkManager) res \<times> event list" where
  "NetworkManager_new env tr =
     (case add_ip_rule_replace_first_arg env
             [''-I'', ''FORWARD'', ''-m'', ''conntrack'', ''--ctstate'', ''RELATED,ESTABLISHED'',
              ''-j'', ''ACCEPT''] ''-D'' (IpRuleBook_new, tr) of
        (Ok _, (rules, tr')) \<Rightarrow>
          (Ok \<lparr>recovered_slots = [], next_id = 0, global_rules = rules\<rparr>, tr')
      | (Err e, (rules, tr')) \<Rightarrow> (Err e, IpRuleBook_drop env rules tr')
      | (Panic, (rules, tr')) \<Rightarrow> (Panic, IpRuleBook_drop env rules tr'))"

definition next_slot ::
  "profile \<Rightarrow> NetworkManager \<Rightarrow> (error, NetworkStackSlot) res \<times> NetworkManager" where
  "next_slot prof nm =
     (case rev (recovered_slots nm) of
        slot # rest \<Rightarrow> (Ok slot, nm\<lparr>recovered_slots := rev rest\<rparr>)
      | [] \<Rightarrow>
          (let id = next_id nm in
           then_try (add_ovf prof id 1, nm) (\<lambda>n nm.
           then_try (mul_ovf prof id 4, nm\<lparr>next_id := n\<rparr>) (\<lambda>m nm.
           then_try (add_ovf prof m 1, nm) (\<lambda>ip_id nm.
             (let first_half = ucast (drop_bit 8 ip_id) :: u8;
                  second_half = ucast (ip_id AND 0xFF) :: u8
              in then_try (add_ovf prof second_half 1, nm) (\<lambda>guest nm.
                   (Ok \<lparr>slot_ipv4_addr = Ipv4Addr 172 16 first_half guest,
                        slot_gateway = Ipv4Addr 172 16 first_half second_half,
                        slot_tap_dev_name = ''tap'' @ dec_string (unat id)\<rparr>, nm))))))))"

definition provision_stack ::
  "env \<Rightarrow> profile \<Rightarrow> NetworkManager \<times> event list
     \<Rightarrow> (error, NetworkStack) res \<times> (NetworkManager \<times> event list)" where
  "provision_stack env prof = (\<lambda>(nm, tr).
     (case next_slot prof nm of
        (Ok slot, nm') \<Rightarrow>
          (case NetworkStack_new env slot tr of (r, tr') \<Rightarrow> (r, (nm', tr')))
      | (Err e, nm') \<Rightarrow> (Err e, (nm', tr))
      | (Panic, nm') \<Rightarrow> (Panic, (nm', tr))))"

definition reclaim ::
  "env \<Rightarrow> NetworkStack \<Rightarrow> NetworkManager \<times> event list \<Rightarrow> NetworkManager \<times> event list" where
  "reclaim env stack = (\<lambda>(nm, tr).
     (case NetworkStack_reclaim env stack tr of
        (slot, tr') \<Rightarrow> (nm\<lparr>recovered_slots := recovered_slots nm @ [slot]\<rparr>, tr')))"

definition NetworkManager_drop :: "env \<Rightarrow> NetworkManager \<Rightarrow> event list \<Rightarrow> event list" where
  "NetworkManager_drop env nm tr = IpRuleBook_drop env (global_rules nm) tr"


section \<open>Specification vocabulary\<close>

text \<open>
  \<open>slot_of_id k\<close> is the slot the allocator is meant to build for its \<open>k\<close>-th stack: the
  \<open>/30\<close> block number \<open>k\<close> of 172.16.0.0/16, with the gateway and the guest as its two
  usable hosts. A 16-bit \<open>id * 4 + 1\<close> fits for \<open>k\<close> below \<open>slot_limit\<close>.
\<close>

definition slot_limit :: nat where
  "slot_limit = 16384"

definition slot_of_id :: "nat \<Rightarrow> NetworkStackSlot" where
  "slot_of_id k =
     \<lparr>slot_ipv4_addr = Ipv4Addr 172 16 (of_nat ((4 * k + 2) div 256)) (of_nat ((4 * k + 2) mod 256)),
      slot_gateway = Ipv4Addr 172 16 (of_nat ((4 * k + 1) div 256)) (of_nat ((4 * k + 1) mod 256)),
      slot_tap_dev_name = ''tap'' @ dec_string k\<rparr>"

definition slot_net :: nat where
  "slot_net = ipv4_nat (Ipv4Addr 172 16 0 0)"

text \<open>The slots an allocator has handed out so far, whether they are in use, free or lost.\<close>

definition issued_slots :: "NetworkManager \<Rightarrow> NetworkStackSlot set" where
  "issued_slots nm = slot_of_id ` {k. k < slot_limit \<and> k < unat (next_id nm)}"

text \<open>
  A rule book is well formed when all it holds are deletions; \<open>book_rules\<close> are the bodies
  of the rules it will delete.
\<close>

definition book_ok :: "IpRuleBook \<Rightarrow> bool" where
  "book_ok book \<longleftrightarrow> list_all (\<lambda>d. d \<noteq> [] \<and> hd d = ''-D'') (delete_args book)"

definition book_rules :: "IpRuleBook \<Rightarrow> string list multiset" where
  "book_rules book = mset (map tl (delete_args book))"

abbreviation stack_rules :: "NetworkStack \<Rightarrow> string list multiset" where
  "stack_rules st \<equiv> book_rules (ip_rule_book st)"

abbreviation stack_tap :: "NetworkStack \<Rightarrow> string" where
  "stack_tap st \<equiv> tap_name (nic st)"

section \<open>Slot arithmetic\<close>

lemma slot_net_eq: "slot_net = (172 * 256 + 16) * 65536"
  by (simp add: slot_net_def)

lemma ipv4_nat_low: "ipv4_nat (Ipv4Addr 172 16 a b) = slot_net + (unat a * 256 + unat b)"
  by (simp add: slot_net_eq)

lemma unat_of_nat_u8: "m < 256 \<Longrightarrow> unat (of_nat m :: u8) = m"
  by (simp add: unat_of_nat)

lemma ipv4_nat_16:
  assumes "n < 65536"
  shows "ipv4_nat (Ipv4Addr 172 16 (of_nat (n div 256)) (of_nat (n mod 256))) = slot_net + n"
proof -
  have "n div 256 < 256" using assms by (simp add: less_mult_imp_div_less)
  moreover have "n mod 256 < 256" by simp
  ultimately show ?thesis
    by (simp only: ipv4_nat_low unat_of_nat_u8 div_mult_mod_eq)
qed

lemma slot_of_id_nat:
  assumes "k < slot_limit"
  shows "ipv4_nat (slot_gateway (slot_of_id k)) = slot_net + (4 * k + 1)"
    and "ipv4_nat (slot_ipv4_addr (slot_of_id k)) = slot_net + (4 * k + 2)"
  using assms unfolding slot_of_id_def slot_limit_def
  by (simp_all only: NetworkStackSlot.simps, simp_all only: ipv4_nat_16)

lemma slot_of_id_eq_iff:
  assumes "j < slot_limit" and "k < slot_limit"
  shows "slot_of_id j = slot_of_id k \<longleftrightarrow> j = k"
proof
  assume "slot_of_id j = slot_of_id k"
  then have "slot_net + (4 * j + 1) = slot_net + (4 * k + 1)"
    by (metis slot_of_id_nat(1) assms)
  then show "j = k" by linarith
qed simp

lemma slot_tap_eq_iff:
  "slot_tap_dev_name (slot_of_id j) = slot_tap_dev_name (slot_of_id k) \<longleftrightarrow> j = k"
  by (auto simp: slot_of_id_def dest: dec_string_inj)

lemma low_byte: "ucast (w AND 0xFF) = (of_nat (unat w mod 256) :: u8)" for w :: u16
proof -
  have "w AND 0xFF = take_bit 8 w" by (simp add: take_bit_eq_mask mask_eq_exp_minus_1)
  then have "unat (w AND 0xFF) = unat w mod 256" by (simp add: take_bit_eq_mod unat_mod)
  moreover have "ucast (w AND 0xFF) = (of_nat (unat (w AND 0xFF)) :: u8)"
    by (simp)
  ultimately show ?thesis by simp
qed

lemma high_byte: "ucast (drop_bit 8 w) = (of_nat (unat w div 256) :: u8)" for w :: u16
proof -
  have "unat (drop_bit 8 w) = unat w div 256"
    by (simp add: drop_bit_eq_div unat_div)
  moreover have "ucast (drop_bit 8 w) = (of_nat (unat (drop_bit 8 w)) :: u8)" by (simp only: of_nat_unat)
  ultimately show ?thesis by simp
qed

lemma quad_block:
  assumes "c < (4::nat)"
  shows "(4 * k + c) div 256 = k div 64" and "(4 * k + c) mod 256 = 4 * (k mod 64) + c"
proof -
  have k: "4 * k + c = 256 * (k div 64) + (4 * (k mod 64) + c)"
    using div_mult_mod_eq [of k 64] by linarith
  have b: "4 * (k mod 64) + c < 256"
    using assms mod_less_divisor [of 64 k] by linarith
  show "(4 * k + c) div 256 = k div 64" unfolding k using b by simp
  show "(4 * k + c) mod 256 = 4 * (k mod 64) + c" unfolding k using b by simp
qed

lemma unat_times_4: "unat (i * 4 :: u16) = 4 * (unat i mod 16384)"
proof -
  have "unat (i * 4 :: u16) = (4 * unat i) mod (4 * 16384)"
    by (simp add: unat_word_ariths mult.commute)
  then show ?thesis by (simp only: mult_mod_right)
qed

lemma unat_ip_id: "unat (i * 4 + 1 :: u16) = 4 * (unat i mod 16384) + 1"
proof -
  have "unat i mod 16384 < 16384" by simp
  then have "4 * (unat i mod 16384) + 1 < 65536" by linarith
  then show ?thesis
    by (simp add: unat_word_ariths(1) unat_times_4)
qed

lemma ovf_next_id: "unat i < slot_limit \<Longrightarrow> add_ovf prof i (1::u16) = Ok (i + 1)"
  by (simp add: add_ovf_def slot_limit_def)

lemma ovf_mul4: "unat i < slot_limit \<Longrightarrow> mul_ovf prof i (4::u16) = Ok (i * 4)"
  by (simp add: mul_ovf_def slot_limit_def)

lemma ovf_release: "add_ovf Release a b = Ok (a + b)" "mul_ovf Release a b = Ok (a * b)"
  "sub_ovf Release a b = Ok (a - b)"
  by (simp_all add: add_ovf_def mul_ovf_def sub_ovf_def)

lemma ovf_ip_id: "add_ovf prof (i * 4) (1::u16) = Ok (i * 4 + 1)"
proof -
  have "unat i mod 16384 < 16384" by simp
  then have "4 * (unat i mod 16384) + 1 < 65536" by linarith
  then show ?thesis by (simp add: add_ovf_def unat_times_4)
qed

lemma ovf_guest: "add_ovf prof (of_nat ((4 * k + 1) mod 256)) (1::u8) = Ok (of_nat ((4 * k + 2) mod 256))"
proof -
  have "k mod 64 < 64" by simp
  then have b: "4 * (k mod 64) + 1 < 256" "4 * (k mod 64) + 1 + 1 < 256" by linarith+
  then have "unat (of_nat (4 * (k mod 64) + 1) :: u8) = 4 * (k mod 64) + 1" by (simp only: unat_of_nat_u8)
  then have "add_ovf prof (of_nat (4 * (k mod 64) + 1)) (1::u8) = Ok (of_nat (4 * (k mod 64) + 1) + 1)"
    unfolding add_ovf_def using b by simp
  moreover have "(of_nat (4 * (k mod 64) + 1) + 1 :: u8) = of_nat (4 * (k mod 64) + 2)" by simp
  ultimately show ?thesis
    using quad_block [of 1 k] quad_block [of 2 k] by (simp only: one_less_numeral_iff semiring_norm numeral_less_iff)
qed

lemma next_slot_fresh:
  assumes "recovered_slots nm = []" and "prof = Debug \<Longrightarrow> unat (next_id nm) < slot_limit"
  shows "next_slot prof nm =
    (Ok ((slot_of_id (unat (next_id nm) mod slot_limit))
           \<lparr>slot_tap_dev_name := ''tap'' @ dec_string (unat (next_id nm))\<rparr>),
     nm\<lparr>next_id := next_id nm + 1\<rparr>)"
proof -
  let ?i = "next_id nm" and ?k = "unat (next_id nm) mod slot_limit"
  have o: "add_ovf prof ?i 1 = (Ok (?i + 1) :: (error, u16) res)"
    "mul_ovf prof ?i 4 = (Ok (?i * 4) :: (error, u16) res)"
    using assms(2) by (cases prof; simp add: ovf_next_id ovf_mul4 ovf_release)+
  have *: "(4 * ?k + 1) div 256 = (4 * ?k + 2) div 256" using quad_block(1) [of 1] quad_block(1) [of 2] by simp
  have guest: "add_ovf prof (of_nat ((4 * ?k + 1) mod 256)) 1 =
      (Ok (of_nat ((4 * ?k + 2) mod 256)) :: (error, u8) res)" by (rule ovf_guest)
  show ?thesis
    unfolding next_slot_def Let_def
    using guest *
    by (simp add: assms(1) o ovf_ip_id low_byte high_byte unat_ip_id slot_of_id_def
        flip: slot_limit_def)
qed

lemma next_slot_recovered:
  "recovered_slots nm = rest @ [slot] \<Longrightarrow>
     next_slot prof nm = (Ok slot, nm\<lparr>recovered_slots := rest\<rparr>)"
  by (simp add: next_slot_def)

lemma next_slot_exhausted:
  assumes "recovered_slots nm = []" and "slot_limit \<le> unat (next_id nm)"
  shows "fst (next_slot Debug nm) = Panic"
    and "snd (next_slot Debug nm) =
       (if unat (next_id nm) = 65535 then nm else nm\<lparr>next_id := next_id nm + 1\<rparr>)"
proof -
  have lt: "unat (next_id nm) < 65536"
    by (rule unat_u16_less)
  have "mul_ovf Debug (next_id nm) 4 = (Panic :: (error, u16) res)"
    using assms(2) by (simp add: mul_ovf_def slot_limit_def)
  moreover have "add_ovf Debug (next_id nm) 1 =
      (if unat (next_id nm) = 65535 then Panic else Ok (next_id nm + 1) :: (error, u16) res)"
    using lt by (auto simp: add_ovf_def)
  ultimately show "fst (next_slot Debug nm) = Panic"
    and "snd (next_slot Debug nm) =
       (if unat (next_id nm) = 65535 then nm else nm\<lparr>next_id := next_id nm + 1\<rparr>)"
    by (simp_all add: next_slot_def assms(1) Let_def)
qed

lemma unat_succ_u16: "unat (i :: u16) < 65535 \<Longrightarrow> unat (i + 1) = unat i + 1"
  by (simp add: unat_word_ariths)

lemma issued_slots_mono:
  "unat (next_id nm) \<le> unat (next_id nm') \<Longrightarrow> issued_slots nm \<subseteq> issued_slots nm'"
  by (auto simp: issued_slots_def)

lemma next_slot_cases:
  obtains (recovered) rest slot where "recovered_slots nm = rest @ [slot]"
  | (fresh) "recovered_slots nm = []" "unat (next_id nm) < slot_limit"
  | (exhausted) "recovered_slots nm = []" "slot_limit \<le> unat (next_id nm)"
  by (cases "recovered_slots nm" rule: rev_cases; cases "unat (next_id nm) < slot_limit") auto

section \<open>The allocator as a slot pool\<close>

definition put_slot :: "NetworkStackSlot \<Rightarrow> NetworkManager \<Rightarrow> NetworkManager" where
  "put_slot slot nm = nm\<lparr>recovered_slots := recovered_slots nm @ [slot]\<rparr>"

abbreviation free_slots :: "NetworkManager \<Rightarrow> NetworkStackSlot multiset" where
  "free_slots nm \<equiv> mset (recovered_slots nm)"

lemma reclaim_eq: "reclaim env st (nm, tr) = (put_slot (stack_slot st) nm, NetworkStack_drop env st tr)"
  by (simp add: reclaim_def NetworkStack_reclaim_def put_slot_def)

text \<open>With overflow checks the pool never runs into the address wrap-around: it panics.\<close>

definition has_room :: "profile \<Rightarrow> NetworkManager \<Rightarrow> bool" where
  "has_room prof nm \<longleftrightarrow>
     prof = Debug \<or> recovered_slots nm \<noteq> [] \<or> unat (next_id nm) < slot_limit"

lemma slot_of_id_fresh:
  "(slot_of_id k)\<lparr>slot_tap_dev_name := ''tap'' @ dec_string k\<rparr> = slot_of_id k"
  by (simp add: slot_of_id_def)

lemma next_slot_fresh_ok:
  assumes "recovered_slots nm = []" and "unat (next_id nm) < slot_limit"
  shows "next_slot prof nm =
    (Ok (slot_of_id (unat (next_id nm))), nm\<lparr>next_id := next_id nm + 1\<rparr>)"
  using next_slot_fresh [of nm prof] assms by (simp only: mod_less slot_of_id_fresh)

lemma issued_slots_succ:
  assumes "unat (next_id nm) < slot_limit"
  shows "issued_slots (nm\<lparr>next_id := next_id nm + 1\<rparr>) =
      insert (slot_of_id (unat (next_id nm))) (issued_slots nm)"
    and "slot_of_id (unat (next_id nm)) \<notin> issued_slots nm"
proof -
  have "unat (next_id nm + 1) = unat (next_id nm) + 1"
    using assms by (intro unat_succ_u16) (simp add: slot_limit_def)
  then have "{k. k < slot_limit \<and> k < unat (next_id nm + 1)} =
      insert (unat (next_id nm)) {k. k < slot_limit \<and> k < unat (next_id nm)}"
    using assms by auto
  then show "issued_slots (nm\<lparr>next_id := next_id nm + 1\<rparr>) =
      insert (slot_of_id (unat (next_id nm))) (issued_slots nm)"
    by (simp add: issued_slots_def)
  show "slot_of_id (unat (next_id nm)) \<notin> issued_slots nm"
    using assms by (auto simp: issued_slots_def slot_of_id_eq_iff)
qed

lemma next_slot_Ok:
  assumes "has_room prof nm" and "next_slot prof nm = (Ok s, nm')"
  shows "issued_slots nm \<subseteq> issued_slots nm' \<and>
      (free_slots nm = add_mset s (free_slots nm') \<or>
       s \<notin> issued_slots nm \<and> s \<in> issued_slots nm' \<and> free_slots nm' = free_slots nm)"
proof (cases nm rule: next_slot_cases)
  case (recovered rest slot)
  then have "s = slot" and "nm' = nm\<lparr>recovered_slots := rest\<rparr>"
    using assms(2) by (simp_all add: next_slot_recovered)
  with recovered show ?thesis by (simp add: issued_slots_def)
next
  case fresh
  then have "s = slot_of_id (unat (next_id nm))" and "nm' = nm\<lparr>next_id := next_id nm + 1\<rparr>"
    using assms(2) by (simp_all add: next_slot_fresh_ok)
  with fresh(2) show ?thesis by (auto simp: issued_slots_succ)
next
  case exhausted
  then have "prof = Debug" using assms(1) by (auto simp: has_room_def)
  with exhausted assms(2) next_slot_exhausted(1) show ?thesis by fastforce
qed

lemma next_slot_not_Ok:
  assumes "next_slot prof nm = (r, nm')" and "\<not> is_ok r"
  shows "issued_slots nm \<subseteq> issued_slots nm' \<and> free_slots nm' = free_slots nm"
proof (cases nm rule: next_slot_cases)
  case exhausted
  show ?thesis
  proof (cases prof)
    case Debug
    have nm': "nm' = (if unat (next_id nm) = 65535 then nm else nm\<lparr>next_id := next_id nm + 1\<rparr>)"
      using assms(1) next_slot_exhausted(2) [OF exhausted] Debug by simp
    have "unat (next_id nm) \<le> unat (next_id nm')"
      using nm' unat_u16_less [of "next_id nm"] by (auto simp: unat_succ_u16)
    then show ?thesis using nm' issued_slots_mono by auto
  next
    case Release
    with exhausted assms next_slot_fresh [of nm Release] show ?thesis by auto
  qed
qed (use assms in \<open>auto simp: next_slot_recovered next_slot_fresh\<close>)

interpretation checked_pool:
  slot_pool "next_slot Debug" put_slot free_slots issued_slots "\<lambda>_. True"
proof unfold_locales
qed (use next_slot_Ok [of Debug] next_slot_not_Ok [of Debug] in
      \<open>auto simp: has_room_def put_slot_def issued_slots_def\<close>)

interpretation wrapping_pool:
  slot_pool "next_slot Release" put_slot free_slots issued_slots "has_room Release"
proof unfold_locales
qed (use next_slot_Ok [of Release] next_slot_not_Ok [of Release] in
      \<open>auto simp: put_slot_def issued_slots_def\<close>)

section \<open>What the operations do to the host tables\<close>

lemma cmd_snd [simp]: "snd (cmd env p args tr) = tr @ [(RunCmd p args, env tr (RunCmd p args))]"
  by (simp add: cmd_def perform_def split: reply.split bool.split)

lemma cmd_Ok_iff: "fst (cmd env p args tr) = Ok () \<longleftrightarrow> env tr (RunCmd p args) = ExitStatus True"
  by (simp add: cmd_def perform_def split: reply.split bool.split)

lemma cmd_True:
  "env tr (RunCmd p args) = ExitStatus True \<Longrightarrow>
     cmd env p args tr = (Ok (), tr @ [(RunCmd p args, ExitStatus True)])"
  by (simp add: cmd_def perform_def)

lemma cmd_Ok [res_simps]:
  "cmd env p args tr = (Ok u, tr') \<longleftrightarrow>
     env tr (RunCmd p args) = ExitStatus True \<and> tr' = tr @ [(RunCmd p args, ExitStatus True)]"
  by (auto simp: cmd_def perform_def split: reply.splits bool.splits)

lemma cmd_False:
  assumes "env tr (RunCmd p args) \<noteq> ExitStatus True"
  obtains e where "cmd env p args tr = (Err e, tr @ [(RunCmd p args, env tr (RunCmd p args))])"
  using assms
  by (cases "env tr (RunCmd p args)") (auto simp: cmd_def perform_def split: bool.splits)

lemma cmd_not_Panic [simp]: "fst (cmd env p args tr) \<noteq> Panic"
  by (simp add: cmd_def perform_def split: reply.split bool.split)

lemma rule_event_failed [simp]: "r \<noteq> ExitStatus True \<Longrightarrow> rule_event (c, r) R = R"
  by (cases "((c, r), R)" rule: rule_event.cases) auto

lemma tap_event_failed [simp]: "r \<noteq> ExitStatus True \<Longrightarrow> tap_event (c, r) T = T"
  by (cases "((c, r), T)" rule: tap_event.cases) auto

lemma rule_event_ip [simp]: "rule_event (RunCmd ''ip'' args, r) R = R"
  by (cases "((RunCmd ''ip'' args, r), R)" rule: rule_event.cases) auto

lemma tap_event_iptables [simp]: "tap_event (RunCmd ''iptables-nft'' args, r) T = T"
  by (cases "((RunCmd ''iptables-nft'' args, r), T)" rule: tap_event.cases) auto

text \<open>
  A step of a stack's set-up keeps the difference between what is installed and what the
  book will delete, keeps the tap devices, and keeps the slot.
\<close>

definition stack_step :: "NetworkStack \<times> event list \<Rightarrow> NetworkStack \<times> event list \<Rightarrow> bool" where
  "stack_step s s' \<longleftrightarrow>
     installed (snd s') + stack_rules (fst s) = installed (snd s) + stack_rules (fst s') \<and>
     taps (snd s') = taps (snd s) \<and>
     stack_slot (fst s') = stack_slot (fst s) \<and>
     (book_ok (ip_rule_book (fst s)) \<longrightarrow> book_ok (ip_rule_book (fst s')))"

lemma stack_step_refl [simp]: "stack_step s s"
  by (simp add: stack_step_def)

lemma balance_trans:
  fixes a b c x y z :: "'a multiset"
  assumes "b + x = a + y" and "c + y = b + z"
  shows "c + x = a + z"
proof -
  have "(c + x) + (b + y) = (b + x) + (c + y)" by (simp add: ac_simps)
  also have "\<dots> = (a + z) + (b + y)" unfolding assms by (simp add: ac_simps)
  finally show ?thesis by simp
qed

lemma stack_step_trans: "stack_step a b \<Longrightarrow> stack_step b c \<Longrightarrow> stack_step a c"
  unfolding stack_step_def by (auto intro: balance_trans)

lemma stack_step_then_try [intro]:
  assumes "stack_step s (snd m)" and "\<And>a s'. m = (Ok a, s') \<Longrightarrow> stack_step s' (snd (k a s'))"
  shows "stack_step s (snd (then_try m k))"
  using assms by (cases "(m, k)" rule: then_try.cases) (auto dest: stack_step_trans)

lemma stack_add_rule_step:
  assumes "op = ''-A'' \<or> op = ''-I''"
  shows "stack_step s (snd (stack_add_rule env (op # body) ''-D'' s))"
proof -
  obtain st tr where s: "s = (st, tr)" by (cases s)
  have "fst (cmd env ''iptables-nft'' (op # body) tr) = Ok () \<longleftrightarrow>
      env tr (RunCmd ''iptables-nft'' (op # body)) = ExitStatus True"
    by (rule cmd_Ok_iff)
  then show ?thesis
    using assms cmd_snd [of env "''iptables-nft''" "op # body" tr]
    by (cases "cmd env ''iptables-nft'' (op # body) tr"; cases "fst (cmd env ''iptables-nft'' (op # body) tr)")
      (auto simp: s stack_step_def stack_add_rule_def add_ip_rule_replace_first_arg_def add_ip_rule_def
        book_rules_def book_ok_def stack_slot_def)
qed

lemma setup_public_nat_step: "stack_step s (snd (setup_public_nat env out s))"
  unfolding setup_public_nat_def Let_def
  by (intro stack_step_then_try stack_add_rule_step) auto

lemma setup_forwarding_step: "stack_step s (snd (setup_forwarding env inb hp gp s))"
  unfolding setup_forwarding_def Let_def
  by (intro stack_step_then_try stack_add_rule_step) auto

lemma setup_forwardings_step:
  "stack_step s (fold (\<lambda>(hp, gp) s. snd (setup_forwarding env inb hp gp s)) ports s)"
proof (induction ports arbitrary: s)
  case (Cons p ports)
  show ?case
    using stack_step_trans [OF setup_forwarding_step Cons.IH] by (cases p) simp
qed simp

lemma TunTap_drop_tables:
  assumes "deletes_succeed env" and "tap_name tap \<in># taps tr"
  shows "installed (TunTap_drop env tap tr) = installed tr"
    and "taps (TunTap_drop env tap tr) = taps tr - {#tap_name tap#}"
  using assms by (auto simp: TunTap_drop_def deletes_succeed_def)

lemma IpRuleBook_drop_tables:
  assumes "deletes_succeed env" and "book_ok book" and "book_rules book \<subseteq># installed tr"
  shows "installed (IpRuleBook_drop env book tr) = installed tr - book_rules book \<and>
    taps (IpRuleBook_drop env book tr) = taps tr"
proof -
  have "list_all (\<lambda>d. d \<noteq> [] \<and> hd d = ''-D'') ds \<Longrightarrow> mset (map tl ds) \<subseteq># installed tr \<Longrightarrow>
      installed (fold (\<lambda>rule tr. snd (cmd env ''iptables-nft'' rule tr)) ds tr)
        = installed tr - mset (map tl ds) \<and>
      taps (fold (\<lambda>rule tr. snd (cmd env ''iptables-nft'' rule tr)) ds tr) = taps tr" for ds
  proof (induction ds arbitrary: tr)
    case Nil
    then show ?case by simp
  next
    case (Cons d ds)
    let ?tr = "snd (cmd env ''iptables-nft'' d tr)"
    obtain body where d: "d = ''-D'' # body" using Cons.prems(1) by (cases d) auto
    have "body \<in># installed tr"
      using Cons.prems(2) by (simp add: d insert_subset_eq_iff)
    then have "env tr (RunCmd ''iptables-nft'' d) = ExitStatus True"
      using assms(1) by (simp add: deletes_succeed_def d)
    then have i: "installed ?tr = installed tr - {#body#}" and t: "taps ?tr = taps tr"
      by (simp_all add: d)
    have "mset (map tl ds) \<subseteq># installed ?tr"
      unfolding i using Cons.prems(2) by (simp add: d insert_subset_eq_iff)
    with Cons.IH [of ?tr] Cons.prems(1) i t show ?case
      by (simp add: d del: cmd_snd)
  qed
  with assms(2,3) show ?thesis by (simp add: IpRuleBook_drop_def book_ok_def book_rules_def)
qed

lemma NetworkStack_drop_tables:
  assumes "deletes_succeed env" and "book_ok (ip_rule_book st)"
    and "stack_tap st \<in># taps tr" and "stack_rules st \<subseteq># installed tr"
  shows "installed (NetworkStack_drop env st tr) = installed tr - stack_rules st"
    and "taps (NetworkStack_drop env st tr) = taps tr - {#stack_tap st#}"
  using IpRuleBook_drop_tables [OF assms(1,2), of "TunTap_drop env (nic st) tr"]
    TunTap_drop_tables [OF assms(1,3)] assms(4)
  by (simp_all add: NetworkStack_drop_def)

lemma NetworkStack_new_Ok:
  assumes "NetworkStack_new env slot tr = (Ok st, tr')"
  shows "installed tr' = installed tr" and "taps tr' = add_mset (stack_tap st) (taps tr)"
    and "stack_slot st = slot" and "ip_rule_book st = IpRuleBook_new"
  using assms
  by (auto simp: NetworkStack_new_def TunTap_new_def TunTap_add_address_def TunTap_up_def res_simps
      stack_slot_def)

text \<open>A command of \<open>ip\<close> that neither creates nor deletes a tap leaves both tables alone.\<close>

lemma TunTap_config_tables [simp]:
  "installed (snd (TunTap_add_address env tap cidr tr)) = installed tr"
  "taps (snd (TunTap_add_address env tap cidr tr)) = taps tr"
  "installed (snd (TunTap_up env tap tr)) = installed tr"
  "taps (snd (TunTap_up env tap tr)) = taps tr"
  by (cases "env tr (RunCmd ''ip'' [''addr'', ''add'', cidr, ''dev'', tap_name tap]) = ExitStatus True";
      cases "env tr (RunCmd ''ip'' [''link'', ''set'', tap_name tap, ''up'']) = ExitStatus True";
      simp add: TunTap_add_address_def TunTap_up_def)+

lemma TunTap_drop_after_config:
  assumes "deletes_succeed env" and "taps tr1 = add_mset (tap_name tap) T" and "installed tr1 = I"
    and "on_exit (TunTap_drop env tap)
          (then_try (TunTap_add_address env tap cidr tr1) (\<lambda>_ tr.
             then_try (TunTap_up env tap tr) (\<lambda>_ tr. (Ok st, tr)))) = (r, tr')"
    and "\<not> is_ok r"
  shows "installed tr' = I \<and> taps tr' = T"
proof -
  obtain r1 tr2 where c1: "TunTap_add_address env tap cidr tr1 = (r1, tr2)" by fastforce
  obtain r2 tr3 where c2: "TunTap_up env tap tr2 = (r2, tr3)" by fastforce
  have t2: "installed tr2 = I" "taps tr2 = add_mset (tap_name tap) T"
    using TunTap_config_tables(1,2) [of env tap cidr tr1] assms(2,3) c1 by simp_all
  have t3: "installed tr3 = I" "taps tr3 = add_mset (tap_name tap) T"
    using TunTap_config_tables(3,4) [of env tap tr2] t2 c2 by simp_all
  have "tr' = TunTap_drop env tap tr2 \<or> tr' = TunTap_drop env tap tr3"
    using assms(4,5) c1 c2 by (cases r1; cases r2) auto
  then show ?thesis
    using TunTap_drop_tables [OF assms(1), of tap tr2] TunTap_drop_tables [OF assms(1), of tap tr3] t2 t3
    by auto
qed

lemma NetworkStack_new_not_Ok:
  assumes "deletes_succeed env" and "NetworkStack_new env slot tr = (r, tr')" and "\<not> is_ok r"
  shows "installed tr' = installed tr \<and> taps tr' = taps tr"
proof (cases "env tr (RunCmd ''ip'' [''tuntap'', ''add'', slot_tap_dev_name slot, ''mode'', ''tap'']) = ExitStatus True")
  case True
  from assms(2) show ?thesis
    unfolding NetworkStack_new_def TunTap_new_def
    apply (simp add: cmd_True [where env = env and tr = tr, OF True])
    apply (rule TunTap_drop_after_config [OF assms(1) _ _ _ assms(3)])
    prefer 3 apply assumption
    by simp_all
next
  case False
  then obtain e where "cmd env ''ip'' [''tuntap'', ''add'', slot_tap_dev_name slot, ''mode'', ''tap''] tr
      = (Err e, tr @ [(RunCmd ''ip'' [''tuntap'', ''add'', slot_tap_dev_name slot, ''mode'', ''tap''],
          env tr (RunCmd ''ip'' [''tuntap'', ''add'', slot_tap_dev_name slot, ''mode'', ''tap'']))])"
    by (rule cmd_False)
  with False assms(2) show ?thesis by (auto simp: NetworkStack_new_def TunTap_new_def)
qed

text \<open>A host on which every command succeeds, and one on which every command fails.\<close>

definition obliging_host :: env where
  "obliging_host tr c =
     (case c of RunCmd _ _ \<Rightarrow> ExitStatus True | ApiPut _ _ \<Rightarrow> HttpStatus 204
      | NewUuid \<Rightarrow> Text (''vm'' @ dec_string (length tr)) | RandomU32 \<Rightarrow> Num 7
      | EnvVarSet _ \<Rightarrow> Flag False | PathExists _ \<Rightarrow> Flag True | _ \<Rightarrow> Done)"

lemma deletes_succeed_obliging: "deletes_succeed obliging_host"
  by (simp add: deletes_succeed_def obliging_host_def)

section \<open>Properties\<close>

text \<open>
  C22. A new stack number \<open>k\<close> below 16384 gets the \<open>k\<close>-th \<open>/30\<close> block of 172.16.0.0/16:
  its gateway is host 1 and its guest host 2 of the block, its device is \<open>tap<k>\<close>, no
  arithmetic overflows, and the counter advances by one. Stacks of different numbers
  therefore lie in different subnets.
\<close>

theorem next_slot_subnet:
  assumes "recovered_slots nm = []" and "unat (next_id nm) < 16384"
  shows "\<exists>slot. next_slot prof nm = (Ok slot, nm\<lparr>next_id := next_id nm + 1\<rparr>) \<and>
    ipv4_nat (slot_gateway slot) = ipv4_nat (Ipv4Addr 172 16 0 0) + (4 * unat (next_id nm) + 1) \<and>
    ipv4_nat (slot_ipv4_addr slot) = ipv4_nat (Ipv4Addr 172 16 0 0) + (4 * unat (next_id nm) + 2) \<and>
    slot_tap_dev_name slot = ''tap'' @ dec_string (unat (next_id nm)) \<and>
    unat (next_id nm + 1) = unat (next_id nm) + 1"
proof -
  have k: "unat (next_id nm) < slot_limit" using assms(2) by (simp add: slot_limit_def)
  have "unat (next_id nm + 1) = unat (next_id nm) + 1"
    using assms(2) by (intro unat_succ_u16) simp
  with next_slot_fresh_ok [OF assms(1) k] slot_of_id_nat [OF k] show ?thesis
    unfolding slot_net_def by (simp add: slot_of_id_def)
qed

theorem next_slot_subnet_witness:
  "\<exists>slot. next_slot Debug \<lparr>recovered_slots = [], next_id = 64, global_rules = IpRuleBook_new\<rparr> =
      (Ok slot, \<lparr>recovered_slots = [], next_id = 65, global_rules = IpRuleBook_new\<rparr>) \<and>
    ipv4_nat (slot_gateway slot) = ipv4_nat (Ipv4Addr 172 16 1 1) \<and>
    ipv4_nat (slot_ipv4_addr slot) = ipv4_nat (Ipv4Addr 172 16 1 2)"
  using next_slot_subnet [of "\<lparr>recovered_slots = [], next_id = 64, global_rules = IpRuleBook_new\<rparr>" Debug]
  by auto

text \<open>
  C23. From stack number 16384 on, with no slot to reuse, \<open>id * 4 + 1\<close> no longer fits in 16
  bits. A build with overflow checks panics; a release build silently hands out the guest
  and gateway addresses of stack \<open>id mod 16384\<close> again, under another device name, so two
  machines can hold the same address.
\<close>

theorem slot_ids_exhausted:
  assumes "recovered_slots nm = []" and "16384 \<le> unat (next_id nm)"
  shows "fst (next_slot Debug nm) = Panic \<and>
    (\<exists>slot. fst (next_slot Release nm) = Ok slot \<and>
       slot_ipv4_addr slot = slot_ipv4_addr (slot_of_id (unat (next_id nm) mod 16384)) \<and>
       slot_gateway slot = slot_gateway (slot_of_id (unat (next_id nm) mod 16384)) \<and>
       slot_tap_dev_name slot \<noteq> slot_tap_dev_name (slot_of_id (unat (next_id nm) mod 16384)))"
proof -
  have "fst (next_slot Debug nm) = Panic"
    using assms by (intro next_slot_exhausted(1)) (simp_all add: slot_limit_def)
  moreover have "unat (next_id nm) mod 16384 \<noteq> unat (next_id nm)"
    using assms(2) mod_less_divisor [of 16384 "unat (next_id nm)"] by linarith
  then have "''tap'' @ dec_string (unat (next_id nm)) \<noteq> ''tap'' @ dec_string (unat (next_id nm) mod 16384)"
    by (auto dest: dec_string_inj)
  ultimately show ?thesis
    using next_slot_fresh [of nm Release] assms(1)
    by (simp add: slot_limit_def) (simp add: slot_of_id_def)
qed

theorem slot_ids_exhausted_witness:
  "fst (next_slot Debug \<lparr>recovered_slots = [], next_id = 16384, global_rules = IpRuleBook_new\<rparr>) = Panic \<and>
   (\<exists>slot. fst (next_slot Release \<lparr>recovered_slots = [], next_id = 16384, global_rules = IpRuleBook_new\<rparr>) = Ok slot \<and>
      slot_ipv4_addr slot = slot_ipv4_addr (slot_of_id 0) \<and>
      slot_tap_dev_name slot \<noteq> slot_tap_dev_name (slot_of_id 0))"
  using slot_ids_exhausted [of "\<lparr>recovered_slots = [], next_id = 16384, global_rules = IpRuleBook_new\<rparr>"]
  by auto

text \<open>
  C24. A stack's whole life leaves the host as it found it: provision a stack, set up NAT,
  publish any list of ports, reclaim it. Whichever of the iptables commands fail on the
  way, in the end exactly the rules and tap devices of the beginning are installed, and
  the stack's slot is back in the pool.
\<close>

theorem stack_life_restores_host:
  assumes "deletes_succeed env"
    and "provision_stack env prof (nm, tr) = (Ok st, (nm1, tr1))"
    and "fold (\<lambda>(host_port, guest_port) s. snd (setup_forwarding env inb host_port guest_port s)) ports
           (snd (setup_public_nat env out (st, tr1))) = (st2, tr2)"
    and "reclaim env st2 (nm1, tr2) = (nm3, tr3)"
  shows "installed tr3 = installed tr \<and> taps tr3 = taps tr \<and>
    free_slots nm3 = add_mset (stack_slot st) (free_slots nm1)"
proof -
  obtain slot where new: "NetworkStack_new env slot tr = (Ok st, tr1)"
    using assms(2) by (auto simp: provision_stack_def split: prod.splits res.splits)
  note N = NetworkStack_new_Ok [OF new]
  have "stack_step (st, tr1) (st2, tr2)"
    using stack_step_trans [OF setup_public_nat_step setup_forwardings_step] assms(3) by metis
  then have i2: "installed tr2 = installed tr + stack_rules st2"
    and t2: "taps tr2 = add_mset (stack_tap st2) (taps tr)"
    and sl: "stack_slot st2 = stack_slot st" and ok: "book_ok (ip_rule_book st2)"
    using N by (auto simp: stack_step_def IpRuleBook_new_def book_rules_def book_ok_def stack_slot_def)
  have "nm3 = put_slot (stack_slot st2) nm1" and "tr3 = NetworkStack_drop env st2 tr2"
    using assms(4) by (simp_all add: reclaim_eq)
  with NetworkStack_drop_tables [OF assms(1) ok, of tr2] i2 t2 sl show ?thesis
    by (simp add: put_slot_def)
qed

lemma cmd_obliging: "cmd obliging_host p args tr = (Ok (), tr @ [(RunCmd p args, ExitStatus True)])"
  by (simp add: cmd_def perform_def obliging_host_def)

lemma NetworkStack_new_obliging:
  "\<exists>st tr'. NetworkStack_new obliging_host slot tr = (Ok st, tr')"
  by (simp add: NetworkStack_new_def TunTap_new_def TunTap_add_address_def TunTap_up_def cmd_obliging)

definition new_manager :: NetworkManager where
  "new_manager = \<lparr>recovered_slots = [], next_id = 0, global_rules = IpRuleBook_new\<rparr>"

lemma provision_stack_obliging:
  "\<exists>st tr'. provision_stack obliging_host prof (new_manager, tr) =
     (Ok st, (new_manager\<lparr>next_id := 1\<rparr>, tr'))"
  using NetworkStack_new_obliging [of "slot_of_id 0" tr] next_slot_fresh_ok [of new_manager prof]
  by (auto simp: provision_stack_def new_manager_def slot_limit_def)

theorem stack_life_restores_host_witness:
  "\<exists>st nm1 tr1 st2 tr2 nm3 tr3.
     provision_stack obliging_host Debug (new_manager, []) = (Ok st, (nm1, tr1)) \<and>
     fold (\<lambda>(host_port, guest_port) s. snd (setup_forwarding obliging_host ''eno1'' host_port guest_port s))
       [(8080, 80)] (snd (setup_public_nat obliging_host ''eno1'' (st, tr1))) = (st2, tr2) \<and>
     reclaim obliging_host st2 (nm1, tr2) = (nm3, tr3) \<and>
     installed tr3 = {#} \<and> taps tr3 = {#} \<and> free_slots nm3 = {#stack_slot st#}"
proof -
  obtain st tr1 where p: "provision_stack obliging_host Debug (new_manager, []) =
      (Ok st, (new_manager\<lparr>next_id := 1\<rparr>, tr1))"
    using provision_stack_obliging by blast
  obtain st2 tr2 where f:
    "fold (\<lambda>(host_port, guest_port) s. snd (setup_forwarding obliging_host ''eno1'' host_port guest_port s))
       [(8080, 80)] (snd (setup_public_nat obliging_host ''eno1'' (st, tr1))) = (st2, tr2)"
    by (metis surj_pair)
  obtain nm3 tr3 where r: "reclaim obliging_host st2 (new_manager\<lparr>next_id := 1\<rparr>, tr2) = (nm3, tr3)"
    by (metis surj_pair)
  from stack_life_restores_host [OF deletes_succeed_obliging p f r] p f r show ?thesis
    by (auto simp: new_manager_def)
qed

text \<open>
  C25. A stack that fails to come up leaves no rule and no device behind, but its slot is not
  returned: the allocator has one free slot less, or has advanced its counter, and nothing
  in the code ever puts that slot back.
\<close>

theorem failed_stack_loses_slot:
  assumes "deletes_succeed env" and "next_slot prof nm = (Ok slot, nm1)"
    and "provision_stack env prof (nm, tr) = (Err e, (nm', tr'))"
  shows "installed tr' = installed tr \<and> taps tr' = taps tr \<and> nm' = nm1 \<and>
    (free_slots nm = add_mset slot (free_slots nm') \<or>
     free_slots nm' = free_slots nm \<and> next_id nm' = next_id nm + 1)"
proof -
  have new: "NetworkStack_new env slot tr = (Err e, tr')" and nm': "nm' = nm1"
    using assms(2,3) by (auto simp: provision_stack_def split: prod.splits)
  have "free_slots nm = add_mset slot (free_slots nm1) \<or>
      free_slots nm1 = free_slots nm \<and> next_id nm1 = next_id nm + 1"
  proof (cases "recovered_slots nm" rule: rev_cases)
    case Nil
    then have "prof = Debug \<Longrightarrow> unat (next_id nm) < slot_limit"
      using assms(2) next_slot_exhausted(1) [of nm] by (cases "unat (next_id nm) < slot_limit") auto
    with assms(2) next_slot_fresh [OF Nil, of prof] show ?thesis by auto
  next
    case (snoc rest s)
    with assms(2) show ?thesis by (auto simp: next_slot_recovered)
  qed
  with NetworkStack_new_not_Ok [OF assms(1) new] nm' show ?thesis by simp
qed

text \<open>A host on which \<open>ip link set up\<close> fails and everything else succeeds.\<close>

definition no_link_up :: env where
  "no_link_up tr c =
     (case c of RunCmd p args \<Rightarrow> ExitStatus (\<not> (p = ''ip'' \<and> take 2 args = [''link'', ''set'']))
      | _ \<Rightarrow> Done)"

theorem failed_stack_loses_slot_witness:
  "\<exists>nm' tr' e. provision_stack no_link_up Debug (new_manager, []) = (Err e, (nm', tr')) \<and>
     installed tr' = {#} \<and> taps tr' = {#} \<and> free_slots nm' = {#} \<and> next_id nm' = 1"
proof -
  have d: "deletes_succeed no_link_up"
    by (simp add: deletes_succeed_def no_link_up_def)
  have n: "next_slot Debug new_manager = (Ok (slot_of_id 0), new_manager\<lparr>next_id := 1\<rparr>)"
    using next_slot_fresh_ok [of new_manager Debug] by (simp add: new_manager_def slot_limit_def)
  obtain e tr' where p: "provision_stack no_link_up Debug (new_manager, []) =
      (Err e, (new_manager\<lparr>next_id := 1\<rparr>, tr'))"
    by (simp add: provision_stack_def n NetworkStack_new_def TunTap_new_def TunTap_add_address_def
        TunTap_up_def cmd_def perform_def no_link_up_def)
  from failed_stack_loses_slot [OF d n p] p show ?thesis by (auto simp: new_manager_def)
qed

end
