(* ===== verification/Paths.thy ===== *)
theory Paths
  imports Prelude
begin

text \<open>
  Paths are strings, with \<open>Path::join\<close>, \<open>file_name\<close> and \<open>parent\<close> of the standard library.
\<close>

text \<open>\<open>str::split\<close> on a character, and the components of a path that name something.\<close>

fun split_on :: "char \<Rightarrow> string \<Rightarrow> string list" where
  "split_on c [] = [[]]"
| "split_on c (x # xs) =
     (if x = c then [] # split_on c xs
      else (case split_on c xs of [] \<Rightarrow> [[x]] | y # ys \<Rightarrow> (x # y) # ys))"

definition path_components :: "string \<Rightarrow> string list" where
  "path_components p = filter (\<lambda>c. c \<noteq> [] \<and> c \<noteq> ''.'') (split_on (CHR ''/'') p)"

definition path_file_name :: "string \<Rightarrow> string option" where
  "path_file_name p =
     (case rev (path_components p) of
        [] \<Rightarrow> None
      | c # _ \<Rightarrow> if c = ''..'' then None else Some c)"

definition path_join :: "string \<Rightarrow> string \<Rightarrow> string" where
  "path_join p q =
     (if take 1 q = ''/'' then q
      else if p = [] \<or> last p = CHR ''/'' then p @ q
      else p @ ''/'' @ q)"

text \<open>The parent of a path that does not end in a separator.\<close>

definition path_parent :: "string \<Rightarrow> string option" where
  "path_parent p =
     (if path_components p = [] then None
      else (case dropWhile (\<lambda>c. c \<noteq> CHR ''/'') (rev p) of
              [] \<Rightarrow> Some []
            | [_] \<Rightarrow> Some ''/''
            | _ # r \<Rightarrow> Some (rev r)))"

lemma split_on_ne [simp]: "split_on c xs \<noteq> []"
  by (induction xs) (auto split: list.split)

lemma split_on_append: "split_on c (p @ c # q) = split_on c p @ split_on c q"
  by (induction p) (auto split: list.split)

lemma split_on_none: "c \<notin> set q \<Longrightarrow> split_on c q = [q]"
  by (induction q) auto

text \<open>Splitting undoes joining with a separator that does not occur in the parts.\<close>

lemma split_on_join:
  "xs \<noteq> [] \<Longrightarrow> list_all (\<lambda>x. c \<notin> set x) xs \<Longrightarrow> split_on c (join_strings [c] xs) = xs"
  by (induction "[c]" xs rule: join_strings.induct) (simp_all add: split_on_append split_on_none)

lemma path_components_child:
  "CHR ''/'' \<notin> set q \<Longrightarrow> q \<noteq> [] \<Longrightarrow> q \<noteq> ''.'' \<Longrightarrow> q \<in> set (path_components (p @ ''/'' @ q))"
  by (simp add: path_components_def split_on_append split_on_none)

lemma path_components_root: "''root'' \<in> set (path_components (path_join p ''root''))"
proof -
  consider "p = []" | "p \<noteq> []" "last p = CHR ''/''" | "p \<noteq> []" "last p \<noteq> CHR ''/''" by blast
  then show ?thesis
  proof cases
    case 2
    then have "path_join p ''root'' = butlast p @ ''/'' @ ''root''"
      by (simp add: path_join_def) (metis append.assoc append_Cons append_Nil append_butlast_last_id)
    then show ?thesis using path_components_child [of "''root''" "butlast p"] by simp
  next
    case 3
    then show ?thesis using path_components_child [of "''root''" p] by (simp add: path_join_def)
  qed (simp add: path_join_def path_components_def)
qed

lemma path_parent_Some: "path_components p \<noteq> [] \<Longrightarrow> path_parent p \<noteq> None"
  by (simp add: path_parent_def split: list.split)

text \<open>The parent of a child is the directory it was joined to.\<close>

lemma path_parent_child:
  assumes "CHR ''/'' \<notin> set q" and "q \<noteq> []" and "q \<noteq> ''.''" and "p \<noteq> []"
  shows "path_parent (p @ ''/'' @ q) = Some p"
proof -
  have "path_components (p @ ''/'' @ q) \<noteq> []"
    using path_components_child [OF assms(1-3)] by (metis empty_iff list.set(1))
  moreover have "dropWhile (\<lambda>c. c \<noteq> CHR ''/'') (rev (p @ ''/'' @ q)) = CHR ''/'' # rev p"
    using assms(1) by (simp add: dropWhile_append)
  ultimately show ?thesis
    using assms(4) by (simp add: path_parent_def split: list.split)
qed

end
