(* ===== verification/Firecracker.thy ===== *)
theory Firecracker
  imports Networking Paths
begin

text \<open>
  \<open>nodemanager/src/machine/firecracker.rs\<close>: starting a jailed Firecracker process and driving
  it over its API socket. The request bodies are in \<open>Host_Calls\<close>.
\<close>

section \<open>The jailed process\<close>

record JailedCracker =
  vm_uuid :: string
  root_path :: string
  jail_uid :: u32

text \<open>The loop that waits for the API socket: at most \<open>n\<close> polls, 50 microseconds apart.\<close>

fun wait_for_socket :: "env \<Rightarrow> string \<Rightarrow> nat \<Rightarrow> event list \<Rightarrow> event list" where
  "wait_for_socket env socket_path 0 tr = tr"
| "wait_for_socket env socket_path (Suc n) tr =
     (case perform env (PathExists socket_path) tr of
        (Flag True, tr') \<Rightarrow> tr'
      | (_, tr') \<Rightarrow> wait_for_socket env socket_path n (snd (perform env (SleepMicros 50) tr')))"

definition jailer_args :: "string \<Rightarrow> string \<Rightarrow> u32 \<Rightarrow> string option \<Rightarrow> string list" where
  "jailer_args uuid firecracker_bin uid mmds_json =
     [''--id'', uuid, ''--exec-file'', firecracker_bin, ''--uid'', dec_string (unat uid),
      ''--gid'', dec_string (unat uid), ''--'', ''--level'', ''error''] @
     (case mmds_json of Some _ \<Rightarrow> [''--metadata'', ''metadata.json''] | None \<Rightarrow> [])"

definition jail_root :: "string \<Rightarrow> string \<Rightarrow> string" where
  "jail_root fc_bin uuid = path_join (path_join (path_join ''/srv/jailer/'' fc_bin) uuid) ''root''"

definition api_socket :: "string \<Rightarrow> string" where
  "api_socket root = path_join (path_join root ''run'') ''firecracker.socket''"

definition JailedCracker_spawn ::
  "env \<Rightarrow> string \<Rightarrow> string \<Rightarrow> u16 \<Rightarrow> string option \<Rightarrow> bool \<Rightarrow> event list
     \<Rightarrow> (error, JailedCracker) res \<times> event list" where
  "JailedCracker_spawn env jailer_bin firecracker_bin uid_offset mmds_json null_pipe_stdio tr =
     (case perform env NewUuid tr of
        (r, tr) \<Rightarrow>
          (let uuid = (case r of Text s \<Rightarrow> s | _ \<Rightarrow> []);
               uid = 10000 + ucast uid_offset :: u32
           in case path_file_name firecracker_bin of
                None \<Rightarrow> (Err (Message ''Unable to get firecracker binary name''), tr)
              | Some fc_bin \<Rightarrow>
                  (let root = jail_root fc_bin uuid in
                   then_try (io env (CreateDirAll root) tr) (\<lambda>_ tr.
                   then_try
                     (case mmds_json of
                        Some json \<Rightarrow> io env (WriteFile (path_join root ''metadata.json'') json) tr
                      | None \<Rightarrow> (Ok (), tr)) (\<lambda>_ tr.
                   then_try
                     (io env (SpawnJailer jailer_bin (jailer_args uuid firecracker_bin uid mmds_json)
                        null_pipe_stdio) tr) (\<lambda>_ tr.
                   then_try (io env (ApiConnect (api_socket root))
                        (wait_for_socket env (api_socket root) 20 tr)) (\<lambda>_ tr.
                     (Ok \<lparr>vm_uuid = uuid, root_path = root, jail_uid = uid\<rparr>, tr))))))))"

definition request_with_json ::
  "env \<Rightarrow> string \<Rightarrow> api_body \<Rightarrow> event list \<Rightarrow> (error, unit) res \<times> event list" where
  "request_with_json env route body tr =
     (case perform env (ApiPut route body) tr of
        (NotSerialized, tr') \<Rightarrow> (Err (ApiNotSerialized route), tr')
      | (HttpStatus status_code, tr') \<Rightarrow>
          (if 200 \<le> status_code \<and> status_code < 300 then (Ok (), tr')
           else (Err (ApiStatus route status_code), tr'))
      | (_, tr') \<Rightarrow> (Err (ApiTransport route), tr'))"

definition request_stop :: "env \<Rightarrow> JailedCracker \<Rightarrow> event list \<Rightarrow> (error, unit) res \<times> event list" where
  "request_stop env vm tr = request_with_json env ''/actions'' (ActionBody SendCtrlAltDel) tr"

definition kill_vm :: "env \<Rightarrow> JailedCracker \<Rightarrow> event list \<Rightarrow> (error, unit) res \<times> event list" where
  "kill_vm env vm tr = io env (KillProc (vm_uuid vm)) tr"

definition cleanup :: "env \<Rightarrow> JailedCracker \<Rightarrow> event list \<Rightarrow> (error, unit) res \<times> event list" where
  "cleanup env vm tr =
     (let tr = snd (kill_vm env vm tr) in
      case path_parent (root_path vm) of
        None \<Rightarrow> (Panic, tr)
      | Some dir \<Rightarrow> io env (RemoveDirAll dir) tr)"

definition set_rootfs :: "env \<Rightarrow> JailedCracker \<Rightarrow> string \<Rightarrow> event list \<Rightarrow> (error, unit) res \<times> event list" where
  "set_rootfs env vm path tr =
     (let dest = path_join (root_path vm) ''root.fs'' in
      then_try (io env (CopyFile path dest) tr) (\<lambda>_ tr.
      then_try (io env (ChownFile dest (jail_uid vm)) tr) (\<lambda>_ tr.
        request_with_json env ''/drives/rootfs''
          (DriveBody \<lparr>drive_id = ''rootfs'', is_read_only = True, is_root_device = True,
                      path_on_host = ''/root.fs''\<rparr>) tr)))"

definition create_drive ::
  "env \<Rightarrow> profile \<Rightarrow> JailedCracker \<Rightarrow> u64 \<Rightarrow> string \<Rightarrow> event list \<Rightarrow> (error, unit) res \<times> event list" where
  "create_drive env prof vm size_gb drive tr =
     (let fp = path_join (root_path vm) (drive @ ''.fs'') in
      then_try (io env (CreateFile fp) tr) (\<lambda>_ tr.
      then_try (mul_ovf prof size_gb 1024, tr) (\<lambda>kb tr.
      then_try (mul_ovf prof kb 1024, tr) (\<lambda>mb tr.
      then_try (mul_ovf prof mb 1024, tr) (\<lambda>len tr.
      then_try (io env (SetLen fp len) tr) (\<lambda>_ tr.
      then_try (io env (ChownFile fp (jail_uid vm)) tr) (\<lambda>_ tr.
        request_with_json env (''/drives/'' @ drive)
          (DriveBody \<lparr>drive_id = drive, is_read_only = False, is_root_device = False,
                      path_on_host = ''/'' @ drive @ ''.fs''\<rparr>) tr)))))))"

definition add_network_interface ::
  "env \<Rightarrow> JailedCracker \<Rightarrow> string \<Rightarrow> string \<Rightarrow> event list \<Rightarrow> (error, unit) res \<times> event list" where
  "add_network_interface env vm guest_name dev tr =
     request_with_json env (''/network-interfaces/'' @ guest_name)
       (NetworkInterfaceBody \<lparr>host_dev_name = dev, iface_id = guest_name\<rparr>) tr"

definition config_mmds :: "env \<Rightarrow> JailedCracker \<Rightarrow> string \<Rightarrow> event list \<Rightarrow> (error, unit) res \<times> event list" where
  "config_mmds env vm guest_name tr =
     request_with_json env ''/mmds/config''
       (MmdsConfigBody \<lparr>mmds_ipv4_address = ''169.254.169.254'', network_interfaces = [guest_name],
                        mmds_version = V2\<rparr>) tr"

definition set_eth_tap :: "env \<Rightarrow> JailedCracker \<Rightarrow> TunTap \<Rightarrow> event list \<Rightarrow> (error, unit) res \<times> event list" where
  "set_eth_tap env vm tap tr =
     then_try (add_network_interface env vm ''eth0'' (tap_name tap) tr) (\<lambda>_ tr.
     then_try (config_mmds env vm ''eth0'' tr) (\<lambda>_ tr. (Ok (), tr)))"

definition add_host_vsock ::
  "env \<Rightarrow> JailedCracker \<Rightarrow> u32 \<Rightarrow> event list \<Rightarrow> (error, string) res \<times> event list" where
  "add_host_vsock env vm cid tr =
     then_try (request_with_json env ''/vsock''
         (VsockBody \<lparr>guest_cid = cid, uds_path = ''/run/v.sock''\<rparr>) tr)
       (\<lambda>_ tr. (Ok (path_join (root_path vm) ''run/v.sock''), tr))"

text \<open>The listener is represented by the path it is bound to.\<close>

definition open_vsock_listener ::
  "env \<Rightarrow> JailedCracker \<Rightarrow> u32 \<Rightarrow> event list \<Rightarrow> (error, string) res \<times> event list" where
  "open_vsock_listener env vm port tr =
     then_try (add_host_vsock env vm (- 1) tr) (\<lambda>_ tr.
       (let vsock_path = path_join (root_path vm) (''run/v.sock_'' @ dec_string (unat port)) in
        then_try (io env (BindUnixListener vsock_path) tr) (\<lambda>_ tr.
        then_try (io env (ChownFile vsock_path (jail_uid vm)) tr) (\<lambda>_ tr.
          (Ok vsock_path, tr)))))"

definition set_boot ::
  "env \<Rightarrow> JailedCracker \<Rightarrow> string \<Rightarrow> string \<Rightarrow> event list \<Rightarrow> (error, unit) res \<times> event list" where
  "set_boot env vm kernel_img args tr =
     (let dest = path_join (root_path vm) ''kernel.img'' in
      then_try (io env (CopyFile kernel_img dest) tr) (\<lambda>_ tr.
      then_try (io env (ChownFile dest (jail_uid vm)) tr) (\<lambda>_ tr.
        request_with_json env ''/boot-source''
          (BootSourceBody \<lparr>kernel_image_path = ''/kernel.img'', boot_args = args\<rparr>) tr)))"

definition set_machine_config ::
  "env \<Rightarrow> JailedCracker \<Rightarrow> u8 \<Rightarrow> u32 \<Rightarrow> event list \<Rightarrow> (error, unit) res \<times> event list" where
  "set_machine_config env vm vcpus mem_size_mb tr =
     request_with_json env ''/machine-config''
       (MachineConfigBody \<lparr>mem_size_mib = ucast mem_size_mb, fc_vcpu_count = vcpus\<rparr>) tr"

definition start_vm :: "env \<Rightarrow> JailedCracker \<Rightarrow> event list \<Rightarrow> (error, unit) res \<times> event list" where
  "start_vm env vm tr = request_with_json env ''/actions'' (ActionBody InstanceStart) tr"

section \<open>What the driver calls\<close>

lemma snd_request_with_json [simp]:
  "snd (request_with_json env route body tr) = tr @ [(ApiPut route body, env tr (ApiPut route body))]"
  by (simp add: request_with_json_def perform_def split: reply.split)

lemma wait_for_socket_calls:
  assumes "\<And>q. P (PathExists q)" and "\<And>n. P (SleepMicros n)"
  shows "extends_by P tr (wait_for_socket env p n tr)"
proof (induction n arbitrary: tr)
  case (Suc n)
  let ?tr = "tr @ [(PathExists p, env tr (PathExists p))]"
  let ?tr2 = "?tr @ [(SleepMicros 50, env ?tr (SleepMicros 50))]"
  have 1: "extends_by P tr ?tr" and 2: "extends_by P ?tr ?tr2" by (rule extends_by_snoc; simp add: assms)+
  from extends_by_trans [OF extends_by_trans [OF 1 2] Suc.IH] 1
  show ?case
  proof (cases "env tr (PathExists p)")
    case (Flag b)
    with extends_by_trans [OF extends_by_trans [OF 1 2] Suc.IH] 1 show ?thesis
      by (cases b) (simp_all add: perform_def)
  qed (simp_all add: perform_def)
qed simp

lemma wait_for_socket_boot [intro]: "extends_by boot_call tr (wait_for_socket env p n tr)"
  by (rule wait_for_socket_calls) (simp_all add: boot_call_def)

lemma request_boot [intro]: "extends_by boot_call tr (snd (request_with_json env route body tr))"
  by (auto simp: boot_call_def)

lemma spawn_boot [intro]:
  "extends_by boot_call tr (snd (JailedCracker_spawn env jb fb off json np tr))"
proof -
  let ?tr = "tr @ [(NewUuid, env tr NewUuid)]"
  have 1: "extends_by boot_call tr ?tr" by (rule extends_by_snoc) (simp add: boot_call_def)
  have io_after: "extends_by boot_call tr' (snd (io env (ApiConnect s) (wait_for_socket env s n tr')))" for s n tr'
    by (rule extends_by_trans [OF wait_for_socket_boot extends_by_io]) (simp add: boot_call_def)
  have opt: "extends_by boot_call tr' (snd (case json of Some j \<Rightarrow> io env (WriteFile p j) tr' | None \<Rightarrow> (Ok (), tr')))"
    for p tr'
    by (cases json) (auto simp: boot_call_def)
  show ?thesis
    unfolding JailedCracker_spawn_def perform_def Let_def prod.case
    by (rule extends_by_trans [OF 1], cases "path_file_name fb")
      (simp, simp only: option.case,
        (intro extends_by_then_try extends_by_io io_after opt; simp add: boot_call_def))
qed

text \<open>Once the jailer runs, the driver only prepares files in the jail and talks to the API.\<close>

fun driver_call :: "host_call \<Rightarrow> bool" where
  "driver_call (ApiPut _ _) = True"
| "driver_call (CopyFile _ _) = True"
| "driver_call (ChownFile _ _) = True"
| "driver_call (CreateFile _) = True"
| "driver_call (SetLen _ _) = True"
| "driver_call (BindUnixListener _) = True"
| "driver_call _ = False"

lemma request_calls: "extends_by driver_call tr (snd (request_with_json env route body tr))"
  by auto

lemma driver_calls:
  "extends_by driver_call tr (snd (set_rootfs env vm p tr))"
  "extends_by driver_call tr (snd (create_drive env prof vm gb d tr))"
  "extends_by driver_call tr (snd (set_eth_tap env vm tap tr))"
  "extends_by driver_call tr (snd (open_vsock_listener env vm port tr))"
  "extends_by driver_call tr (snd (set_boot env vm k args tr))"
  "extends_by driver_call tr (snd (set_machine_config env vm vc mem tr))"
  "extends_by driver_call tr (snd (start_vm env vm tr))"
  unfolding set_rootfs_def create_drive_def set_eth_tap_def add_network_interface_def config_mmds_def
    open_vsock_listener_def add_host_vsock_def set_boot_def set_machine_config_def start_vm_def Let_def
  by (intro extends_by_then_try extends_by_io request_calls; auto)+

lemma driver_call_boot: "extends_by driver_call tr tr' \<Longrightarrow> extends_by boot_call tr tr'"
proof (erule extends_by_mono)
  show "driver_call c \<Longrightarrow> boot_call c" for c by (cases c) (simp_all add: boot_call_def)
qed

lemmas driver_boot [intro] = driver_calls [THEN driver_call_boot]

lemma cleanup_quiet [intro]: "extends_quietly tr (snd (cleanup env vm tr))"
proof -
  let ?tr = "tr @ [(KillProc (vm_uuid vm), env tr (KillProc (vm_uuid vm)))]"
  have 1: "extends_quietly tr ?tr" by (rule extends_by_snoc) simp
  show ?thesis
    unfolding cleanup_def kill_vm_def Let_def
    using 1 extends_by_trans [OF 1 extends_by_io] by (auto split: option.split)
qed

section \<open>Jail directories\<close>

text \<open>\<open>cleanup\<close> unwraps the parent of the jail's root, so it must exist.\<close>

definition vm_ok :: "JailedCracker \<Rightarrow> bool" where
  "vm_ok vm \<longleftrightarrow> path_parent (root_path vm) \<noteq> None"

lemma vm_ok_jail_root:
  assumes "root_path vm = jail_root fc uuid"
  shows "vm_ok vm"
proof -
  have "path_components (jail_root fc uuid) \<noteq> []"
    unfolding jail_root_def using path_components_root by (metis empty_iff list.set(1))
  then show ?thesis unfolding vm_ok_def assms by (rule path_parent_Some)
qed

lemma io_Ok [res_simps]: "io env c tr = (Ok u, tr') \<longleftrightarrow> env tr c = Done \<and> tr' = tr @ [(c, Done)]"
  by (auto simp: io_def perform_def split: reply.splits)

lemma spawn_Ok:
  assumes "JailedCracker_spawn env jb fb off json np tr = (Ok vm, tr')"
  obtains fc where "path_file_name fb = Some fc" and "root_path vm = jail_root fc (vm_uuid vm)"
    and "vm_ok vm"
proof -
  have "\<exists>fc. path_file_name fb = Some fc \<and> root_path vm = jail_root fc (vm_uuid vm)"
    using assms
    by (auto simp: JailedCracker_spawn_def Let_def perform_def res_simps split: option.splits)
  then show thesis using that vm_ok_jail_root by blast
qed

lemma cleanup_not_Panic: "vm_ok vm \<Longrightarrow> fst (cleanup env vm tr) \<noteq> Panic"
  by (auto simp: cleanup_def vm_ok_def Let_def)

lemma jail_dir:
  assumes "uuid \<noteq> []" and "CHR ''/'' \<notin> set uuid"
  shows "path_parent (jail_root fc uuid) = Some (path_join (path_join ''/srv/jailer/'' fc) uuid)"
proof -
  let ?d = "path_join (path_join ''/srv/jailer/'' fc) uuid"
  have "take 1 uuid \<noteq> ''/''" using assms by (cases uuid) auto
  then have "?d \<noteq> []" and "last ?d = last uuid" using assms(1) by (auto simp: path_join_def)
  moreover have "last uuid \<noteq> CHR ''/''" using assms by (metis last_in_set)
  ultimately have "jail_root fc uuid = ?d @ ''/'' @ ''root''" by (simp add: jail_root_def path_join_def [of ?d])
  then show ?thesis using path_parent_child [of "''root''" ?d] \<open>?d \<noteq> []\<close> by simp
qed

section \<open>The requests a history contains\<close>

fun api_request :: "event \<Rightarrow> (string \<times> api_body) list" where
  "api_request (ApiPut route body, _) = [(route, body)]"
| "api_request _ = []"

definition api_requests :: "event list \<Rightarrow> (string \<times> api_body) list" where
  "api_requests tr = concat (map api_request tr)"

lemma api_requests_append [simp]: "api_requests (a @ b) = api_requests a @ api_requests b"
  by (simp add: api_requests_def)

lemma api_requests_simps [simp]:
  "api_requests [] = []" "api_requests (e # tr) = api_request e @ api_requests tr"
  by (simp_all add: api_requests_def)

lemma wait_for_socket_requests [simp]: "api_requests (wait_for_socket env p n tr) = api_requests tr"
proof (induction n arbitrary: tr)
  case (Suc n)
  then show ?case
  proof (cases "env tr (PathExists p)")
    case (Flag b)
    with Suc show ?thesis by (cases b) (simp_all add: perform_def)
  qed (simp_all add: perform_def)
qed simp

lemma spawn_requests:
  assumes "JailedCracker_spawn env jb fb off json np tr = (Ok vm, tr')"
  shows "api_requests tr' = api_requests tr"
  using assms
  by (auto simp: JailedCracker_spawn_def Let_def perform_def res_simps split: option.splits)

lemma request_Ok [res_simps]:
  "request_with_json env route body tr = (Ok u, tr') \<longleftrightarrow>
     (\<exists>n. env tr (ApiPut route body) = HttpStatus n \<and> 200 \<le> n \<and> n < 300 \<and>
        tr' = tr @ [(ApiPut route body, HttpStatus n)])"
  by (auto simp: request_with_json_def perform_def split: reply.splits if_splits)

end
