(* ===== verification/Packet_Channel.thy ===== *)
theory Packet_Channel
  imports Prelude
begin

text \<open>
  The contract of one direction of the vsock connection: a writer turns a packet into
  bytes, a reader takes the next packet off a byte stream. The locale shows once what both
  directions need: whatever was written comes out in order, and reading stops. Also here:
  the standard library's \<open>read_exact\<close> on a stream given by the bytes it will deliver
  before it ends, and the frame format both writers share.
\<close>

definition read_exact :: "nat \<Rightarrow> byte list \<Rightarrow> (byte list \<times> byte list) option" where
  "read_exact n inp = (if n \<le> length inp then Some (take n inp, drop n inp) else None)"

lemma read_exact_append [simp]: "read_exact n (xs @ ys) = Some (xs, ys)" if "length xs = n"
  using that by (simp add: read_exact_def)

lemma read_exact_length: "read_exact n inp = Some (a, rest) \<Longrightarrow> length inp = n + length rest \<and> length a = n"
  by (auto simp: read_exact_def split: if_splits)

definition length_prefixed :: "byte list \<Rightarrow> byte list" where
  "length_prefixed payload = u32_to_be_bytes (of_nat (length payload)) @ payload"

lemma length_length_prefixed [simp]: "length (length_prefixed d) = 4 + length d"
  by (simp add: length_prefixed_def)

text \<open>\<open>data.len() as u32\<close> loses nothing below \<open>2 ^ 32\<close> bytes.\<close>

lemma unat_length_u32: "n < 4294967296 \<Longrightarrow> unat (of_nat n :: u32) = n"
  by (simp add: unat_of_nat)

locale packet_channel =
  fixes put :: "'p \<Rightarrow> byte list"
    and get :: "byte list \<Rightarrow> ('p \<times> byte list) option"
    and sound :: "'p \<Rightarrow> bool"
  assumes get_put: "sound p \<Longrightarrow> get (put p @ rest) = Some (p, rest)"
    and get_shrinks: "get inp = Some (p, rest) \<Longrightarrow> length rest < length inp"
begin

function packets_of :: "byte list \<Rightarrow> 'p list" where
  "packets_of inp = (case get inp of None \<Rightarrow> [] | Some (p, rest) \<Rightarrow> p # packets_of rest)"
  by pat_completeness auto

termination packets_of
  by (relation "measure length") (auto dest: get_shrinks)

declare packets_of.simps [simp del]

lemma packets_of_put:
  "list_all sound ps \<Longrightarrow> packets_of (concat (map put ps) @ rest) = ps @ packets_of rest"
proof (induction ps)
  case (Cons p ps)
  then show ?case by (subst packets_of.simps) (simp add: get_put)
qed simp

lemma packets_of_stuck: "get inp = None \<Longrightarrow> packets_of inp = []"
  by (subst packets_of.simps) simp

lemma packets_of_step: "get inp = Some (p, rest) \<Longrightarrow> packets_of inp = p # packets_of rest"
  by (subst packets_of.simps) simp

end

end
