(* ===== verification/Vmproto.thy ===== *)
theory Vmproto
  imports Packet_Channel
begin

text \<open>
  \<open>vmproto\<close>: the packets between the guest's init program and the node manager. The bytes of
  a packet come from the \<open>bitcode\<close> package, which is a parameter (\<open>codec\<close>); what the
  code relies on is that a packet decodes to itself, stated per packet where it is used.
  Text is UTF-8, so a Rust \<open>String\<close> is a list of bytes, written as \<open>string\<close>.
\<close>

section \<open>Guest to host (vmproto/src/guest.rs)\<close>

datatype GuestExitCode = GracefulShutdown | FailedToPullContainerImage | ContainerExited i32

datatype InitVmState = Online | PullingContainerImage | ExecutingContainer

fun InitVmState_as_str :: "InitVmState \<Rightarrow> string" where
  "InitVmState_as_str Online = ''online''"
| "InitVmState_as_str PullingContainerImage = ''pulling_container_image''"
| "InitVmState_as_str ExecutingContainer = ''executing_container''"

datatype LogMessageType = System | Stdout | Stderr

fun LogMessageType_as_str :: "LogMessageType \<Rightarrow> string" where
  "LogMessageType_as_str System = ''system''"
| "LogMessageType_as_str Stdout = ''stdout''"
| "LogMessageType_as_str Stderr = ''stderr''"

record LogMessage =
  log_text :: string
  timestamp_ms :: u64
  message_type :: LogMessageType

text \<open>
  The clock is a parameter: milliseconds since the epoch, or \<open>None\<close> for a clock set before
  it, which \<open>unwrap_or_default\<close> reads as zero. The cast to 64 bits truncates.
\<close>

definition get_timestamp_ms :: "nat option \<Rightarrow> u64" where
  "get_timestamp_ms clock = of_nat (case clock of None \<Rightarrow> 0 | Some millis \<Rightarrow> millis)"

definition LogMessage_new :: "nat option \<Rightarrow> string \<Rightarrow> LogMessageType \<Rightarrow> LogMessage" where
  "LogMessage_new clock txt mtype =
     \<lparr>log_text = txt, timestamp_ms = get_timestamp_ms clock, message_type = mtype\<rparr>"

definition LogMessage_system :: "nat option \<Rightarrow> string \<Rightarrow> LogMessage" where
  "LogMessage_system clock txt = LogMessage_new clock txt System"

datatype GuestPacket =
    Log LogMessage
  | VmState "InitVmState \<times> u64"
  | Exited GuestExitCode

fun is_exited :: "GuestPacket \<Rightarrow> bool" where
  "is_exited (Exited _) = True"
| "is_exited _ = False"

section \<open>Host to guest (vmproto/src/host.rs)\<close>

datatype HostPacket = Shutdown

section \<open>Serialisation\<close>

record 'p codec =
  encode :: "'p \<Rightarrow> byte list"
  decode :: "byte list \<Rightarrow> 'p option"

definition serialize_guest_packet :: "GuestPacket codec \<Rightarrow> GuestPacket \<Rightarrow> byte list" where
  "serialize_guest_packet bitcode packet = encode bitcode packet"

definition deserialize_guest_packet :: "GuestPacket codec \<Rightarrow> byte list \<Rightarrow> GuestPacket option" where
  "deserialize_guest_packet bitcode data = decode bitcode data"

definition serialize_host_packet :: "HostPacket codec \<Rightarrow> HostPacket \<Rightarrow> byte list" where
  "serialize_host_packet bitcode packet = encode bitcode packet"

definition deserialize_host_packet :: "HostPacket codec \<Rightarrow> byte list \<Rightarrow> HostPacket option" where
  "deserialize_host_packet bitcode data = decode bitcode data"

definition MAX_PACKET_SIZE :: nat where
  "MAX_PACKET_SIZE = 1024 * 1024"

text \<open>
  A packet the host's reader accepts: it survives the codec, and its encoding is neither
  empty nor longer than the limit.
\<close>

definition guest_packet_sound :: "GuestPacket codec \<Rightarrow> GuestPacket \<Rightarrow> bool" where
  "guest_packet_sound bitcode p \<longleftrightarrow>
     decode bitcode (encode bitcode p) = Some p \<and>
     encode bitcode p \<noteq> [] \<and> length (encode bitcode p) \<le> MAX_PACKET_SIZE"

text \<open>
  A concrete codec, used where a statement about any codec is instantiated: the encoding of
  the \<open>i\<close>-th packet of a table is the single byte \<open>i\<close>.
\<close>

fun position :: "'a \<Rightarrow> 'a list \<Rightarrow> nat" where
  "position x [] = 0"
| "position x (y # ys) = (if x = y then 0 else Suc (position x ys))"

definition table_codec :: "'p list \<Rightarrow> 'p codec" where
  "table_codec table =
     \<lparr>encode = (\<lambda>p. [of_nat (position p table)]),
      decode = (\<lambda>bs. case bs of
                 [b] \<Rightarrow> if unat b < length table then Some (table ! unat b) else None
               | _ \<Rightarrow> None)\<rparr>"

end
