(* ===== verification/Machine_Vsock.thy ===== *)
theory Machine_Vsock
  imports Host_Calls Vmproto
begin

text \<open>
  \<open>nodemanager/src/machine/vsock.rs\<close>: the node manager's end of the connection to a machine.
  It keeps the last log lines in a ring buffer, fans new ones out to the subscribers of
  \<open>StreamLogs\<close>, remembers the machine's last reported state, and reads packets until the
  guest says it exited or the stream breaks.

  Two third-party packages appear as parameters, bundled in \<open>libs\<close>: the ring buffer of
  \<open>circular_buffer\<close> and the bounded channels of \<open>tokio::sync::mpsc\<close>, whose state is an
  abstract value \<open>'c\<close> that every send may change.
\<close>

section \<open>Data\<close>

definition MAX_LINES_IN_BUFFER :: nat where
  "MAX_LINES_IN_BUFFER = 256"

datatype MachineExit =
    ExitUnknown
  | ExitContainerExited i32
  | ExitGracefulShutdown
  | ExitFailedToPullContainerImage

datatype MachineLog = VmLog LogMessage | StateLog InitVmState u64

record ProtoLogMessage =
  log_type :: string
  proto_timestamp_ms :: i64
  proto_message :: "string option"
  proto_state :: "string option"

fun as_proto_log_message :: "MachineLog \<Rightarrow> ProtoLogMessage" where
  "as_proto_log_message (VmLog s) =
     \<lparr>log_type = LogMessageType_as_str (message_type s), proto_timestamp_ms = timestamp_ms s,
      proto_message = Some (log_text s), proto_state = None\<rparr>"
| "as_proto_log_message (StateLog s t) =
     \<lparr>log_type = ''state'', proto_timestamp_ms = t, proto_message = None,
      proto_state = Some (InitVmState_as_str s)\<rparr>"

fun MachineExit_from :: "GuestExitCode \<Rightarrow> MachineExit" where
  "MachineExit_from GracefulShutdown = ExitGracefulShutdown"
| "MachineExit_from FailedToPullContainerImage = ExitFailedToPullContainerImage"
| "MachineExit_from (ContainerExited code) = ExitContainerExited code"

record ('b, 'tx, 'rx, 'c) libs =
  ring_new :: 'b
  ring_push_front :: "MachineLog \<Rightarrow> 'b \<Rightarrow> 'b"
  ring_iter :: "'b \<Rightarrow> MachineLog list"
  mpsc_channel :: "nat \<Rightarrow> 'c \<Rightarrow> ('tx \<times> 'rx) \<times> 'c"
  mpsc_try_send :: "'tx \<Rightarrow> MachineLog \<Rightarrow> 'c \<Rightarrow> bool \<times> 'c"

text \<open>
  What \<open>circular_buffer\<close> documents: a new buffer is empty, \<open>iter\<close> goes from front to back,
  and \<open>push_front\<close> on a full buffer overwrites the element at the back.
\<close>

definition ring_ok :: "('b, 'tx, 'rx, 'c) libs \<Rightarrow> bool" where
  "ring_ok lib \<longleftrightarrow>
     ring_iter lib (ring_new lib) = [] \<and>
     (\<forall>b x. ring_iter lib (ring_push_front lib x b) = take MAX_LINES_IN_BUFFER (x # ring_iter lib b))"

record ('b, 'tx) MachineCommunicator =
  log_subscribers :: "'tx list"
  log_buffer :: 'b
  comm_state :: "(InitVmState \<times> u64) option"

section \<open>Operations\<close>

definition MachineCommunicator_new :: "('b, 'tx, 'rx, 'c) libs \<Rightarrow> ('b, 'tx) MachineCommunicator" where
  "MachineCommunicator_new lib =
     \<lparr>log_subscribers = [], log_buffer = ring_new lib, comm_state = None\<rparr>"

text \<open>The loop over \<open>iter().enumerate()\<close>: the indices of the subscribers whose send failed.\<close>

fun try_send_all ::
  "('b, 'tx, 'rx, 'c) libs \<Rightarrow> MachineLog \<Rightarrow> nat \<Rightarrow> 'tx list \<Rightarrow> 'c \<Rightarrow> nat list \<times> 'c" where
  "try_send_all lib data i [] ch = ([], ch)"
| "try_send_all lib data i (tx # txs) ch =
     (case mpsc_try_send lib tx data ch of
        (sent, ch1) \<Rightarrow>
          (case try_send_all lib data (Suc i) txs ch1 of
             (to_drop, ch2) \<Rightarrow> (if sent then to_drop else i # to_drop, ch2)))"

text \<open>\<open>Vec::retain\<close> with the closure that counts its calls.\<close>

fun retain_counting :: "nat list \<Rightarrow> nat \<Rightarrow> 'a list \<Rightarrow> 'a list" where
  "retain_counting to_drop i [] = []"
| "retain_counting to_drop i (x # xs) =
     (if i \<in> set to_drop then retain_counting to_drop (Suc i) xs
      else x # retain_counting to_drop (Suc i) xs)"

definition push_log ::
  "('b, 'tx, 'rx, 'c) libs \<Rightarrow> MachineLog \<Rightarrow> ('b, 'tx) MachineCommunicator \<times> 'c
     \<Rightarrow> ('b, 'tx) MachineCommunicator \<times> 'c" where
  "push_log lib data = (\<lambda>(h, ch).
     (let h = h\<lparr>log_buffer := ring_push_front lib data (log_buffer h)\<rparr> in
      if log_subscribers h = [] then (h, ch)
      else
        (case try_send_all lib data 0 (log_subscribers h) ch of
           (to_drop, ch') \<Rightarrow>
             (if to_drop \<noteq> []
              then (h\<lparr>log_subscribers := retain_counting to_drop 0 (log_subscribers h)\<rparr>, ch')
              else (h, ch')))))"

definition subscribe_log ::
  "('b, 'tx, 'rx, 'c) libs \<Rightarrow> ('b, 'tx) MachineCommunicator \<times> 'c
     \<Rightarrow> 'rx \<times> (('b, 'tx) MachineCommunicator \<times> 'c)" where
  "subscribe_log lib = (\<lambda>(h, ch).
     (case mpsc_channel lib 128 ch of
        ((tx, rx), ch') \<Rightarrow> (rx, (h\<lparr>log_subscribers := log_subscribers h @ [tx]\<rparr>, ch'))))"

definition is_state_log :: "InitVmState \<Rightarrow> u64 \<Rightarrow> MachineLog \<Rightarrow> bool" where
  "is_state_log s t log = (case log of StateLog s' t' \<Rightarrow> s' = s \<and> t' = t | _ \<Rightarrow> False)"

definition clone_buffer_with_state ::
  "('b, 'tx, 'rx, 'c) libs \<Rightarrow> ('b, 'tx) MachineCommunicator \<Rightarrow> MachineLog list" where
  "clone_buffer_with_state lib h =
     (let should_chain_last_state =
        (case comm_state h of
           Some (s, t) \<Rightarrow> find (is_state_log s t) (ring_iter lib (log_buffer h)) \<noteq> None
         | None \<Rightarrow> False)
      in rev (ring_iter lib (log_buffer h)) @
         (case comm_state h of
            Some (s, t) \<Rightarrow> if should_chain_last_state then [] else [StateLog s t]
          | None \<Rightarrow> []))"

definition drop_subscribers :: "('b, 'tx) MachineCommunicator \<Rightarrow> ('b, 'tx) MachineCommunicator" where
  "drop_subscribers h = h\<lparr>log_subscribers := []\<rparr>"

definition comm_write ::
  "env \<Rightarrow> HostPacket codec \<Rightarrow> HostPacket \<Rightarrow> event list \<Rightarrow> (error, unit) res \<times> event list" where
  "comm_write env bitcode packet tr =
     (let data = serialize_host_packet bitcode packet;
          len = u32_to_be_bytes (of_nat (length data))
      in then_try (io env (VsockWriteAll len) tr) (\<lambda>_ tr.
         then_try (io env (VsockWriteAll data) tr) (\<lambda>_ tr.
         then_try (io env VsockFlush tr) (\<lambda>_ tr. (Ok (), tr)))))"

definition send_shutdown ::
  "env \<Rightarrow> HostPacket codec \<Rightarrow> event list \<Rightarrow> (error, unit) res \<times> event list" where
  "send_shutdown env bitcode tr = comm_write env bitcode Shutdown tr"

text \<open>
  \<open>read_from_stream\<close> on the bytes the stream still delivers. Its \<open>Ok(0)\<close> branch cannot be
  taken, since \<open>read_exact\<close> of a buffer of \<open>len > 0\<close> bytes returns \<open>len\<close>.
\<close>

definition read_from_stream ::
  "GuestPacket codec \<Rightarrow> byte list \<Rightarrow> (GuestPacket \<times> byte list) option" where
  "read_from_stream bitcode inp =
     (case read_exact 4 inp of
        None \<Rightarrow> None
      | Some (len_buf, inp) \<Rightarrow>
          (let len = unat (u32_from_be_bytes len_buf) in
           if len = 0 \<or> len > MAX_PACKET_SIZE then None
           else
             (case read_exact len inp of
                None \<Rightarrow> None
              | Some (buf, inp) \<Rightarrow>
                  (case deserialize_guest_packet bitcode buf of
                     Some packet \<Rightarrow> Some (packet, inp)
                   | None \<Rightarrow> None))))"

lemma read_from_stream_shrinks:
  "read_from_stream bitcode inp = Some (p, rest) \<Longrightarrow> length rest < length inp"
  by (auto simp: read_from_stream_def Let_def split: option.splits if_splits dest!: read_exact_length)

text \<open>
  The loop of \<open>packet_handler\<close>. Each round reads a packet, so it ends with the input at the
  latest.
\<close>

function packet_loop ::
  "('b, 'tx, 'rx, 'c) libs \<Rightarrow> GuestPacket codec \<Rightarrow> byte list \<Rightarrow> ('b, 'tx) MachineCommunicator \<times> 'c
     \<Rightarrow> MachineExit \<times> (('b, 'tx) MachineCommunicator \<times> 'c)" where
  "packet_loop lib bitcode inp (h, ch) =
     (case read_from_stream bitcode inp of
        None \<Rightarrow> (ExitUnknown, (h, ch))
      | Some (packet, rest) \<Rightarrow>
          (case packet of
             Log log \<Rightarrow> packet_loop lib bitcode rest (push_log lib (VmLog log) (h, ch))
           | Exited exit_code \<Rightarrow> (MachineExit_from exit_code, (h\<lparr>comm_state := None\<rparr>, ch))
           | VmState (state, timestamp) \<Rightarrow>
               packet_loop lib bitcode rest
                 (push_log lib (StateLog state timestamp)
                    (h\<lparr>comm_state := Some (state, timestamp)\<rparr>, ch))))"
  by pat_completeness auto

termination packet_loop
  by (relation "measure (\<lambda>(_, _, inp, _). length inp)") (auto dest: read_from_stream_shrinks)

declare packet_loop.simps [simp del]

text \<open>
  \<open>packet_handler\<close>: when the loop ends, the subscribers are dropped if nobody else holds the
  lock at that moment, and the exit is sent to the node manager.
\<close>

definition packet_handler ::
  "('b, 'tx, 'rx, 'c) libs \<Rightarrow> GuestPacket codec \<Rightarrow> bool \<Rightarrow> byte list
     \<Rightarrow> ('b, 'tx) MachineCommunicator \<times> 'c \<Rightarrow> MachineExit \<times> (('b, 'tx) MachineCommunicator \<times> 'c)" where
  "packet_handler lib bitcode lock_free inp s =
     (case packet_loop lib bitcode inp s of
        (exit, (h, ch)) \<Rightarrow> (exit, (if lock_free then drop_subscribers h else h, ch)))"

section \<open>The guest's frames as a packet channel\<close>

definition guest_frame :: "GuestPacket codec \<Rightarrow> GuestPacket \<Rightarrow> byte list" where
  "guest_frame bitcode p = length_prefixed (serialize_guest_packet bitcode p)"

lemma read_from_stream_frame:
  assumes "guest_packet_sound bitcode p"
  shows "read_from_stream bitcode (guest_frame bitcode p @ rest) = Some (p, rest)"
proof -
  let ?d = "encode bitcode p"
  have len: "0 < length ?d" "length ?d \<le> 1024 * 1024" and dec: "decode bitcode ?d = Some p"
    using assms by (auto simp: guest_packet_sound_def MAX_PACKET_SIZE_def)
  then have "unat (of_nat (length ?d) :: u32) = length ?d"
    by (intro unat_length_u32) simp
  then show ?thesis
    using len dec
    by (simp add: read_from_stream_def guest_frame_def length_prefixed_def serialize_guest_packet_def
        deserialize_guest_packet_def MAX_PACKET_SIZE_def)
qed

interpretation guest_stream:
  packet_channel "guest_frame bitcode" "read_from_stream bitcode" "guest_packet_sound bitcode" for bitcode
  by unfold_locales (auto simp: read_from_stream_frame dest: read_from_stream_shrinks)

section \<open>The loop as a fold over packets\<close>

fun handle_packets ::
  "('b, 'tx, 'rx, 'c) libs \<Rightarrow> GuestPacket list \<Rightarrow> ('b, 'tx) MachineCommunicator \<times> 'c
     \<Rightarrow> MachineExit \<times> (('b, 'tx) MachineCommunicator \<times> 'c)" where
  "handle_packets lib [] s = (ExitUnknown, s)"
| "handle_packets lib (Log log # ps) s = handle_packets lib ps (push_log lib (VmLog log) s)"
| "handle_packets lib (Exited code # ps) s = (MachineExit_from code, (fst s)\<lparr>comm_state := None\<rparr>, snd s)"
| "handle_packets lib (VmState (st, t) # ps) s =
     handle_packets lib ps (push_log lib (StateLog st t) ((fst s)\<lparr>comm_state := Some (st, t)\<rparr>, snd s))"

lemma packet_loop_packets:
  "packet_loop lib bitcode inp s = handle_packets lib (guest_stream.packets_of bitcode inp) s"
proof (induction lib bitcode inp s rule: packet_loop.induct)
  case (1 lib bitcode inp h ch)
  show ?case
  proof (cases "read_from_stream bitcode inp")
    case None
    then show ?thesis by (simp add: packet_loop.simps guest_stream.packets_of_stuck)
  next
    case (Some q)
    obtain p rest where q: "q = (p, rest)" by (cases q)
    note unfold_step = packet_loop.simps [of lib bitcode inp] guest_stream.packets_of_step
    show ?thesis
    proof (cases p)
      case (Log log)
      with "1.IH"(1) Some q show ?thesis by (simp add: unfold_step)
    next
      case (VmState x)
      with "1.IH"(2) Some q show ?thesis by (cases x) (simp add: unfold_step)
    next
      case (Exited code)
      with Some q show ?thesis by (simp add: unfold_step)
    qed
  qed
qed

section \<open>Subscribers\<close>

text \<open>The reference for \<open>push_log\<close>: keep exactly the subscribers whose send succeeded.\<close>

fun still_subscribed ::
  "('b, 'tx, 'rx, 'c) libs \<Rightarrow> MachineLog \<Rightarrow> 'tx list \<Rightarrow> 'c \<Rightarrow> 'tx list \<times> 'c" where
  "still_subscribed lib data [] ch = ([], ch)"
| "still_subscribed lib data (tx # txs) ch =
     (let (sent, ch1) = mpsc_try_send lib tx data ch;
          (kept, ch2) = still_subscribed lib data txs ch1
      in (if sent then tx # kept else kept, ch2))"

lemma try_send_all_ge: "j \<in> set (fst (try_send_all lib data i txs ch)) \<Longrightarrow> i \<le> j"
proof (induction txs arbitrary: i ch)
  case (Cons tx txs)
  obtain sent ch1 where m: "mpsc_try_send lib tx data ch = (sent, ch1)" by fastforce
  obtain ds ch2 where r: "try_send_all lib data (Suc i) txs ch1 = (ds, ch2)" by fastforce
  have "j = i \<or> j \<in> set (fst (try_send_all lib data (Suc i) txs ch1))"
    using Cons.prems m r by (auto split: if_splits)
  with Cons.IH [of "Suc i" ch1] show ?case by auto
qed simp

lemma retain_counting_skip:
  "j < i \<Longrightarrow> retain_counting (j # ds) i xs = retain_counting ds i xs"
  by (induction xs arbitrary: i) auto

lemma retain_counting_none: "list_all (\<lambda>d. d < i) ds \<Longrightarrow> retain_counting ds i xs = xs"
  by (induction xs arbitrary: i) (auto simp: list_all_iff intro: less_SucI)

lemma retain_after_send:
  "retain_counting (fst (try_send_all lib data i txs ch)) i txs = fst (still_subscribed lib data txs ch) \<and>
   snd (try_send_all lib data i txs ch) = snd (still_subscribed lib data txs ch)"
proof (induction txs arbitrary: i ch)
  case (Cons tx txs)
  obtain sent ch1 where m: "mpsc_try_send lib tx data ch = (sent, ch1)" by fastforce
  obtain ds ch2 where r: "try_send_all lib data (Suc i) txs ch1 = (ds, ch2)" by fastforce
  have "i \<notin> set ds" using try_send_all_ge [of i lib data "Suc i" txs ch1] r by auto
  with Cons.IH [of "Suc i" ch1] r show ?case
    by (cases sent) (auto simp: m retain_counting_skip split: prod.splits)
qed simp

lemma push_log_eq:
  "push_log lib data (h, ch) =
     (h\<lparr>log_buffer := ring_push_front lib data (log_buffer h),
        log_subscribers := fst (still_subscribed lib data (log_subscribers h) ch)\<rparr>,
      snd (still_subscribed lib data (log_subscribers h) ch))"
proof -
  obtain ds ch' where r: "try_send_all lib data 0 (log_subscribers h) ch = (ds, ch')" by fastforce
  have "retain_counting ds 0 (log_subscribers h) = fst (still_subscribed lib data (log_subscribers h) ch)"
    and "ch' = snd (still_subscribed lib data (log_subscribers h) ch)"
    using retain_after_send [of lib data 0 "log_subscribers h" ch] r by simp_all
  moreover have "ds = [] \<Longrightarrow> retain_counting ds 0 (log_subscribers h) = log_subscribers h"
    by (simp add: retain_counting_none)
  ultimately show ?thesis
    by (cases "log_subscribers h = []") (auto simp: push_log_def r Let_def)
qed

lemma push_log_ring:
  "ring_ok lib \<Longrightarrow> ring_iter lib (log_buffer (fst (push_log lib data s)))
     = take MAX_LINES_IN_BUFFER (data # ring_iter lib (log_buffer (fst s)))"
  by (cases s) (simp add: push_log_eq ring_ok_def)

lemma push_log_state [simp]: "comm_state (fst (push_log lib data s)) = comm_state (fst s)"
  by (cases s) (simp add: push_log_eq)

section \<open>What the log buffer holds\<close>

fun packet_log :: "GuestPacket \<Rightarrow> MachineLog list" where
  "packet_log (Log log) = [VmLog log]"
| "packet_log (VmState (st, t)) = [StateLog st t]"
| "packet_log (Exited _) = []"

fun state_after :: "MachineLog \<Rightarrow> (InitVmState \<times> u64) option \<Rightarrow> (InitVmState \<times> u64) option" where
  "state_after (StateLog st t) _ = Some (st, t)"
| "state_after (VmLog _) acc = acc"

text \<open>
  The contract of \<open>GetLogs\<close>: the most recent lines in the order they were written, and the
  last reported state appended if its own line has been overwritten.
\<close>

definition log_view :: "MachineLog list \<Rightarrow> MachineLog list" where
  "log_view logs =
     (let recent = drop (length logs - MAX_LINES_IN_BUFFER) logs in
      recent @
      (case fold state_after logs None of
         Some (st, t) \<Rightarrow> if StateLog st t \<in> set recent then [] else [StateLog st t]
       | None \<Rightarrow> []))"

lemma take_append_take: "take n (xs @ take n ys) = take n (xs @ ys)"
  by (simp add: take_append min_def)

lemma handle_packets_logs:
  assumes "ring_ok lib" and "list_all (\<lambda>p. \<not> is_exited p) ps"
    and "length (ring_iter lib (log_buffer (fst s))) \<le> MAX_LINES_IN_BUFFER"
  shows "fst (handle_packets lib ps s) = ExitUnknown \<and>
    ring_iter lib (log_buffer (fst (snd (handle_packets lib ps s)))) =
      take MAX_LINES_IN_BUFFER (rev (concat (map packet_log ps)) @ ring_iter lib (log_buffer (fst s))) \<and>
    comm_state (fst (snd (handle_packets lib ps s))) =
      fold state_after (concat (map packet_log ps)) (comm_state (fst s))"
  using assms(2,3)
proof (induction ps arbitrary: s)
  case (Cons p ps)
  show ?case
  proof (cases p)
    case (Log log)
    let ?s = "push_log lib (VmLog log) s"
    have "length (ring_iter lib (log_buffer (fst ?s))) \<le> MAX_LINES_IN_BUFFER"
      by (simp only: push_log_ring [OF assms(1)]) simp
    with Cons.IH [of ?s] Cons.prems(1) show ?thesis
      by (simp add: Log push_log_ring [OF assms(1)] take_append_take)
  next
    case (VmState x)
    obtain st t where x: "x = (st, t)" by (cases x)
    let ?s = "push_log lib (StateLog st t) ((fst s)\<lparr>comm_state := Some (st, t)\<rparr>, snd s)"
    have "length (ring_iter lib (log_buffer (fst ?s))) \<le> MAX_LINES_IN_BUFFER"
      by (simp only: push_log_ring [OF assms(1)]) simp
    with Cons.IH [of ?s] Cons.prems(1) show ?thesis
      by (simp add: VmState x push_log_ring [OF assms(1)] take_append_take)
  next
    case (Exited code)
    with Cons.prems(1) show ?thesis by simp
  qed
qed simp

lemma is_state_log_iff: "is_state_log st t log \<longleftrightarrow> log = StateLog st t"
  by (cases log) (auto simp: is_state_log_def)

lemma find_state_log:
  "find (is_state_log st t) logs \<noteq> None \<longleftrightarrow> StateLog st t \<in> set logs"
  by (auto simp: find_None_iff is_state_log_iff)

lemma clone_buffer_with_state_eq:
  "clone_buffer_with_state lib h =
     rev (ring_iter lib (log_buffer h)) @
     (case comm_state h of
        Some (st, t) \<Rightarrow> if StateLog st t \<in> set (ring_iter lib (log_buffer h)) then [] else [StateLog st t]
      | None \<Rightarrow> [])"
  using find_state_log by (force simp: clone_buffer_with_state_def split: option.split)

lemma clone_buffer_drop_subscribers [simp]:
  "clone_buffer_with_state lib (drop_subscribers h) = clone_buffer_with_state lib h"
  unfolding clone_buffer_with_state_eq drop_subscribers_def MachineCommunicator.select_convs
    MachineCommunicator.update_convs
  by (simp split: option.split)

lemma clone_buffer_is_view:
  assumes "ring_iter lib (log_buffer h) = take MAX_LINES_IN_BUFFER (rev logs)"
    and "comm_state h = fold state_after logs None"
  shows "clone_buffer_with_state lib h = log_view logs"
proof -
  have r: "rev (ring_iter lib (log_buffer h)) = drop (length logs - MAX_LINES_IN_BUFFER) logs"
    by (simp add: assms(1) rev_take)
  moreover from r have "set (ring_iter lib (log_buffer h)) = set (drop (length logs - MAX_LINES_IN_BUFFER) logs)"
    by (metis set_rev)
  ultimately show ?thesis
    unfolding clone_buffer_with_state_eq log_view_def assms(2) Let_def by (simp only:)
qed

text \<open>
  Buffers of concrete lists, and channels that always accept, as an instance of the two
  packages.
\<close>

definition list_libs :: "(MachineLog list, nat, nat, nat) libs" where
  "list_libs =
     \<lparr>ring_new = [], ring_push_front = (\<lambda>x b. take MAX_LINES_IN_BUFFER (x # b)), ring_iter = (\<lambda>b. b),
      mpsc_channel = (\<lambda>_ c. ((c, c), Suc c)), mpsc_try_send = (\<lambda>tx _ c. (tx \<noteq> 0, c))\<rparr>"

lemma ring_ok_list_libs: "ring_ok list_libs"
  by (simp add: ring_ok_def list_libs_def)

section \<open>Properties\<close>

text \<open>
  C12. What \<open>GetLogs\<close> and \<open>StreamLogs\<close> return for a machine whose guest wrote the packets
  \<open>ps\<close> (and has not reported its exit) is \<open>log_view\<close> of the log and state lines of
  \<open>ps\<close>: the wire format, the ring buffer, its reversal and the appended state together
  implement the contract, for every codec and ring buffer that behave as documented.
\<close>

theorem host_log_view:
  assumes "ring_ok lib" and "list_all (guest_packet_sound bitcode) ps"
    and "list_all (\<lambda>p. \<not> is_exited p) ps"
  shows "clone_buffer_with_state lib
      (fst (snd (packet_handler lib bitcode lock_free (concat (map (guest_frame bitcode) ps))
         (MachineCommunicator_new lib, ch)))) =
    log_view (concat (map packet_log ps))"
proof -
  let ?s = "(MachineCommunicator_new lib, ch)"
  let ?h = "fst (snd (handle_packets lib ps ?s))"
  have "packet_loop lib bitcode (concat (map (guest_frame bitcode) ps)) ?s = handle_packets lib ps ?s"
    using guest_stream.packets_of_put [OF assms(2), of "[]"]
    by (simp add: packet_loop_packets guest_stream.packets_of_stuck read_from_stream_def read_exact_def)
  moreover have "ring_iter lib (log_buffer ?h) =
      take MAX_LINES_IN_BUFFER (rev (concat (map packet_log ps)))"
    and "comm_state ?h = fold state_after (concat (map packet_log ps)) None"
    using handle_packets_logs [OF assms(1,3), of ?s] assms(1)
    by (simp_all add: MachineCommunicator_new_def ring_ok_def)
  ultimately show ?thesis
    by (cases "handle_packets lib ps ?s") (simp add: packet_handler_def clone_buffer_is_view split: prod.split)
qed

theorem host_log_view_witness:
  "clone_buffer_with_state list_libs
      (fst (snd (packet_handler list_libs (table_codec [VmState (Online, 7)]) True
         (concat (map (guest_frame (table_codec [VmState (Online, 7)])) [VmState (Online, 7)]))
         (MachineCommunicator_new list_libs, 0)))) = [StateLog Online 7]"
proof -
  have "list_all (guest_packet_sound (table_codec [VmState (Online, 7)])) [VmState (Online, 7)]"
    by (simp add: guest_packet_sound_def table_codec_def MAX_PACKET_SIZE_def)
  from host_log_view [OF ring_ok_list_libs this] show ?thesis
    by (simp add: log_view_def MAX_LINES_IN_BUFFER_def)
qed

end
