(* ===== verification/Btree_Map.thy ===== *)
theory Btree_Map
  imports Prelude "HOL-Library.Char_ord" "HOL-Library.List_Lexorder"
begin

text \<open>
  \<open>std::collections::BTreeMap\<close> as far as the sources use it: a map kept as an association
  list in strictly increasing key order, so that iterating over it and serialising it are
  deterministic. Strings are compared byte by byte.
\<close>

type_synonym ('k, 'v) btree = "('k \<times> 'v) list"

fun btree_insert :: "'k::linorder \<Rightarrow> 'v \<Rightarrow> ('k, 'v) btree \<Rightarrow> ('k, 'v) btree" where
  "btree_insert k v [] = [(k, v)]"
| "btree_insert k v ((k', v') # m) =
     (if k < k' then (k, v) # (k', v') # m
      else if k = k' then (k, v) # m
      else (k', v') # btree_insert k v m)"

text \<open>\<open>into_iter().collect()\<close>: insert every pair; a later pair replaces an earlier one.\<close>

definition btree_collect :: "('k::linorder \<times> 'v) list \<Rightarrow> ('k, 'v) btree" where
  "btree_collect xs = fold (\<lambda>(k, v). btree_insert k v) xs []"

definition btree_ok :: "('k::linorder, 'v) btree \<Rightarrow> bool" where
  "btree_ok m \<longleftrightarrow> sorted_wrt (<) (map fst m)"


lemma btree_insert_keys: "fst ` set (btree_insert k v m) = insert k (fst ` set m)"
proof (induction m)
  case (Cons x m)
  then show ?case by (cases x) auto
qed simp

lemma btree_insert_ok: "btree_ok m \<Longrightarrow> btree_ok (btree_insert k v m)"
proof (induction m)
  case (Cons x m)
  then show ?case
    using btree_insert_keys [of k v m]
    by (cases x) (force simp: btree_ok_def)
qed (simp add: btree_ok_def)

lemma btree_insert_lookup: "btree_ok m \<Longrightarrow> map_of (btree_insert k v m) = (map_of m)(k \<mapsto> v)"
proof (induction m)
  case (Cons x m)
  then show ?case by (cases x) (auto simp: btree_ok_def fun_eq_iff)
qed simp

lemma btree_collect_ok_lookup:
  "btree_ok (btree_collect xs) \<and> map_of (btree_collect xs) = map_of (rev xs)"
proof (induction xs rule: rev_induct)
  case (snoc x xs)
  then show ?case
    by (cases x) (auto simp: btree_collect_def btree_insert_ok btree_insert_lookup)
qed (simp add: btree_collect_def btree_ok_def)

text \<open>Collecting the entries of a map gives the map back.\<close>

lemma btree_insert_last: "\<forall>k' \<in> fst ` set m. k' < k \<Longrightarrow> btree_insert k v m = m @ [(k, v)]"
  by (induction k v m rule: btree_insert.induct) auto

lemma btree_collect_id: "btree_ok m \<Longrightarrow> btree_collect m = m"
proof (induction m rule: rev_induct)
  case (snoc x m)
  then have "btree_collect m = m" "\<forall>k \<in> fst ` set m. k < fst x" by (auto simp: btree_ok_def sorted_wrt_append)
  then show ?case by (simp add: btree_collect_def btree_insert_last case_prod_unfold)
qed (simp add: btree_collect_def)

end
