(* ===== verification/Machine.thy ===== *)
theory Machine
  imports Firecracker Machine_Vsock Btree_Map
begin

text \<open>
  \<open>nodemanager/src/machine/machine.rs\<close>: one virtual machine, from its network stack to its
  shutdown. The machine owns its stack: when \<open>Machine::new\<close> fails the stack is dropped, and
  \<open>shutdown\<close> hands it back. \<open>serde_json::to_string\<close> is the parameter \<open>to_json\<close>.
\<close>

section \<open>Data\<close>

record ('b, 'tx) Machine =
  machine_vm :: JailedCracker
  machine_comm :: "('b, 'tx) MachineCommunicator option"
  machine_network :: NetworkStack

record MachineConfig =
  container_reference :: string
  vcpu_count :: u8
  mem_size_mb :: u32

record ContainerOverrides =
  override_cmd_args :: "string list option"
  override_env :: "(string, string) btree option"

record FirecrackerConfig =
  fc_rootfs :: string
  fc_kernel_image :: string
  fc_jailer_binary :: string
  fc_firecracker_binary :: string

text \<open>The metadata the guest reads from the metadata service (\<open>Latest\<close> of a \<open>Metadata\<close>).\<close>

record Config =
  config_image :: string
  config_cmd_args :: "string list option"
  config_env :: "(string, string) btree option"
  config_vsock_port :: u32

record Metadata =
  meta_container :: Config

record Latest =
  latest_metadata :: Metadata

section \<open>Operations\<close>

text \<open>\<open>rand::random::<u32>() % (u32::MAX - 4) + 3\<close>\<close>

definition random_vsock_port :: "env \<Rightarrow> profile \<Rightarrow> event list \<Rightarrow> (error, u32) res \<times> event list" where
  "random_vsock_port env prof tr =
     (case perform env RandomU32 tr of
        (Num n, tr') \<Rightarrow> (add_ovf prof (n mod (- 1 - 4)) 3, tr')
      | (_, tr') \<Rightarrow> (add_ovf prof (0 mod (- 1 - 4)) 3, tr'))"

definition kernel_boot_args :: "bool \<Rightarrow> NetworkStack \<Rightarrow> string" where
  "kernel_boot_args debug_machine_out st =
     (if debug_machine_out then ''console=ttyS0'' else ''8250.nr_uarts=0'') @
     '' quiet loglevel=1 reboot=k panic=-1 pci=off ip='' @ ipv4_string (stack_ipv4_addr st) @ ''::'' @
     ipv4_string (stack_gateway st) @ '':'' @ subnet_mask @ ''::eth0:off''"

text \<open>The wait for the guest's connection, with its three outcomes.\<close>

definition accept_guest :: "env \<Rightarrow> event list \<Rightarrow> (error, unit) res \<times> event list" where
  "accept_guest env tr =
     (case perform env (AcceptVsock 500) tr of
        (Done, tr') \<Rightarrow> (Ok (), tr')
      | (Elapsed, tr') \<Rightarrow> (Err (Message ''Timeout accepting vsock connection''), tr')
      | (_, tr') \<Rightarrow> (Err (IoError (AcceptVsock 500)), tr'))"

text \<open>\<open>std::env::var(name).is_ok()\<close>, and \<open>tokio::time::timeout(..).await?\<close>.\<close>

definition env_var_is_ok :: "env \<Rightarrow> string \<Rightarrow> event list \<Rightarrow> (error, bool) res \<times> event list" where
  "env_var_is_ok env name tr =
     (case perform env (EnvVarSet name) tr of (r, tr') \<Rightarrow> (Ok (r = Flag True), tr'))"

definition within_timeout :: "env \<Rightarrow> host_call \<Rightarrow> event list \<Rightarrow> (error, unit) res \<times> event list" where
  "within_timeout env c tr =
     (case perform env c tr of
        (Elapsed, tr') \<Rightarrow> (Err (TimedOut c), tr')
      | (_, tr') \<Rightarrow> (Ok (), tr'))"

text \<open>The body of \<open>Machine::new\<close>; its scope owns the network stack.\<close>

definition Machine_boot ::
  "env \<Rightarrow> profile \<Rightarrow> ('b, 'tx, 'rx, 'c) libs \<Rightarrow> (Latest \<Rightarrow> string option) \<Rightarrow> FirecrackerConfig \<Rightarrow>
     MachineConfig \<Rightarrow> NetworkStack \<Rightarrow> ContainerOverrides \<Rightarrow> event list
     \<Rightarrow> (error, ('b, 'tx) Machine) res \<times> event list" where
  "Machine_boot env prof lib to_json fc_config config network_stack overrides tr =
     then_try (random_vsock_port env prof tr) (\<lambda>vsock_port tr.
     then_try
       (case to_json \<lparr>latest_metadata = \<lparr>meta_container =
               \<lparr>config_image = container_reference config, config_cmd_args = override_cmd_args overrides,
                config_env = override_env overrides, config_vsock_port = vsock_port\<rparr>\<rparr>\<rparr> of
          Some json \<Rightarrow> (Ok json, tr)
        | None \<Rightarrow> (Err (Message ''serialize''), tr)) (\<lambda>metadata tr.
     then_try (env_var_is_ok env ''DEBUG_MACHINE_OUT'' tr) (\<lambda>debug_machine_out tr.
     then_try (JailedCracker_spawn env (fc_jailer_binary fc_config) (fc_firecracker_binary fc_config) 0
         (Some metadata) (\<not> debug_machine_out) tr) (\<lambda>vm tr.
     then_try (set_machine_config env vm (vcpu_count config) (mem_size_mb config) tr) (\<lambda>_ tr.
     then_try (set_boot env vm (fc_kernel_image fc_config)
         (kernel_boot_args debug_machine_out network_stack) tr) (\<lambda>_ tr.
     then_try (set_rootfs env vm (fc_rootfs fc_config) tr) (\<lambda>_ tr.
     then_try (create_drive env prof vm 8 ''drive0'' tr) (\<lambda>_ tr.
     then_try (set_eth_tap env vm (nic network_stack) tr) (\<lambda>_ tr.
     then_try (open_vsock_listener env vm vsock_port tr) (\<lambda>_ tr.
     then_try (start_vm env vm tr) (\<lambda>_ tr.
     then_try (accept_guest env tr) (\<lambda>_ tr.
       (Ok \<lparr>machine_vm = vm, machine_comm = Some (MachineCommunicator_new lib),
            machine_network = network_stack\<rparr>, tr)))))))))))))"

definition Machine_new ::
  "env \<Rightarrow> profile \<Rightarrow> ('b, 'tx, 'rx, 'c) libs \<Rightarrow> (Latest \<Rightarrow> string option) \<Rightarrow> FirecrackerConfig \<Rightarrow>
     MachineConfig \<Rightarrow> NetworkStack \<Rightarrow> ContainerOverrides \<Rightarrow> event list
     \<Rightarrow> (error, ('b, 'tx) Machine) res \<times> event list" where
  "Machine_new env prof lib to_json fc_config config network_stack overrides tr =
     on_exit (NetworkStack_drop env network_stack)
       (Machine_boot env prof lib to_json fc_config config network_stack overrides tr)"

definition Machine_uuid :: "('b, 'tx) Machine \<Rightarrow> string" where
  "Machine_uuid m = vm_uuid (machine_vm m)"

text \<open>Durations are in milliseconds. The communicator is taken out of the machine first.\<close>

definition shutdown_gracefully ::
  "env \<Rightarrow> HostPacket codec \<Rightarrow> nat \<Rightarrow> ('b, 'tx) Machine \<times> event list
     \<Rightarrow> (error, unit) res \<times> (('b, 'tx) Machine \<times> event list)" where
  "shutdown_gracefully env bitcode timeout = (\<lambda>(m, tr).
     (case machine_comm m of
        None \<Rightarrow> (Err (Message ''Communication never initialized''), (m, tr))
      | Some _ \<Rightarrow>
          (let m = m\<lparr>machine_comm := None\<rparr>;
               lock = LockComm (min 50 timeout);
               join = JoinPacketHandler timeout
           in case then_try (within_timeout env lock tr) (\<lambda>_ tr.
                     then_try (send_shutdown env bitcode tr) (\<lambda>_ tr. within_timeout env join tr)) of
                (r, tr) \<Rightarrow> (r, (m, tr)))))"

text \<open>
  \<open>shutdown\<close> consumes the machine and returns its stack. A panic in \<open>cleanup\<close> would unwind
  through the machine and drop its stack.
\<close>

definition Machine_shutdown ::
  "env \<Rightarrow> HostPacket codec \<Rightarrow> nat option \<Rightarrow> ('b, 'tx) Machine \<Rightarrow> event list
     \<Rightarrow> (error, NetworkStack) res \<times> event list" where
  "Machine_shutdown env bitcode timeout m tr =
     (case (case timeout of
              Some t \<Rightarrow> snd (shutdown_gracefully env bitcode t (m, tr))
            | None \<Rightarrow> (m, tr)) of
        (m, tr) \<Rightarrow>
          (case cleanup env (machine_vm m) tr of
             (Panic, tr) \<Rightarrow> (Panic, NetworkStack_drop env (machine_network m) tr)
           | (_, tr) \<Rightarrow> (Ok (machine_network m), tr)))"

definition get_and_subscribe_to_logs ::
  "('b, 'tx, 'rx, 'c) libs \<Rightarrow> ('b, 'tx) Machine \<times> 'c
     \<Rightarrow> (error, MachineLog list \<times> 'rx) res \<times> (('b, 'tx) Machine \<times> 'c)" where
  "get_and_subscribe_to_logs lib = (\<lambda>(m, ch).
     (case machine_comm m of
        None \<Rightarrow> (Err (Message ''Communication never initialized''), (m, ch))
      | Some h \<Rightarrow>
          (let logs = clone_buffer_with_state lib h in
           case subscribe_log lib (h, ch) of
             (rx, (h', ch')) \<Rightarrow> (Ok (logs, rx), (m\<lparr>machine_comm := Some h'\<rparr>, ch')))))"

definition Machine_get_logs ::
  "('b, 'tx, 'rx, 'c) libs \<Rightarrow> ('b, 'tx) Machine \<Rightarrow> (error, MachineLog list) res" where
  "Machine_get_logs lib m =
     (case machine_comm m of
        None \<Rightarrow> Err (Message ''Communication never initialized'')
      | Some h \<Rightarrow> Ok (clone_buffer_with_state lib h))"

section \<open>The port\<close>

lemma port_bounds:
  fixes n :: u32
  shows "unat (n mod (- 1 - 4)) < 4294967291"
  using mod_less_divisor [of 4294967291 "unat n"] by (simp add: unat_mod)

lemma random_vsock_port_Ok:
  obtains port where "random_vsock_port env prof tr = (Ok port, tr @ [(RandomU32, env tr RandomU32)])"
    and "3 \<le> unat port" and "unat port < 4294967294"
proof -
  define n where "n = (case env tr RandomU32 of Num n \<Rightarrow> n | _ \<Rightarrow> 0) mod (- 1 - 4 :: u32)"
  have r: "random_vsock_port env prof tr = (add_ovf prof n 3, tr @ [(RandomU32, env tr RandomU32)])"
    by (cases "env tr RandomU32") (simp_all add: random_vsock_port_def perform_def n_def)
  have b: "unat n < 4294967291" unfolding n_def by (rule port_bounds)
  then have "add_ovf prof n 3 = (Ok (n + 3) :: (error, u32) res)" by (simp add: add_ovf_def)
  moreover have "unat (n + 3) = unat n + 3" using b by (simp add: unat_word_ariths)
  ultimately show thesis using that [of "n + 3"] r b by simp
qed

section \<open>What booting and shutting down do to the host\<close>

lemma within_timeout_calls: "P c \<Longrightarrow> extends_by P tr (snd (within_timeout env c tr))"
  by (cases "env tr c") (auto simp: within_timeout_def perform_def)

lemma Machine_boot_calls: "extends_by boot_call tr (snd (Machine_boot env prof lib js fc cfg st ov tr))"
proof -
  have p: "extends_by boot_call tr' (snd (random_vsock_port env prof tr'))" for tr'
    by (rule random_vsock_port_Ok [of env prof tr']) (auto simp: boot_call_def)
  have a: "extends_by boot_call tr' (snd (accept_guest env tr'))" for tr'
    by (cases "env tr' (AcceptVsock 500)") (auto simp: accept_guest_def perform_def boot_call_def)
  have j: "extends_by boot_call tr' (snd (case x of Some json \<Rightarrow> (Ok json, tr') | None \<Rightarrow> (Err e, tr')))"
    for x :: "string option" and tr' and e :: error
    by (cases x) auto
  have e: "extends_by boot_call tr' (snd (env_var_is_ok env v tr'))" for tr' v
    by (auto simp: env_var_is_ok_def perform_def boot_call_def)
  show ?thesis
    unfolding Machine_boot_def
    by (intro extends_by_then_try p a j e spawn_boot driver_boot) simp
qed

lemma Machine_boot_Ok:
  assumes "Machine_boot env prof lib js fc cfg st ov tr = (Ok m, tr')"
  shows "machine_network m = st" and "vm_ok (machine_vm m)"
    and "machine_comm m = Some (MachineCommunicator_new lib)"
proof -
  obtain tr1 tr2 debug json where
    sp: "JailedCracker_spawn env (fc_jailer_binary fc) (fc_firecracker_binary fc) 0 (Some json) debug tr1
      = (Ok (machine_vm m), tr2)"
    and "machine_network m = st" and "machine_comm m = Some (MachineCommunicator_new lib)"
    using assms unfolding Machine_boot_def then_try_Ok_iff by auto
  then show "machine_network m = st" and "machine_comm m = Some (MachineCommunicator_new lib)" by auto
  show "vm_ok (machine_vm m)" by (rule spawn_Ok [OF sp])
qed

lemma Machine_new_Ok:
  assumes "Machine_new env prof lib js fc cfg st ov tr = (Ok m, tr')"
  shows "machine_network m = st" and "vm_ok (machine_vm m)"
    and "machine_comm m = Some (MachineCommunicator_new lib)" and "extends_by boot_call tr tr'"
  using assms Machine_boot_Ok [of env prof lib js fc cfg st ov tr m tr']
    Machine_boot_calls [of tr env prof lib js fc cfg st ov]
  by (auto simp: Machine_new_def res_simps)

lemma Machine_new_not_Ok:
  assumes "Machine_new env prof lib js fc cfg st ov tr = (r, tr')" and "\<not> is_ok r"
  obtains tr1 where "extends_by boot_call tr tr1" and "tr' = NetworkStack_drop env st tr1"
proof -
  obtain r1 tr1 where b: "Machine_boot env prof lib js fc cfg st ov tr = (r1, tr1)" by fastforce
  have "tr' = NetworkStack_drop env st tr1"
    using assms unfolding Machine_new_def b by (cases r1) auto
  with that Machine_boot_calls [of tr env prof lib js fc cfg st ov] show thesis unfolding b by simp
qed

lemma shutdown_gracefully_calls:
  assumes "shutdown_gracefully env bitcode t (m, tr) = (r, (m', tr'))"
  shows "machine_network m' = machine_network m \<and> machine_vm m' = machine_vm m \<and>
    extends_by boot_call tr tr'"
proof (cases "machine_comm m")
  case None
  then show ?thesis using assms by (simp add: shutdown_gracefully_def)
next
  case (Some h)
  define k where "k = then_try (within_timeout env (LockComm (min 50 t)) tr) (\<lambda>_ tr.
      then_try (send_shutdown env bitcode tr) (\<lambda>_ tr. within_timeout env (JoinPacketHandler t) tr))"
  have "extends_by boot_call tr (snd k)"
    unfolding k_def send_shutdown_def comm_write_def Let_def
    by (intro extends_by_then_try extends_by_io within_timeout_calls) (auto simp: boot_call_def)
  moreover have "(r, (m', tr')) = (case k of (r, tr) \<Rightarrow> (r, (m\<lparr>machine_comm := None\<rparr>, tr)))"
    unfolding k_def assms [symmetric] by (simp add: shutdown_gracefully_def Some Let_def)
  ultimately show ?thesis by (cases k) simp
qed

lemma Machine_shutdown_cases:
  assumes "vm_ok (machine_vm m)"
  obtains tr1 dir where "extends_by boot_call tr tr1" and "path_parent (root_path (machine_vm m)) = Some dir"
    and "Machine_shutdown env bitcode timeout m tr =
      (Ok (machine_network m), snd (io env (RemoveDirAll dir) (snd (io env (KillProc (Machine_uuid m)) tr1))))"
proof -
  obtain m' tr1 where s: "(case timeout of
      Some t \<Rightarrow> snd (shutdown_gracefully env bitcode t (m, tr)) | None \<Rightarrow> (m, tr)) = (m', tr1)"
    by (metis surj_pair)
  have m': "machine_network m' = machine_network m \<and> machine_vm m' = machine_vm m \<and> extends_by boot_call tr tr1"
  proof (cases timeout)
    case (Some t)
    then obtain r where "shutdown_gracefully env bitcode t (m, tr) = (r, (m', tr1))"
      using s by (metis option.simps(5) prod.collapse)
    then show ?thesis by (rule shutdown_gracefully_calls)
  next
    case None
    then show ?thesis using s by simp
  qed
  obtain dir where d: "path_parent (root_path (machine_vm m)) = Some dir"
    using assms by (auto simp: vm_ok_def)
  have c: "cleanup env (machine_vm m) tr1 =
      io env (RemoveDirAll dir) (snd (io env (KillProc (Machine_uuid m)) tr1))"
    by (simp add: cleanup_def d kill_vm_def Machine_uuid_def)
  have "Machine_shutdown env bitcode timeout m tr = (Ok (machine_network m), snd (cleanup env (machine_vm m) tr1))"
  proof -
    obtain r2 tr2 where "cleanup env (machine_vm m) tr1 = (r2, tr2)" by (metis surj_pair)
    then show ?thesis
      using cleanup_not_Panic [OF assms, of env tr1] m' unfolding Machine_shutdown_def s prod.case
      by (cases r2) simp_all
  qed
  then show thesis using that [of tr1 dir] m' d unfolding c by blast
qed

lemma NetworkStack_drop_calls: "extends_by runs_command tr (NetworkStack_drop env st tr)"
proof -
  have "extends_by runs_command tr' (fold (\<lambda>rule tr. snd (cmd env ''iptables-nft'' rule tr)) ds tr')" for ds tr'
  proof (induction ds arbitrary: tr')
    case (Cons d ds)
    have "extends_by runs_command tr' (snd (cmd env ''iptables-nft'' d tr'))" by auto
    from extends_by_trans [OF this Cons.IH] show ?case by simp
  qed simp
  moreover have "extends_by runs_command tr (TunTap_drop env (nic st) tr)"
    by (auto simp: TunTap_drop_def)
  ultimately show ?thesis
    unfolding NetworkStack_drop_def IpRuleBook_drop_def by (meson extends_by_trans)
qed

section \<open>The requests of a boot\<close>

lemma driver_requests:
  "set_machine_config env vm vc mem tr = (Ok u, tr') \<Longrightarrow> api_requests tr' = api_requests tr @
     [(''/machine-config'', MachineConfigBody \<lparr>mem_size_mib = ucast mem, fc_vcpu_count = vc\<rparr>)]"
  "set_boot env vm k args tr = (Ok u, tr') \<Longrightarrow> api_requests tr' = api_requests tr @
     [(''/boot-source'', BootSourceBody \<lparr>kernel_image_path = ''/kernel.img'', boot_args = args\<rparr>)]"
  "set_rootfs env vm p tr = (Ok u, tr') \<Longrightarrow> api_requests tr' = api_requests tr @
     [(''/drives/rootfs'', DriveBody \<lparr>drive_id = ''rootfs'', is_read_only = True, is_root_device = True,
        path_on_host = ''/root.fs''\<rparr>)]"
  "create_drive env prof vm gb d tr = (Ok u, tr') \<Longrightarrow> api_requests tr' = api_requests tr @
     [(''/drives/'' @ d, DriveBody \<lparr>drive_id = d, is_read_only = False, is_root_device = False,
        path_on_host = ''/'' @ d @ ''.fs''\<rparr>)]"
  "set_eth_tap env vm tap tr = (Ok u, tr') \<Longrightarrow> api_requests tr' = api_requests tr @
     [(''/network-interfaces/eth0'', NetworkInterfaceBody \<lparr>host_dev_name = tap_name tap, iface_id = ''eth0''\<rparr>),
      (''/mmds/config'', MmdsConfigBody \<lparr>mmds_ipv4_address = ''169.254.169.254'',
         network_interfaces = [''eth0''], mmds_version = V2\<rparr>)]"
  "open_vsock_listener env vm port tr = (Ok l, tr') \<Longrightarrow> api_requests tr' = api_requests tr @
     [(''/vsock'', VsockBody \<lparr>guest_cid = - 1, uds_path = ''/run/v.sock''\<rparr>)]"
  "start_vm env vm tr = (Ok u, tr') \<Longrightarrow> api_requests tr' = api_requests tr @
     [(''/actions'', ActionBody InstanceStart)]"
  by (auto simp: set_machine_config_def set_boot_def set_rootfs_def create_drive_def set_eth_tap_def
      add_network_interface_def config_mmds_def open_vsock_listener_def add_host_vsock_def start_vm_def
      Let_def res_simps)

lemma random_vsock_port_requests:
  "random_vsock_port env prof tr = (Ok port, tr') \<Longrightarrow> api_requests tr' = api_requests tr"
  by (rule random_vsock_port_Ok [of env prof tr], simp, auto)

lemma env_var_requests: "env_var_is_ok env v tr = (Ok b, tr') \<Longrightarrow> api_requests tr' = api_requests tr"
  by (auto simp: env_var_is_ok_def perform_def)

lemma accept_guest_requests: "accept_guest env tr = (Ok u, tr') \<Longrightarrow> api_requests tr' = api_requests tr"
  by (cases "env tr (AcceptVsock 500)") (auto simp: accept_guest_def perform_def)

text \<open>What a guest that boots with this configuration and stack was given, in order.\<close>

text \<open>
  The kernel command line: the console only when the output is debugged, and the static
  address configuration \<open>ip=<client>::<gateway>:<mask>::<device>:off\<close> with the addresses in
  dotted decimal notation and the mask of a /30 block.
\<close>

fun dotted :: "Ipv4Addr \<Rightarrow> string" where
  "dotted (Ipv4Addr a b c d) =
     dec_string (unat a) @ ''.'' @ dec_string (unat b) @ ''.'' @ dec_string (unat c) @ ''.'' @ dec_string (unat d)"

definition boot_command_line :: "NetworkStack \<Rightarrow> bool \<Rightarrow> string" where
  "boot_command_line st debug =
     (if debug then ''console=ttyS0'' else ''8250.nr_uarts=0'') @ '' quiet loglevel=1 reboot=k panic=-1 pci=off'' @
     '' ip='' @ dotted (stack_ipv4_addr st) @ ''::'' @ dotted (stack_gateway st) @ '':255.255.255.252::eth0:off''"

definition boot_requests :: "MachineConfig \<Rightarrow> NetworkStack \<Rightarrow> bool \<Rightarrow> (string \<times> api_body) list" where
  "boot_requests config st debug =
     [(''/machine-config'',
         MachineConfigBody \<lparr>mem_size_mib = ucast (mem_size_mb config), fc_vcpu_count = vcpu_count config\<rparr>),
      (''/boot-source'',
         BootSourceBody \<lparr>kernel_image_path = ''/kernel.img'', boot_args = boot_command_line st debug\<rparr>),
      (''/drives/rootfs'', DriveBody \<lparr>drive_id = ''rootfs'', is_read_only = True, is_root_device = True,
         path_on_host = ''/root.fs''\<rparr>),
      (''/drives/drive0'', DriveBody \<lparr>drive_id = ''drive0'', is_read_only = False, is_root_device = False,
         path_on_host = ''/drive0.fs''\<rparr>),
      (''/network-interfaces/eth0'',
         NetworkInterfaceBody \<lparr>host_dev_name = stack_tap st, iface_id = ''eth0''\<rparr>),
      (''/mmds/config'', MmdsConfigBody \<lparr>mmds_ipv4_address = ''169.254.169.254'',
         network_interfaces = [''eth0''], mmds_version = V2\<rparr>),
      (''/vsock'', VsockBody \<lparr>guest_cid = - 1, uds_path = ''/run/v.sock''\<rparr>),
      (''/actions'', ActionBody InstanceStart)]"

lemma kernel_boot_args_eq: "kernel_boot_args debug st = boot_command_line st debug"
  by (cases "stack_ipv4_addr st"; cases "stack_gateway st")
    (simp add: kernel_boot_args_def boot_command_line_def subnet_mask_def)

text \<open>The stages of a boot that succeeds.\<close>

lemma Machine_boot_stages:
  assumes "Machine_boot env prof lib to_json fc cfg st ov tr = (Ok m, tr')"
  obtains port json debug t00 t0 t1 t2 t3 t4 t5 t6 p t7 t8 where
    "to_json \<lparr>latest_metadata = \<lparr>meta_container = \<lparr>config_image = container_reference cfg,
      config_cmd_args = override_cmd_args ov, config_env = override_env ov, config_vsock_port = port\<rparr>\<rparr>\<rparr> = Some json"
    "random_vsock_port env prof tr = (Ok port, t00)" "env_var_is_ok env ''DEBUG_MACHINE_OUT'' t00 = (Ok debug, t0)"
    "JailedCracker_spawn env (fc_jailer_binary fc) (fc_firecracker_binary fc) 0 (Some json) (\<not> debug) t0 = (Ok (machine_vm m), t1)"
    "set_machine_config env (machine_vm m) (vcpu_count cfg) (mem_size_mb cfg) t1 = (Ok (), t2)"
    "set_boot env (machine_vm m) (fc_kernel_image fc) (kernel_boot_args debug st) t2 = (Ok (), t3)"
    "set_rootfs env (machine_vm m) (fc_rootfs fc) t3 = (Ok (), t4)"
    "create_drive env prof (machine_vm m) 8 ''drive0'' t4 = (Ok (), t5)"
    "set_eth_tap env (machine_vm m) (nic st) t5 = (Ok (), t6)"
    "open_vsock_listener env (machine_vm m) port t6 = (Ok p, t7)"
    "start_vm env (machine_vm m) t7 = (Ok (), t8)" "accept_guest env t8 = (Ok (), tr')"
  using assms unfolding Machine_boot_def then_try_Ok_iff by (auto split: option.splits)

lemma extends_Ok: "m = (Ok a, tr') \<Longrightarrow> extends_by P tr (snd m) \<Longrightarrow> extends_by P tr tr'"
  by simp

lemma env_var_Ok:
  "env_var_is_ok env v tr = (Ok b, tr') \<Longrightarrow> \<exists>r. tr' = tr @ [(EnvVarSet v, r)] \<and> b = (r = Flag True)"
  by (auto simp: env_var_is_ok_def perform_def)

lemma Machine_boot_requests:
  assumes "Machine_boot env prof lib js fc cfg st ov tr = (Ok m, tr')"
  shows "\<exists>before r after. tr' = tr @ before @ (EnvVarSet ''DEBUG_MACHINE_OUT'', r) # after \<and>
    api_requests tr' = api_requests tr @ boot_requests cfg st (r = Flag True)"
  using assms
proof (rule Machine_boot_stages)
  fix port json debug t00 t0 t1 t2 t3 t4 t5 t6 p t7 t8
  assume r: "random_vsock_port env prof tr = (Ok port, t00)" and v: "env_var_is_ok env ''DEBUG_MACHINE_OUT'' t00 = (Ok debug, t0)"
    and s: "JailedCracker_spawn env (fc_jailer_binary fc) (fc_firecracker_binary fc) 0 (Some json) (\<not> debug) t0 = (Ok (machine_vm m), t1)"
    and d: "set_machine_config env (machine_vm m) (vcpu_count cfg) (mem_size_mb cfg) t1 = (Ok (), t2)"
      "set_boot env (machine_vm m) (fc_kernel_image fc) (kernel_boot_args debug st) t2 = (Ok (), t3)"
      "set_rootfs env (machine_vm m) (fc_rootfs fc) t3 = (Ok (), t4)" "create_drive env prof (machine_vm m) 8 ''drive0'' t4 = (Ok (), t5)"
      "set_eth_tap env (machine_vm m) (nic st) t5 = (Ok (), t6)" "open_vsock_listener env (machine_vm m) port t6 = (Ok p, t7)"
      "start_vm env (machine_vm m) t7 = (Ok (), t8)"
    and a: "accept_guest env t8 = (Ok (), tr')"
  obtain q where q: "t0 = t00 @ [(EnvVarSet ''DEBUG_MACHINE_OUT'', q)]" "debug = (q = Flag True)" using env_var_Ok [OF v] by blast
  obtain before where "t00 = tr @ before" using r random_vsock_port_Ok [of env prof tr] by (metis prod.inject)
  moreover obtain after where "tr' = t0 @ after"
  proof -
    note extends_Ok [OF s spawn_boot] extends_Ok [OF d(1) driver_boot(6)] extends_Ok [OF d(2) driver_boot(5)]
      extends_Ok [OF d(3) driver_boot(1)] extends_Ok [OF d(4) driver_boot(2)] extends_Ok [OF d(5) driver_boot(3)]
      extends_Ok [OF d(6) driver_boot(4)] extends_Ok [OF d(7) driver_boot(7)]
    then have "extends_by boot_call t0 t8" by (meson extends_by_trans)
    moreover obtain x where "tr' = t8 @ x" using a by (cases "env t8 (AcceptVsock 500)") (auto simp: accept_guest_def perform_def)
    ultimately show thesis using that by (auto simp: extends_by_def)
  qed
  moreover have "api_requests tr' = api_requests tr @ boot_requests cfg st debug"
    using random_vsock_port_requests [OF r] env_var_requests [OF v] spawn_requests [OF s] driver_requests(1) [OF d(1)]
      driver_requests(2) [OF d(2)] driver_requests(3) [OF d(3)] driver_requests(4) [OF d(4)] driver_requests(5) [OF d(5)]
      driver_requests(6) [OF d(6)] driver_requests(7) [OF d(7)] accept_guest_requests [OF a]
    by (simp add: boot_requests_def kernel_boot_args_eq)
  ultimately show ?thesis
    using q by (intro exI [of _ before] exI [of _ q] exI [of _ after]) simp
qed

section \<open>Properties\<close>

text \<open>
  C19. A machine that \<open>Machine::new\<close> returns was set up over the API socket by exactly the
  requests of \<open>boot_requests\<close>, in that order and nothing else: the sizes of the request,
  the kernel command line \<open>boot_command_line\<close> with the address and the gateway of its own
  network stack in dotted decimal notation and the mask of a /30 block, and with a console
  exactly if the variable \<open>DEBUG_MACHINE_OUT\<close> was found to be set, a
  read-only root drive, a scratch drive, its own tap device as \<open>eth0\<close>, the metadata
  service and the vsock, and only then the start of the instance.
\<close>

theorem machine_boot_protocol:
  assumes "Machine_new env prof lib to_json fc config st overrides tr = (Ok m, tr')"
  shows "machine_network m = st \<and>
    (\<exists>before r after. tr' = tr @ before @ (EnvVarSet ''DEBUG_MACHINE_OUT'', r) # after \<and>
       api_requests tr' = api_requests tr @ boot_requests config st (r = Flag True))"
  using assms Machine_boot_requests [of env prof lib to_json fc config st overrides tr m tr']
    Machine_new_Ok(1) [OF assms]
  by (simp add: Machine_new_def on_exit_Ok_iff)

definition sample_fc :: FirecrackerConfig where
  "sample_fc = \<lparr>fc_rootfs = ''rootfs'', fc_kernel_image = ''vmlinux'', fc_jailer_binary = ''jailer'',
     fc_firecracker_binary = ''/usr/bin/firecracker''\<rparr>"

definition sample_config :: MachineConfig where
  "sample_config = \<lparr>container_reference = ''nginx'', vcpu_count = 1, mem_size_mb = 256\<rparr>"

definition sample_stack :: NetworkStack where
  "sample_stack = \<lparr>stack_ipv4_addr = Ipv4Addr 172 16 0 2, stack_gateway = Ipv4Addr 172 16 0 1,
     nic = \<lparr>tap_name = ''tap0''\<rparr>, ip_rule_book = IpRuleBook_new\<rparr>"

definition no_overrides :: ContainerOverrides where
  "no_overrides = \<lparr>override_cmd_args = None, override_env = None\<rparr>"

lemma io_obliging:
  "obliging_host tr c = Done \<Longrightarrow> io obliging_host c tr = (Ok (), tr @ [(c, Done)])"
  by (simp add: io_def perform_def)

lemma request_obliging:
  "request_with_json obliging_host route body tr =
     (Ok (), tr @ [(ApiPut route body, HttpStatus 204)])"
  by (simp add: request_with_json_def perform_def obliging_host_def)

lemma file_name_firecracker: "path_file_name ''/usr/bin/firecracker'' = Some ''firecracker''"
  by code_simp

lemma wait_for_socket_obliging:
  "wait_for_socket obliging_host p 20 tr = tr @ [(PathExists p, Flag True)]"
  using wait_for_socket.simps(2) [of obliging_host p 19 tr]
  by (simp add: perform_def obliging_host_def)

lemma spawn_obliging:
  "\<exists>vm tr'. JailedCracker_spawn obliging_host jb ''/usr/bin/firecracker'' off json np tr = (Ok vm, tr')"
  by (cases json)
    (simp_all add: JailedCracker_spawn_def Let_def file_name_firecracker perform_def io_def
      wait_for_socket_obliging, simp_all add: obliging_host_def)

lemma Machine_new_obliging_json:
  assumes "\<And>port. to_json \<lparr>latest_metadata = \<lparr>meta_container = \<lparr>config_image = container_reference config,
      config_cmd_args = override_cmd_args ov, config_env = override_env ov, config_vsock_port = port\<rparr>\<rparr>\<rparr> = Some (json port)"
  shows "\<exists>m tr'. Machine_new obliging_host Debug lib to_json sample_fc config st ov tr = (Ok m, tr')"
proof -
  obtain port where port: "random_vsock_port obliging_host Debug tr =
      (Ok port, tr @ [(RandomU32, obliging_host tr RandomU32)])"
    by (rule random_vsock_port_Ok)
  let ?tr = "tr @ [(RandomU32, obliging_host tr RandomU32)]"
  let ?v = "EnvVarSet ''DEBUG_MACHINE_OUT''"
  obtain vm tr1 where vm: "JailedCracker_spawn obliging_host ''jailer'' ''/usr/bin/firecracker'' 0
      (Some (json port)) True (?tr @ [(?v, Flag False)]) = (Ok vm, tr1)"
    using spawn_obliging by blast
  have v: "env_var_is_ok obliging_host ''DEBUG_MACHINE_OUT'' x = (Ok False, x @ [(?v, Flag False)])" for x
    by (simp add: env_var_is_ok_def perform_def obliging_host_def)
  have d: "obliging_host x c = Done" if "c \<in> {CopyFile a b, ChownFile a u, CreateFile a, SetLen a l, BindUnixListener a,
      AcceptVsock n}" for x c a b u l n
    using that by (auto simp: obliging_host_def)
  have sp: "JailedCracker_spawn obliging_host (fc_jailer_binary sample_fc) (fc_firecracker_binary sample_fc) 0
      (Some (json port)) True (?tr @ [(?v, Flag False)]) = (Ok vm, tr1)"
    using vm by (simp add: sample_fc_def)
  have "\<exists>m tr'. Machine_boot obliging_host Debug lib to_json sample_fc config st ov tr = (Ok m, tr')"
    unfolding Machine_boot_def port then_try.simps assms option.case v not_False_eq_True sp
    by (simp add: set_machine_config_def set_boot_def set_rootfs_def create_drive_def set_eth_tap_def
      add_network_interface_def config_mmds_def open_vsock_listener_def add_host_vsock_def start_vm_def
      Let_def request_obliging io_obliging d mul_ovf_def accept_guest_def perform_def)
  then show ?thesis by (auto simp: Machine_new_def)
qed

lemma Machine_new_obliging:
  "\<exists>m tr'. Machine_new obliging_host Debug lib (\<lambda>_. Some ''{}'') sample_fc config st ov tr = (Ok m, tr')"
  by (rule Machine_new_obliging_json) (rule refl)

theorem machine_boot_protocol_witness:
  "\<exists>m tr' debug. Machine_new obliging_host Debug list_libs (\<lambda>_. Some ''{}'') sample_fc sample_config
       sample_stack no_overrides [] = (Ok m, tr') \<and>
     machine_network m = sample_stack \<and>
     api_requests tr' = boot_requests sample_config sample_stack debug \<and>
     boot_command_line sample_stack False = ''8250.nr_uarts=0 quiet loglevel=1 reboot=k panic=-1 pci=off '' @
       ''ip=172.16.0.2::172.16.0.1:255.255.255.252::eth0:off''"
proof -
  obtain m tr' where m: "Machine_new obliging_host Debug list_libs (\<lambda>_. Some ''{}'') sample_fc sample_config
       sample_stack no_overrides [] = (Ok m, tr')"
    using Machine_new_obliging by blast
  have "boot_command_line sample_stack False = ''8250.nr_uarts=0 quiet loglevel=1 reboot=k panic=-1 pci=off '' @
      ''ip=172.16.0.2::172.16.0.1:255.255.255.252::eth0:off''"
    by code_simp
  with machine_boot_protocol [OF m] m show ?thesis by auto
qed

text \<open>
  C20. A machine that fails to boot takes its network stack down with it: its rules and its
  tap device are gone. Nothing else is undone: no process is killed and no directory
  removed, so a jailer that was already started keeps running and its jail, with the copied
  images and the scratch drive, stays on disk.
\<close>

theorem failed_boot_drops_stack_only:
  assumes "deletes_succeed env" and "book_ok (ip_rule_book st)"
    and "stack_tap st \<in># taps tr" and "stack_rules st \<subseteq># installed tr"
    and "Machine_new env prof lib to_json fc config st overrides tr = (Err e, tr')"
  shows "installed tr' = installed tr - stack_rules st \<and> taps tr' = taps tr - {#stack_tap st#} \<and>
    (\<exists>evs. tr' = tr @ evs \<and> list_all (\<lambda>(c, _). \<not> cleans_up c) evs)"
proof -
  obtain tr1 where b: "extends_by boot_call tr tr1" and tr': "tr' = NetworkStack_drop env st tr1"
    using Machine_new_not_Ok [OF assms(5)] by auto
  note t = extends_quietly_tables [OF boot_quietly [OF b]]
  have "extends_by (\<lambda>c. \<not> cleans_up c) tr1 tr'"
    unfolding tr' using NetworkStack_drop_calls by (rule extends_by_mono) (auto elim: runs_command.elims)
  moreover have "extends_by (\<lambda>c. \<not> cleans_up c) tr tr1"
    using b by (rule extends_by_mono) (simp add: boot_call_def)
  ultimately have "extends_by (\<lambda>c. \<not> cleans_up c) tr tr'" by (metis extends_by_trans)
  moreover have "stack_tap st \<in># taps tr1" and "stack_rules st \<subseteq># installed tr1" using assms(3,4) t by simp_all
  ultimately show ?thesis
    using NetworkStack_drop_tables [OF assms(1,2), of tr1] t tr'
    by (fastforce simp: extends_by_def list_all_iff)
qed

text \<open>A host whose Firecracker refuses every request.\<close>

definition refusing_host :: env where
  "refusing_host tr c = (case c of ApiPut _ _ \<Rightarrow> HttpStatus 400 | _ \<Rightarrow> obliging_host tr c)"

lemma deletes_succeed_refusing: "deletes_succeed refusing_host"
  by (simp add: deletes_succeed_def refusing_host_def obliging_host_def)

lemma wait_for_socket_refusing:
  "wait_for_socket refusing_host p 20 tr = tr @ [(PathExists p, Flag True)]"
  using wait_for_socket.simps(2) [of refusing_host p 19 tr]
  by (simp add: perform_def refusing_host_def obliging_host_def)

lemma spawn_refusing:
  "\<exists>vm tr'. JailedCracker_spawn refusing_host jb ''/usr/bin/firecracker'' off json np tr = (Ok vm, tr')"
  by (cases json)
    (simp_all add: JailedCracker_spawn_def Let_def file_name_firecracker perform_def io_def
      wait_for_socket_refusing, simp_all add: refusing_host_def obliging_host_def)

lemma Machine_new_refusing:
  "\<exists>e tr'. Machine_new refusing_host Debug lib (\<lambda>_. Some ''{}'') sample_fc config st ov tr = (Err e, tr')"
proof -
  obtain port where port: "random_vsock_port refusing_host Debug tr =
      (Ok port, tr @ [(RandomU32, refusing_host tr RandomU32)])"
    by (rule random_vsock_port_Ok)
  obtain b tr1 where v: "env_var_is_ok refusing_host ''DEBUG_MACHINE_OUT''
      (tr @ [(RandomU32, refusing_host tr RandomU32)]) = (Ok b, tr1)"
    by (simp add: env_var_is_ok_def perform_def)
  obtain vm tr2 where sp: "JailedCracker_spawn refusing_host (fc_jailer_binary sample_fc)
      (fc_firecracker_binary sample_fc) 0 (Some ''{}'') (\<not> b) tr1 = (Ok vm, tr2)"
    using spawn_refusing by (simp add: sample_fc_def) blast
  have "\<exists>e tr'. Machine_boot refusing_host Debug lib (\<lambda>_. Some ''{}'') sample_fc config st ov tr = (Err e, tr')"
    unfolding Machine_boot_def port then_try.simps option.case v sp
    by (simp add: set_machine_config_def request_with_json_def perform_def refusing_host_def)
  then show ?thesis by (auto simp: Machine_new_def)
qed

theorem failed_boot_drops_stack_only_witness:
  "\<exists>tr' e evs. Machine_new refusing_host Debug list_libs (\<lambda>_. Some ''{}'') sample_fc sample_config
       sample_stack no_overrides [(RunCmd ''ip'' [''tuntap'', ''add'', ''tap0'', ''mode'', ''tap''], ExitStatus True)]
       = (Err e, tr') \<and>
     taps tr' = {#} \<and>
     tr' = (RunCmd ''ip'' [''tuntap'', ''add'', ''tap0'', ''mode'', ''tap''], ExitStatus True) # evs \<and>
     list_all (\<lambda>(c, _). \<not> cleans_up c) evs"
proof -
  let ?tr = "[(RunCmd ''ip'' [''tuntap'', ''add'', ''tap0'', ''mode'', ''tap''], ExitStatus True)]"
  obtain e tr' where m: "Machine_new refusing_host Debug list_libs (\<lambda>_. Some ''{}'') sample_fc sample_config
       sample_stack no_overrides ?tr = (Err e, tr')"
    using Machine_new_refusing by blast
  have "stack_tap sample_stack \<in># taps ?tr" "stack_rules sample_stack \<subseteq># installed ?tr"
    "book_ok (ip_rule_book sample_stack)"
    by (simp_all add: sample_stack_def IpRuleBook_new_def book_rules_def book_ok_def taps_def)
  from failed_boot_drops_stack_only [OF deletes_succeed_refusing this(3,1,2) m] m show ?thesis
    by (auto simp: sample_stack_def taps_def)
qed

text \<open>
  C21. Shutting a machine down always gives its network stack back, and the last things it
  does are to kill the jailer and to remove exactly the machine's own jail directory, no
  matter whether the graceful part was asked for, refused, or timed out.
\<close>

theorem shutdown_kills_and_removes:
  assumes "root_path (machine_vm m) = jail_root fc (Machine_uuid m)"
    and "Machine_uuid m \<noteq> []" and "CHR ''/'' \<notin> set (Machine_uuid m)"
  shows "\<exists>tr1 r1 r2. extends_by boot_call tr tr1 \<and>
    Machine_shutdown env bitcode timeout m tr = (Ok (machine_network m),
      tr1 @ [(KillProc (Machine_uuid m), r1),
             (RemoveDirAll (path_join (path_join ''/srv/jailer/'' fc) (Machine_uuid m)), r2)])"
proof -
  have "vm_ok (machine_vm m)" using vm_ok_jail_root assms(1) by blast
  then obtain tr1 dir where "extends_by boot_call tr tr1"
    and d: "path_parent (root_path (machine_vm m)) = Some dir"
    and s: "Machine_shutdown env bitcode timeout m tr =
      (Ok (machine_network m), snd (io env (RemoveDirAll dir) (snd (io env (KillProc (Machine_uuid m)) tr1))))"
    by (rule Machine_shutdown_cases)
  moreover have "dir = path_join (path_join ''/srv/jailer/'' fc) (Machine_uuid m)"
    using d jail_dir [OF assms(2,3), of fc] assms(1) by simp
  ultimately show ?thesis by auto
qed

definition sample_machine :: "(MachineLog list, nat) Machine" where
  "sample_machine = \<lparr>machine_vm = \<lparr>vm_uuid = ''vm0'', root_path = ''/srv/jailer/firecracker/vm0/root'',
     jail_uid = 10000\<rparr>, machine_comm = Some (MachineCommunicator_new list_libs), machine_network = sample_stack\<rparr>"

theorem shutdown_kills_and_removes_witness:
  "\<exists>tr1 r1 r2. extends_by boot_call [] tr1 \<and>
    Machine_shutdown obliging_host (table_codec [Shutdown]) (Some 3000) sample_machine [] = (Ok sample_stack,
      tr1 @ [(KillProc ''vm0'', r1), (RemoveDirAll ''/srv/jailer/firecracker/vm0'', r2)])"
  using shutdown_kills_and_removes [of sample_machine "''firecracker''" "[]" obliging_host
      "table_codec [Shutdown]" "Some 3000"]
  by (simp add: sample_machine_def Machine_uuid_def jail_root_def path_join_def)

end
