(* ===== verification/Ledger.thy ===== *)
theory Ledger
  imports Networking
begin

text \<open>
  What the node manager relies on when it juggles network stacks: a ledger that balances the
  host's tables and the allocator against the stacks that are alive. \<open>I\<close> and \<open>T\<close> are the
  rules and devices that were there before; everything else the host has belongs to a live
  stack, and every live stack owns its slot alone. Each operation on a stack keeps the
  ledger, on every branch.
\<close>

definition ledger ::
  "string list multiset \<Rightarrow> string multiset \<Rightarrow> NetworkManager \<Rightarrow> event list \<Rightarrow> NetworkStack multiset \<Rightarrow> bool"
  where
  "ledger I T nm tr sts \<longleftrightarrow>
     installed tr = I + \<Sum>\<^sub># (image_mset (\<lambda>st. stack_rules st) sts) \<and>
     taps tr = T + image_mset (\<lambda>st. stack_tap st) sts \<and>
     (\<forall>st \<in># sts. book_ok (ip_rule_book st)) \<and>
     checked_pool.exclusive nm (image_mset stack_slot sts)"

lemma ledger_quiet: "ledger I T nm tr sts \<Longrightarrow> extends_quietly tr tr' \<Longrightarrow> ledger I T nm tr' sts"
  using extends_quietly_tables [of tr tr'] by (simp add: ledger_def)

lemma ledger_stack_step:
  assumes "ledger I T nm tr (add_mset st sts)" and "stack_step (st, tr) (st', tr')"
  shows "ledger I T nm tr' (add_mset st' sts)"
proof -
  have s: "installed tr' + stack_rules st = installed tr + stack_rules st'" "taps tr' = taps tr"
    "stack_slot st' = stack_slot st" "book_ok (ip_rule_book st) \<Longrightarrow> book_ok (ip_rule_book st')"
    using assms(2) by (auto simp: stack_step_def)
  have tap: "stack_tap st' = stack_tap st" using s(3) by (simp add: stack_slot_def)
  have "installed tr' + stack_rules st =
      (I + \<Sum>\<^sub># (image_mset (\<lambda>st. stack_rules st) (add_mset st' sts))) + stack_rules st"
    using s(1) assms(1) by (simp add: ledger_def ac_simps)
  then have "installed tr' = I + \<Sum>\<^sub># (image_mset (\<lambda>st. stack_rules st) (add_mset st' sts))" by simp
  with s tap assms(1) show ?thesis by (simp add: ledger_def)
qed

lemma next_slot_exclusive:
  assumes "has_room prof nm" and "checked_pool.exclusive nm used" and "next_slot prof nm = (Ok s, nm')"
  shows "checked_pool.exclusive nm' (add_mset s used)"
proof (cases prof)
  case Debug
  with assms show ?thesis by (blast intro: checked_pool.exclusive_take)
next
  case Release
  with assms show ?thesis by (blast intro: wrapping_pool.exclusive_take)
qed

lemma next_slot_exclusive_failed:
  assumes "checked_pool.exclusive nm used" and "next_slot prof nm = (r, nm')" and "\<not> is_ok r"
  shows "checked_pool.exclusive nm' used"
proof (cases prof)
  case Debug
  with assms show ?thesis by (blast intro: checked_pool.exclusive_take_failed)
next
  case Release
  with assms show ?thesis by (blast intro: wrapping_pool.exclusive_take_failed)
qed

lemma ledger_provision:
  assumes "deletes_succeed env" and "has_room prof nm" and "ledger I T nm tr sts"
    and "provision_stack env prof (nm, tr) = (r, (nm', tr'))"
  shows "case r of Ok st \<Rightarrow> ledger I T nm' tr' (add_mset st sts) | _ \<Rightarrow> ledger I T nm' tr' sts"
proof -
  obtain rs nm1 where n: "next_slot prof nm = (rs, nm1)" by (metis surj_pair)
  have ex: "checked_pool.exclusive nm (image_mset stack_slot sts)" using assms(3) by (simp add: ledger_def)
  show ?thesis
  proof (cases rs)
    case (Ok slot)
    then have new: "NetworkStack_new env slot tr = (r, tr')" and nm': "nm' = nm1"
      using assms(4) n by (auto simp: provision_stack_def split: prod.splits)
    have ex1: "checked_pool.exclusive nm' (add_mset slot (image_mset stack_slot sts))"
      using next_slot_exclusive [OF assms(2) ex] n Ok nm' by simp
    then have ex2: "checked_pool.exclusive nm' (image_mset stack_slot sts)"
      by (rule checked_pool.exclusive_lose) simp
    show ?thesis
    proof (cases r)
      case (Ok st)
      then show ?thesis
        using NetworkStack_new_Ok [of env slot tr st tr'] new ex1 assms(3)
        by (simp add: ledger_def IpRuleBook_new_def book_rules_def book_ok_def)
    qed (use NetworkStack_new_not_Ok [OF assms(1) new] ex2 assms(3) in \<open>auto simp: ledger_def\<close>)
  qed (use assms(3,4) n next_slot_exclusive_failed [OF ex n] in
      \<open>auto simp: provision_stack_def ledger_def\<close>)
qed

lemma ledger_drop:
  assumes "deletes_succeed env" and "ledger I T nm tr (add_mset st sts)"
  shows "ledger I T nm (NetworkStack_drop env st tr) sts"
proof -
  have "stack_tap st \<in># taps tr" and "stack_rules st \<subseteq># installed tr" and "book_ok (ip_rule_book st)"
    using assms(2) by (auto simp: ledger_def)
  note d = NetworkStack_drop_tables [OF assms(1) this(3,1,2)]
  have "checked_pool.exclusive nm (image_mset stack_slot sts)"
    using assms(2) checked_pool.exclusive_lose [of nm "image_mset stack_slot (add_mset st sts)"]
    by (simp add: ledger_def)
  with d assms(2) show ?thesis by (simp add: ledger_def)
qed

lemma ledger_reclaim:
  assumes "deletes_succeed env" and "ledger I T nm tr (add_mset st sts)"
  shows "ledger I T (fst (reclaim env st (nm, tr))) (snd (reclaim env st (nm, tr))) sts"
proof -
  have "checked_pool.exclusive (put_slot (stack_slot st) nm) (image_mset stack_slot sts)"
    using assms(2) by (intro checked_pool.exclusive_put) (simp add: ledger_def)
  with ledger_drop [OF assms] show ?thesis by (simp add: reclaim_eq ledger_def)
qed

text \<open>Two live stacks never share an address block or a device.\<close>

lemma no_dup_distinct: "no_dup (mset xs) \<longleftrightarrow> distinct xs"
  by (induction xs) (auto simp: no_dup_add)

lemma ledger_distinct:
  assumes "ledger I T nm tr (mset sts)"
  shows "distinct (map stack_slot sts)" and "\<forall>st \<in> set sts. stack_slot st \<in> issued_slots nm"
proof -
  have ex: "checked_pool.exclusive nm (mset (map stack_slot sts))" using assms by (simp add: ledger_def)
  show "distinct (map stack_slot sts)"
    using checked_pool.exclusive_no_dup [OF ex] unfolding no_dup_distinct .
  show "\<forall>st \<in> set sts. stack_slot st \<in> issued_slots nm"
    using checked_pool.exclusive_issued [OF ex] by simp
qed

text \<open>The counter advances by at most one, and no operation touches the global rules.\<close>

lemma next_slot_counter:
  assumes "next_slot prof nm = (r, nm')"
  shows "unat (next_id nm') \<le> Suc (unat (next_id nm))" and "global_rules nm' = global_rules nm"
proof -
  have le: "unat (i + 1) \<le> Suc (unat i)" for i :: u16 by (simp add: unat_word_ariths)
  have "nm' = nm \<or> nm' = nm\<lparr>next_id := next_id nm + 1\<rparr> \<or> (\<exists>rs. nm' = nm\<lparr>recovered_slots := rs\<rparr>)"
  proof (cases nm rule: next_slot_cases)
    case exhausted
    then show ?thesis
      using assms next_slot_exhausted(2) [of nm] next_slot_fresh [of nm Release]
      by (cases prof) (auto split: if_splits)
  qed (use assms in \<open>auto simp: next_slot_recovered next_slot_fresh_ok\<close>)
  then show "unat (next_id nm') \<le> Suc (unat (next_id nm))" and "global_rules nm' = global_rules nm"
    using le by auto
qed

lemma provision_stack_counter:
  assumes "provision_stack env prof (nm, tr) = (r, (nm', tr'))"
  shows "unat (next_id nm') \<le> Suc (unat (next_id nm))" and "global_rules nm' = global_rules nm"
proof -
  have "nm' = snd (next_slot prof nm)"
    using assms by (auto simp: provision_stack_def split: prod.splits res.splits)
  then show "unat (next_id nm') \<le> Suc (unat (next_id nm))" and "global_rules nm' = global_rules nm"
    using next_slot_counter [of prof nm] by (metis prod.collapse)+
qed

end
