(* ===== verification/Auth.thy ===== *)
theory Auth
  imports Prelude
begin

text \<open>
  \<open>proto/src/auth.rs\<close>: the JSON web tokens that authorise calls. The \<open>jwt\<close>, \<open>hmac\<close> and
  \<open>sha2\<close> packages are parameters, bundled in \<open>jwt\<close>: building a key from a secret, signing
  claims and verifying a token. The clock is a parameter too: seconds since the epoch, or
  \<open>None\<close> when the system clock lies before it, where \<open>unix_t_s\<close> panics.
\<close>

section \<open>Data and operations\<close>

record RegisteredClaims =
  issuer :: "string option"
  audience :: "string option"
  expiration :: "u64 option"
  subject :: "string option"
  not_before :: "u64 option"
  issued_at :: "u64 option"
  json_web_token_id :: "string option"

record 'key jwt =
  key_from_slice :: "byte list \<Rightarrow> 'key option"
  verify_with_key :: "string \<Rightarrow> 'key \<Rightarrow> RegisteredClaims option"
  sign_with_key :: "RegisteredClaims \<Rightarrow> 'key \<Rightarrow> string option"

fun unwrap :: "'a option \<Rightarrow> ('e, 'a) res" where
  "unwrap (Some a) = Ok a"
| "unwrap None = Panic"

fun bind_res :: "('e, 'a) res \<Rightarrow> ('a \<Rightarrow> ('e, 'b) res) \<Rightarrow> ('e, 'b) res" where
  "bind_res (Ok a) k = k a"
| "bind_res (Err e) k = Err e"
| "bind_res Panic k = Panic"

definition unix_t_s :: "u64 option \<Rightarrow> ('e, u64) res" where
  "unix_t_s clock = unwrap clock"

definition unwrap_or :: "'a \<Rightarrow> 'a option \<Rightarrow> 'a" where
  "unwrap_or d x = (case x of Some a \<Rightarrow> a | None \<Rightarrow> d)"

definition validate_authentication ::
  "'key jwt \<Rightarrow> u64 option \<Rightarrow> string \<Rightarrow> 'key \<Rightarrow> string option \<Rightarrow> ('e, bool) res" where
  "validate_authentication jwt clock token secret expected_audience =
     (case verify_with_key jwt token secret of
        None \<Rightarrow> Ok False
      | Some claims \<Rightarrow>
          if expected_audience \<noteq> audience claims then Ok False
          else bind_res (unix_t_s clock) (\<lambda>t.
                 Ok (t < unwrap_or 0 (expiration claims) \<and> t > unwrap_or 0 (not_before claims))))"

definition validate_authentication_secrets_as_bytes ::
  "'key jwt \<Rightarrow> u64 option \<Rightarrow> string \<Rightarrow> byte list \<Rightarrow> string option \<Rightarrow> ('e, bool) res" where
  "validate_authentication_secrets_as_bytes jwt clock token secret expected_audience =
     bind_res (unwrap (key_from_slice jwt secret)) (\<lambda>secret.
       validate_authentication jwt clock token secret expected_audience)"

definition sign_token ::
  "'key jwt \<Rightarrow> profile \<Rightarrow> u64 option \<Rightarrow> 'key \<Rightarrow> string option \<Rightarrow> ('e, string) res" where
  "sign_token jwt prof clock secret aud =
     bind_res (unix_t_s clock) (\<lambda>t.
     bind_res (add_ovf prof t (60 * 60)) (\<lambda>expiry.
     bind_res (sub_ovf prof t 60) (\<lambda>start.
       unwrap (sign_with_key jwt
         \<lparr>issuer = None, audience = aud, expiration = Some expiry, subject = None,
          not_before = Some start, issued_at = Some t, json_web_token_id = None\<rparr> secret))))"

definition sign_token_bytes ::
  "'key jwt \<Rightarrow> profile \<Rightarrow> u64 option \<Rightarrow> byte list \<Rightarrow> string option \<Rightarrow> ('e, string) res" where
  "sign_token_bytes jwt prof clock secret aud =
     bind_res (unwrap (key_from_slice jwt secret)) (\<lambda>secret. sign_token jwt prof clock secret aud)"

section \<open>What the token library promises\<close>

text \<open>Signing gives a token that verifies, under the same key, to the claims that were signed.\<close>

definition jwt_signs :: "'key jwt \<Rightarrow> bool" where
  "jwt_signs jwt \<longleftrightarrow>
     (\<forall>claims key token. sign_with_key jwt claims key = Some token \<longrightarrow>
        verify_with_key jwt token key = Some claims)"

section \<open>Facts\<close>

lemma unwrap_or_less_iff: "(t :: u64) < unwrap_or 0 x \<longleftrightarrow> (\<exists>e. x = Some e \<and> t < e)"
  by (cases x) (auto simp: unwrap_or_def)

lemma bind_res_Ok_iff [res_simps]: "bind_res r k = Ok b \<longleftrightarrow> (\<exists>a. r = Ok a \<and> k a = Ok b)"
  by (cases r) auto

lemma sign_token_Ok:
  assumes "sign_token jwt prof (Some t) secret aud = Ok token"
    and "60 \<le> unat t" and "unat t + 3600 < 2 ^ 64"
  shows "sign_with_key jwt
      \<lparr>issuer = None, audience = aud, expiration = Some (t + 3600), subject = None,
       not_before = Some (t - 60), issued_at = Some t, json_web_token_id = None\<rparr> secret = Some token"
  using assms
  by (auto simp: sign_token_def unix_t_s_def add_ovf_def sub_ovf_def elim!: unwrap.elims)

lemma word_window:
  assumes "60 \<le> unat (t :: u64)" and "unat t + 3600 < 2 ^ 64"
  shows "t' < t + 3600 \<longleftrightarrow> unat t' < unat t + 3600" and "t - 60 < t' \<longleftrightarrow> unat t < unat t' + 60"
proof -
  have "unat (t + 3600) = unat t + 3600"
    using assms(2) by (simp add: unat_word_ariths)
  then show "t' < t + 3600 \<longleftrightarrow> unat t' < unat t + 3600" by (simp add: word_less_nat_alt)
  have "unat (t - 60) = unat t - 60"
    using assms(1) by (simp add: unat_sub word_le_nat_alt)
  then show "t - 60 < t' \<longleftrightarrow> unat t < unat t' + 60" using assms(1) by (auto simp: word_less_nat_alt)
qed

text \<open>
  A concrete signer for instances: the key is a string, and the token is the key and a
  textual form of the two times and the audience.
\<close>

fun table_sign :: "(RegisteredClaims \<times> string) list \<Rightarrow> RegisteredClaims \<Rightarrow> string \<Rightarrow> string option" where
  "table_sign [] c k = None"
| "table_sign ((c', k') # xs) c k =
     (if c = c' \<and> k = k' then Some (dec_string (length xs)) else table_sign xs c k)"

fun table_verify :: "(RegisteredClaims \<times> string) list \<Rightarrow> string \<Rightarrow> string \<Rightarrow> RegisteredClaims option" where
  "table_verify [] tok k = None"
| "table_verify ((c', k') # xs) tok k =
     (if tok = dec_string (length xs) then (if k = k' then Some c' else None) else table_verify xs tok k)"

definition table_jwt :: "(RegisteredClaims \<times> string) list \<Rightarrow> string jwt" where
  "table_jwt xs =
     \<lparr>key_from_slice = (\<lambda>bs. Some (map (\<lambda>b. char_of (unat b)) bs)),
      verify_with_key = table_verify xs, sign_with_key = table_sign xs\<rparr>"

lemma table_sign_less: "table_sign xs c k = Some tok \<Longrightarrow> \<exists>n < length xs. tok = dec_string n"
proof (induction xs)
  case (Cons x xs)
  obtain c' k' where x: "x = (c', k')" by (cases x)
  show ?case
  proof (cases "c = c' \<and> k = k'")
    case True
    with Cons.prems x show ?thesis by (intro exI [of _ "length xs"]) auto
  next
    case False
    with Cons.prems x have "table_sign xs c k = Some tok" by auto
    with Cons.IH show ?thesis by (auto intro: less_SucI)
  qed
qed simp

lemma jwt_signs_table: "jwt_signs (table_jwt xs)"
proof -
  have "table_sign xs c k = Some tok \<Longrightarrow> table_verify xs tok k = Some c" for c k tok
  proof (induction xs)
    case (Cons x xs)
    obtain c' k' where x: "x = (c', k')" by (cases x)
    show ?case
    proof (cases "c = c' \<and> k = k'")
      case False
      with Cons.prems x have s: "table_sign xs c k = Some tok" by auto
      then obtain n where "n < length xs" and "tok = dec_string n" using table_sign_less by blast
      then have "tok \<noteq> dec_string (length xs)" by (auto dest: dec_string_inj)
      with Cons.IH [OF s] x show ?thesis by simp
    qed (use Cons.prems x in auto)
  qed simp
  then show ?thesis by (simp add: jwt_signs_def table_jwt_def)
qed

section \<open>Properties\<close>

text \<open>
  C26. Which tokens are accepted, exactly: those that verify under the secret, carry the
  expected audience (none where none is expected), have an expiry in the future, and whose
  start time, if they have one, is strictly in the past. A token without an expiry is
  never accepted.
\<close>

theorem token_accepted_iff:
  "validate_authentication jwt (Some t) token secret expected = (Ok True :: ('e, bool) res) \<longleftrightarrow>
     (\<exists>claims expiry. verify_with_key jwt token secret = Some claims \<and>
        audience claims = expected \<and>
        expiration claims = Some expiry \<and> t < expiry \<and>
        (case not_before claims of Some start \<Rightarrow> start < t | None \<Rightarrow> 0 < t))"
  by (cases "verify_with_key jwt token secret")
    (auto simp: validate_authentication_def unix_t_s_def unwrap_or_less_iff unwrap_or_def
      split: option.split)

text \<open>
  C27. A token signed at time \<open>t\<close> for an audience is accepted at time \<open>t'\<close> for that
  audience exactly from one minute before it was signed until one hour after, both ends
  excluded; and for no other audience.
\<close>

theorem signed_token_window:
  assumes "jwt_signs jwt" and "60 \<le> unat t" and "unat t + 3600 < 2 ^ 64"
    and "sign_token jwt prof (Some t) secret aud = (Ok token :: ('e, string) res)"
  shows "validate_authentication jwt (Some t') token secret expected = (Ok True :: ('e, bool) res) \<longleftrightarrow>
     expected = aud \<and> unat t < unat t' + 60 \<and> unat t' < unat t + 3600"
proof -
  have "verify_with_key jwt token secret = Some
      \<lparr>issuer = None, audience = aud, expiration = Some (t + 3600), subject = None,
       not_before = Some (t - 60), issued_at = Some t, json_web_token_id = None\<rparr>"
    using assms(1) sign_token_Ok [OF assms(4,2,3)] by (auto simp: jwt_signs_def)
  then show ?thesis
    using word_window [OF assms(2,3), of t']
    by (auto simp: validate_authentication_def unix_t_s_def unwrap_or_def)
qed

definition sample_claims :: RegisteredClaims where
  "sample_claims = \<lparr>issuer = None, audience = Some ''my_aud'', expiration = Some 4600, subject = None,
     not_before = Some 940, issued_at = Some 1000, json_web_token_id = None\<rparr>"

theorem signed_token_window_witness:
  "sign_token (table_jwt [(sample_claims, ''secret'')]) Debug (Some 1000) ''secret'' (Some ''my_aud'')
     = (Ok ''0'' :: (unit, string) res) \<and>
   validate_authentication (table_jwt [(sample_claims, ''secret'')]) (Some 4599) ''0'' ''secret'' (Some ''my_aud'')
     = (Ok True :: (unit, bool) res) \<and>
   validate_authentication (table_jwt [(sample_claims, ''secret'')]) (Some 4600) ''0'' ''secret'' (Some ''my_aud'')
     \<noteq> (Ok True :: (unit, bool) res)"
proof -
  have s: "sign_token (table_jwt [(sample_claims, ''secret'')]) Debug (Some 1000) ''secret'' (Some ''my_aud'')
     = (Ok ''0'' :: (unit, string) res)"
    by (simp add: sign_token_def unix_t_s_def add_ovf_def sub_ovf_def table_jwt_def sample_claims_def
        dec_string_0)
  note w = signed_token_window [OF jwt_signs_table _ _ s]
  show ?thesis using s w [of 4599 "Some ''my_aud''"] w [of 4600 "Some ''my_aud''"] by simp
qed

end
