(* ===== verification/Manager.thy ===== *)
theory Manager
  imports Machine Ledger Auth
begin

text \<open>
  \<open>nodemanager/src/manager.rs\<close>: the node manager. Its state is the map of live machines and
  the network manager; every RPC and every background task is one definition that
  transforms the whole state. The machines are behind one \<open>RwLock\<close> that provisioning,
  deprovisioning and draining hold for their whole duration, and a machine's network stack
  has its own mutex, so each of them is one step; \<open>step\<close> and \<open>reachable\<close> interleave
  the steps in any order.

  The hash map is an association list with distinct keys; the order in which it is iterated
  is the parameter \<open>node_hash_order\<close>. The other parameters are the host, the build profile
  and the third-party packages, bundled in \<open>node\<close>.
\<close>

section \<open>Data\<close>

record ('b, 'tx, 'rx, 'c, 'key) node =
  node_host :: env
  node_profile :: profile
  node_libs :: "('b, 'tx, 'rx, 'c) libs"
  node_json :: "Latest \<Rightarrow> string option"
  node_codec :: "HostPacket codec"
  node_jwt :: "'key jwt"
  node_parse_uuid :: "string \<Rightarrow> 128 word option"
  node_hash_order :: "(string \<times> ('b, 'tx) Machine) list \<Rightarrow> (string \<times> ('b, 'tx) Machine) list"

record ManagerConfig =
  firecracker_config :: FirecrackerConfig
  public_network_interface :: string
  service_network_interface :: string

record ('b, 'tx) InnerNodeManager =
  manager_config :: ManagerConfig
  machines :: "(string \<times> ('b, 'tx) Machine) list"
  network :: NetworkManager
  machine_state_subscription :: bool

text \<open>
  The node manager with its secret, and what surrounds it: the host's history, the state of
  all channels, the clean-up tasks that wait for a machine's exit, and the exits sent to the
  subscriber.
\<close>

record ('b, 'tx, 'c, 'key) world = "('b, 'tx) InnerNodeManager" +
  authentication_secret :: "'key option"
  history :: "event list"
  channels :: 'c
  cleanup_tasks :: "string list"
  notified :: "(128 word \<times> MachineExit) list"

record ProvisionRequest =
  req_container_reference :: string
  req_vcpus :: i32
  req_memory_mb :: i32
  req_cmd_args :: "string list"
  req_env :: "(string \<times> string) list"

record DeprovisionRequest =
  dep_instance_id :: string
  timeout_millis :: i32

record PublishServicePortRequest =
  pub_id :: string
  pub_guest_port :: i32
  pub_host_port :: i32

datatype Status = Unauthenticated string | Internal string | NotFound string | InvalidArgument string

section \<open>The inner manager\<close>

text \<open>
  The part of \<open>_provision\<close> up to \<open>Machine::new\<close>: the stack is owned by the local variable
  until it is moved into the machine.
\<close>

definition request_overrides :: "ProvisionRequest \<Rightarrow> ContainerOverrides" where
  "request_overrides request =
     \<lparr>override_cmd_args = (if length (req_cmd_args request) > 0 then Some (req_cmd_args request) else None),
      override_env = (if length (req_env request) > 0 then Some (btree_collect (req_env request)) else None)\<rparr>"

definition request_machine_config :: "ProvisionRequest \<Rightarrow> MachineConfig" where
  "request_machine_config request =
     \<lparr>container_reference = req_container_reference request, vcpu_count = ucast (req_vcpus request),
      mem_size_mb = req_memory_mb request\<rparr>"

definition start_machine ::
  "('b, 'tx, 'rx, 'c, 'key) node \<Rightarrow> ManagerConfig \<Rightarrow> ProvisionRequest \<Rightarrow> NetworkManager \<times> event list
     \<Rightarrow> (error, ('b, 'tx) Machine) res \<times> (NetworkManager \<times> event list)" where
  "start_machine N cfg request s =
     then_try (provision_stack (node_host N) (node_profile N) s) (\<lambda>network_stack (nm, tr).
       (case setup_public_nat (node_host N) (public_network_interface cfg) (network_stack, tr) of
          (Ok _, (st, tr)) \<Rightarrow>
            (case Machine_new (node_host N) (node_profile N) (node_libs N) (node_json N)
                    (firecracker_config cfg) (request_machine_config request) st
                    (request_overrides request) tr of
               (r, tr) \<Rightarrow> (r, (nm, tr)))
        | (Err e, (st, tr)) \<Rightarrow> (Err e, (nm, NetworkStack_drop (node_host N) st tr))
        | (Panic, (st, tr)) \<Rightarrow> (Panic, (nm, NetworkStack_drop (node_host N) st tr))))"

text \<open>\<open>HashMap::insert\<close>: a machine that was there under the same key is dropped.\<close>

definition insert_machine ::
  "env \<Rightarrow> string \<Rightarrow> ('b, 'tx) Machine \<Rightarrow> ('b, 'tx, 'c, 'key) world \<Rightarrow> ('b, 'tx, 'c, 'key) world" where
  "insert_machine env uuid m w =
     w\<lparr>machines := AList.update uuid m (machines w),
       history := (case map_of (machines w) uuid of
                     Some old \<Rightarrow> NetworkStack_drop env (machine_network old) (history w)
                   | None \<Rightarrow> history w)\<rparr>"

definition provision_inner ::
  "('b, 'tx, 'rx, 'c, 'key) node \<Rightarrow> ProvisionRequest \<Rightarrow> ('b, 'tx, 'c, 'key) world
     \<Rightarrow> (error, string) res \<times> ('b, 'tx, 'c, 'key) world" where
  "provision_inner N request w =
     (case start_machine N (manager_config w) request (network w, history w) of
        (r, (nm, tr)) \<Rightarrow>
          then_try (r, w\<lparr>network := nm, history := tr\<rparr>) (\<lambda>machine w.
            (let uuid = Machine_uuid machine;
                 w = insert_machine (node_host N) uuid machine w
             in (Ok uuid, w\<lparr>cleanup_tasks := cleanup_tasks w @ [uuid]\<rparr>))))"

definition deprovision_inner ::
  "('b, 'tx, 'rx, 'c, 'key) node \<Rightarrow> string \<Rightarrow> nat option \<Rightarrow> ('b, 'tx, 'c, 'key) world
     \<Rightarrow> (error, unit) res \<times> ('b, 'tx, 'c, 'key) world" where
  "deprovision_inner N i graceful_timeout w =
     (case map_of (machines w) i of
        None \<Rightarrow> (Ok (), w)
      | Some machine \<Rightarrow>
          (case Machine_shutdown (node_host N) (node_codec N) graceful_timeout machine (history w) of
             (r, tr) \<Rightarrow>
               then_try (r, w\<lparr>machines := AList.delete i (machines w), history := tr\<rparr>) (\<lambda>network_stack w.
                 (case reclaim (node_host N) network_stack (network w, history w) of
                    (nm, tr) \<Rightarrow> (Ok (), w\<lparr>network := nm, history := tr\<rparr>)))))"

text \<open>
  \<open>notified\<close> is what the clean-up tasks handed to the subscription channel, in order. The result
  of \<open>send\<close> is ignored, so a closed channel changes nothing else; a task that waits for room in a
  full channel is one whose step has not happened yet.
\<close>

definition handle_machine_exit ::
  "('b, 'tx, 'rx, 'c, 'key) node \<Rightarrow> string \<Rightarrow> MachineExit \<Rightarrow> ('b, 'tx, 'c, 'key) world
     \<Rightarrow> (error, unit) res \<times> ('b, 'tx, 'c, 'key) world" where
  "handle_machine_exit N i exit_code w =
     (if machine_state_subscription w then
        (case node_parse_uuid N i of
           None \<Rightarrow> (Panic, w)
         | Some uuid \<Rightarrow> deprovision_inner N i None (w\<lparr>notified := notified w @ [(uuid, exit_code)]\<rparr>))
      else deprovision_inner N i None w)"

text \<open>
  The loop of \<open>_drain\<close> over \<open>machines.drain()\<close>. If it is left by a panic, the iterator's
  destructor drops the machines that are left.
\<close>

fun drain_machines ::
  "env \<Rightarrow> HostPacket codec \<Rightarrow> (string \<times> ('b, 'tx) Machine) list \<Rightarrow> NetworkManager \<times> event list
     \<Rightarrow> (error, unit) res \<times> (NetworkManager \<times> event list)" where
  "drain_machines env bitcode [] s = (Ok (), s)"
| "drain_machines env bitcode ((_, machine) # ms) (nm, tr) =
     (case Machine_shutdown env bitcode (Some 3000) machine tr of
        (Ok st, tr) \<Rightarrow> drain_machines env bitcode ms (reclaim env st (nm, tr))
      | (Err e, tr) \<Rightarrow> (Err e, (nm, fold (\<lambda>(_, m). NetworkStack_drop env (machine_network m)) ms tr))
      | (Panic, tr) \<Rightarrow> (Panic, (nm, fold (\<lambda>(_, m). NetworkStack_drop env (machine_network m)) ms tr)))"

definition drain_inner ::
  "('b, 'tx, 'rx, 'c, 'key) node \<Rightarrow> ('b, 'tx, 'c, 'key) world \<Rightarrow> (error, unit) res \<times> ('b, 'tx, 'c, 'key) world"
  where
  "drain_inner N w =
     (case drain_machines (node_host N) (node_codec N) (node_hash_order N (machines w)) (network w, history w) of
        (r, (nm, tr)) \<Rightarrow> (r, w\<lparr>machines := [], network := nm, history := tr\<rparr>))"

section \<open>The service\<close>

text \<open>
  \<open>NodeManager::new\<close>. If the secret is not a key the constructor panics; the manager, which
  the waiting shutdown task still shares, is dropped with that task.
\<close>

definition NodeManager_new ::
  "('b, 'tx, 'rx, 'c, 'key) node \<Rightarrow> ManagerConfig \<Rightarrow> byte list option \<Rightarrow> bool \<Rightarrow> event list \<Rightarrow> 'c
     \<Rightarrow> (error, ('b, 'tx, 'c, 'key) world) res \<times> event list" where
  "NodeManager_new N config secret subscription tr ch =
     then_try (NetworkManager_new (node_host N) tr) (\<lambda>nm tr.
       (let start = (\<lambda>key. \<lparr>manager_config = config, machines = [], network = nm,
               machine_state_subscription = subscription, authentication_secret = key, history = tr,
               channels = ch, cleanup_tasks = [], notified = []\<rparr>)
        in case secret of
             None \<Rightarrow> (Ok (start None), tr)
           | Some s \<Rightarrow>
               (case key_from_slice (node_jwt N) s of
                  Some key \<Rightarrow> (Ok (start (Some key)), tr)
                | None \<Rightarrow> (Panic, NetworkManager_drop (node_host N) nm tr))))"

text \<open>
  The token is the value of the metadata entry \<open>auth\<close> when it is there and is visible ASCII.
\<close>

definition validate_auth ::
  "('b, 'tx, 'rx, 'c, 'key) node \<Rightarrow> u64 option \<Rightarrow> string option \<Rightarrow> string option \<Rightarrow> ('b, 'tx, 'c, 'key) world
     \<Rightarrow> (Status, unit) res \<times> ('b, 'tx, 'c, 'key) world" where
  "validate_auth N clock auth expected_audience w =
     (case authentication_secret w of
        None \<Rightarrow> (Ok (), w)
      | Some secret \<Rightarrow>
          (case validate_authentication (node_jwt N) clock (unwrap_or [] auth) secret expected_audience of
             Ok True \<Rightarrow> (Ok (), w)
           | Ok False \<Rightarrow> (Err (Unauthenticated ''Invalid authentication token''), w)
           | Err e \<Rightarrow> (Err e, w)
           | Panic \<Rightarrow> (Panic, w)))"

definition provision ::
  "('b, 'tx, 'rx, 'c, 'key) node \<Rightarrow> u64 option \<Rightarrow> string option \<Rightarrow> ProvisionRequest \<Rightarrow> ('b, 'tx, 'c, 'key) world
     \<Rightarrow> (Status, string) res \<times> ('b, 'tx, 'c, 'key) world" where
  "provision N clock auth request w =
     then_try (validate_auth N clock auth None w) (\<lambda>_ w.
       (case provision_inner N request w of
          (r, w) \<Rightarrow> (map_err (\<lambda>_. Internal ''Failed to provision machine'') r, w)))"

definition deprovision ::
  "('b, 'tx, 'rx, 'c, 'key) node \<Rightarrow> u64 option \<Rightarrow> string option \<Rightarrow> DeprovisionRequest \<Rightarrow> ('b, 'tx, 'c, 'key) world
     \<Rightarrow> (Status, unit) res \<times> ('b, 'tx, 'c, 'key) world" where
  "deprovision N clock auth request w =
     then_try (validate_auth N clock auth (Some (dep_instance_id request)) w) (\<lambda>_ w.
       (let timeout = (if sint (timeout_millis request) > 0 then Some (unat (timeout_millis request)) else None)
        in case deprovision_inner N (dep_instance_id request) timeout w of
             (r, w) \<Rightarrow> (map_err (\<lambda>_. Internal ''Failed to deprovision machine'') r, w)))"

text \<open>
  The response stream first carries the lines so far and then what arrives on the
  subscription; it is represented by these two.
\<close>

definition stream_logs ::
  "('b, 'tx, 'rx, 'c, 'key) node \<Rightarrow> u64 option \<Rightarrow> string option \<Rightarrow> string \<Rightarrow> ('b, 'tx, 'c, 'key) world
     \<Rightarrow> (Status, ProtoLogMessage list \<times> 'rx) res \<times> ('b, 'tx, 'c, 'key) world" where
  "stream_logs N clock auth i w =
     then_try (validate_auth N clock auth (Some i) w) (\<lambda>_ w.
       (case map_of (machines w) i of
          None \<Rightarrow> (Err (NotFound ''Machine not found''), w)
        | Some machine \<Rightarrow>
            (case get_and_subscribe_to_logs (node_libs N) (machine, channels w) of
               (r, (machine, ch)) \<Rightarrow>
                 then_try (map_err (\<lambda>_. Internal ''Failed to get logs'') r,
                     w\<lparr>machines := AList.update i machine (machines w), channels := ch\<rparr>)
                   (\<lambda>(logs, rx) w. (Ok (map as_proto_log_message logs, rx), w)))))"

definition list_instances ::
  "('b, 'tx, 'rx, 'c, 'key) node \<Rightarrow> u64 option \<Rightarrow> string option \<Rightarrow> ('b, 'tx, 'c, 'key) world
     \<Rightarrow> (Status, string list) res \<times> ('b, 'tx, 'c, 'key) world" where
  "list_instances N clock auth w =
     then_try (validate_auth N clock auth None w) (\<lambda>_ w.
       (Ok (map fst (node_hash_order N (machines w))), w))"

definition get_logs ::
  "('b, 'tx, 'rx, 'c, 'key) node \<Rightarrow> u64 option \<Rightarrow> string option \<Rightarrow> string \<Rightarrow> ('b, 'tx, 'c, 'key) world
     \<Rightarrow> (Status, ProtoLogMessage list) res \<times> ('b, 'tx, 'c, 'key) world" where
  "get_logs N clock auth i w =
     then_try (validate_auth N clock auth (Some i) w) (\<lambda>_ w.
       (case map_of (machines w) i of
          None \<Rightarrow> (Err (NotFound ''Machine not found''), w)
        | Some machine \<Rightarrow>
            then_try (map_err (\<lambda>_. Internal ''Failed to get logs'') (Machine_get_logs (node_libs N) machine), w)
              (\<lambda>logs w. (Ok (map as_proto_log_message logs), w))))"

text \<open>\<open>u16::try_from\<close> of an \<open>i32\<close>.\<close>

definition u16_try_from :: "i32 \<Rightarrow> u16 option" where
  "u16_try_from x = (if 0 \<le> sint x \<and> sint x \<le> 65535 then Some (ucast x) else None)"

definition publish_service_port ::
  "('b, 'tx, 'rx, 'c, 'key) node \<Rightarrow> u64 option \<Rightarrow> string option \<Rightarrow> PublishServicePortRequest
     \<Rightarrow> ('b, 'tx, 'c, 'key) world \<Rightarrow> (Status, unit) res \<times> ('b, 'tx, 'c, 'key) world" where
  "publish_service_port N clock auth request w =
     then_try (validate_auth N clock auth (Some (pub_id request)) w) (\<lambda>_ w.
       (case u16_try_from (pub_host_port request) of
          None \<Rightarrow> (Err (InvalidArgument ''Invalid host port''), w)
        | Some host_port \<Rightarrow>
       (case u16_try_from (pub_guest_port request) of
          None \<Rightarrow> (Err (InvalidArgument ''Invalid guest port''), w)
        | Some guest_port \<Rightarrow>
       (case map_of (machines w) (pub_id request) of
          None \<Rightarrow> (Err (NotFound ''Machine not found''), w)
        | Some machine \<Rightarrow>
            (case setup_forwarding (node_host N) (service_network_interface (manager_config w)) host_port
                    guest_port (machine_network machine, history w) of
               (r, (st, tr)) \<Rightarrow>
                 (map_err (\<lambda>_. Internal ''Failed to publish service port'') r,
                  w\<lparr>machines := AList.update (pub_id request) (machine\<lparr>machine_network := st\<rparr>) (machines w),
                    history := tr\<rparr>))))))"

definition drain_rpc ::
  "('b, 'tx, 'rx, 'c, 'key) node \<Rightarrow> u64 option \<Rightarrow> string option \<Rightarrow> ('b, 'tx, 'c, 'key) world
     \<Rightarrow> (Status, unit) res \<times> ('b, 'tx, 'c, 'key) world" where
  "drain_rpc N clock auth w =
     then_try (validate_auth N clock auth None w) (\<lambda>_ w.
       (case drain_inner N w of (r, w) \<Rightarrow> (map_err (\<lambda>_. Internal ''Failed to drain node'') r, w)))"

section \<open>Steps and reachable states\<close>

text \<open>
  What can happen to a running manager: a call of the service (with the clock and the token
  it is made with), a packet that a guest's packet handler processes, the end of a packet
  handler, which fires the machine's clean-up task, and the shutdown signal.
\<close>

datatype op =
    OpProvision "u64 option" "string option" ProvisionRequest
  | OpDeprovision "u64 option" "string option" DeprovisionRequest
  | OpStreamLogs "u64 option" "string option" string
  | OpListInstances "u64 option" "string option"
  | OpGetLogs "u64 option" "string option" string
  | OpPublishServicePort "u64 option" "string option" PublishServicePortRequest
  | OpDrain "u64 option" "string option"
  | GuestSends string GuestPacket
  | MachineExits string MachineExit bool
  | ShutdownSignal

definition update_comm ::
  "string \<Rightarrow> (('b, 'tx) MachineCommunicator \<times> 'c \<Rightarrow> ('b, 'tx) MachineCommunicator \<times> 'c)
     \<Rightarrow> ('b, 'tx, 'c, 'key) world \<Rightarrow> ('b, 'tx, 'c, 'key) world" where
  "update_comm i f w =
     (case map_of (machines w) i of
        None \<Rightarrow> w
      | Some m \<Rightarrow>
          (case machine_comm m of
             None \<Rightarrow> w
           | Some h \<Rightarrow>
               (case f (h, channels w) of
                  (h', ch) \<Rightarrow>
                    w\<lparr>machines := AList.update i (m\<lparr>machine_comm := Some h'\<rparr>) (machines w), channels := ch\<rparr>)))"

fun step :: "('b, 'tx, 'rx, 'c, 'key) node \<Rightarrow> op \<Rightarrow> ('b, 'tx, 'c, 'key) world \<Rightarrow> ('b, 'tx, 'c, 'key) world"
  where
  "step N (OpProvision clock auth request) w = snd (provision N clock auth request w)"
| "step N (OpDeprovision clock auth request) w = snd (deprovision N clock auth request w)"
| "step N (OpStreamLogs clock auth i) w = snd (stream_logs N clock auth i w)"
| "step N (OpListInstances clock auth) w = snd (list_instances N clock auth w)"
| "step N (OpGetLogs clock auth i) w = snd (get_logs N clock auth i w)"
| "step N (OpPublishServicePort clock auth request) w = snd (publish_service_port N clock auth request w)"
| "step N (OpDrain clock auth) w = snd (drain_rpc N clock auth w)"
| "step N (GuestSends i packet) w = update_comm i (\<lambda>s. snd (handle_packets (node_libs N) [packet] s)) w"
| "step N (MachineExits i exit_code lock_free) w =
     (if i \<in> set (cleanup_tasks w) then
        (let w = w\<lparr>cleanup_tasks := remove1 i (cleanup_tasks w)\<rparr>;
             w = (if lock_free then update_comm i (\<lambda>(h, ch). (drop_subscribers h, ch)) w else w)
         in snd (handle_machine_exit N i exit_code w))
      else w)"
| "step N ShutdownSignal w = snd (drain_inner N w)"

fun is_provision :: "op \<Rightarrow> bool" where
  "is_provision (OpProvision _ _ _) = True"
| "is_provision _ = False"

text \<open>\<open>reachable N tr0 n w\<close>: some run from the history \<open>tr0\<close>, with \<open>n\<close> calls of \<open>Provision\<close>, ends in \<open>w\<close>.\<close>

inductive reachable ::
  "('b, 'tx, 'rx, 'c, 'key) node \<Rightarrow> event list \<Rightarrow> nat \<Rightarrow> ('b, 'tx, 'c, 'key) world \<Rightarrow> bool"
  for N :: "('b, 'tx, 'rx, 'c, 'key) node" and tr0 :: "event list" where
  init: "NodeManager_new N config secret subscription tr0 ch = (Ok w, tr) \<Longrightarrow> reachable N tr0 0 w"
| move: "reachable N tr0 n w \<Longrightarrow> reachable N tr0 (if is_provision op then Suc n else n) (step N op w)"

end
