(* ===== verification/Manager_Invariant.thy ===== *)
theory Manager_Invariant
  imports Manager
begin

text \<open>
  The invariant of the node manager: the ledger of \<open>Ledger\<close> over the stacks of the live
  machines, in every reachable state.
\<close>

section \<open>The invariant\<close>

abbreviation entry_stack :: "string \<times> ('b, 'tx) Machine \<Rightarrow> NetworkStack" where
  "entry_stack e \<equiv> machine_network (snd e)"

abbreviation entry_stacks :: "(string \<times> ('b, 'tx) Machine) list \<Rightarrow> NetworkStack multiset" where
  "entry_stacks ms \<equiv> image_mset entry_stack (mset ms)"

definition entries_ok :: "(string \<times> ('b, 'tx) Machine) list \<Rightarrow> bool" where
  "entries_ok ms \<longleftrightarrow> distinct (map fst ms) \<and> (\<forall>e \<in># mset ms. vm_ok (machine_vm (snd e)))"

definition manager_inv ::
  "string list multiset \<Rightarrow> string multiset \<Rightarrow> IpRuleBook \<Rightarrow> nat \<Rightarrow> ('b, 'tx, 'c, 'key) world \<Rightarrow> bool" where
  "manager_inv I T G n w \<longleftrightarrow>
     entries_ok (machines w) \<and>
     ledger (I + book_rules G) T (network w) (history w) (entry_stacks (machines w)) \<and>
     global_rules (network w) = G \<and> unat (next_id (network w)) \<le> n"

lemma entries_ok_delete: "entries_ok ms \<Longrightarrow> entries_ok (AList.delete i ms)"
  using distinct_delete [of ms i] by (auto simp: entries_ok_def AList.delete_eq)

lemma entries_ok_update: "entries_ok ms \<Longrightarrow> vm_ok (machine_vm m) \<Longrightarrow> entries_ok (AList.update i m ms)"
  using entries_ok_delete [of ms i] by (simp add: entries_ok_def mset_alist_update distinct_update)

lemma entries_ok_lookup: "entries_ok ms \<Longrightarrow> map_of ms i = Some m \<Longrightarrow> vm_ok (machine_vm m)"
  by (force simp: entries_ok_def dest: map_of_SomeD)

lemma entry_stacks_split:
  "entries_ok ms \<Longrightarrow> map_of ms i = Some m \<Longrightarrow>
     entry_stacks ms = add_mset (machine_network m) (entry_stacks (AList.delete i ms))"
  using mset_alist_split [of ms i m] by (simp add: entries_ok_def)

lemma entry_stacks_update:
  "entries_ok ms \<Longrightarrow>
     entry_stacks (AList.update i m ms) = add_mset (machine_network m) (entry_stacks (AList.delete i ms))"
  using mset_alist_update [of ms i m] by (simp add: entries_ok_def)

text \<open>Replacing a machine by one with the same stack and process changes nothing.\<close>

lemma manager_inv_same_stack:
  assumes inv: "manager_inv I T G n w" and m: "map_of (machines w) i = Some m"
    and same: "machine_network m' = machine_network m" "machine_vm m' = machine_vm m"
    and w': "machines w' = AList.update i m' (machines w)" "network w' = network w" "history w' = history w"
  shows "manager_inv I T G n w'"
proof -
  have ok: "entries_ok (machines w)" using inv by (simp add: manager_inv_def)
  have "entries_ok (AList.update i m' (machines w))"
    using entries_ok_update [OF ok] entries_ok_lookup [OF ok m] same(2) by simp
  moreover have "entry_stacks (AList.update i m' (machines w)) = entry_stacks (machines w)"
    unfolding entry_stacks_update [OF ok] entry_stacks_split [OF ok m] same(1) ..
  ultimately show ?thesis using inv by (simp add: manager_inv_def w')
qed

section \<open>Operations\<close>

text \<open>What a step of starting a machine leaves: the stack of the machine, or no stack.\<close>

definition started_ok ::
  "string list multiset \<Rightarrow> string multiset \<Rightarrow> NetworkStack multiset \<Rightarrow> NetworkManager \<Rightarrow>
     (error, ('b, 'tx) Machine) res \<Rightarrow> event list \<Rightarrow> bool" where
  "started_ok I T sts nm r tr \<longleftrightarrow>
     (case r of
        Ok m \<Rightarrow> ledger I T nm tr (add_mset (machine_network m) sts) \<and> vm_ok (machine_vm m)
      | _ \<Rightarrow> ledger I T nm tr sts)"

lemma Machine_new_ledger:
  assumes "deletes_succeed env" and "ledger I T nm tr (add_mset st sts)"
    and "Machine_new env prof lib js fc cfg st ov tr = (r, tr')"
  shows "started_ok I T sts nm r tr'"
proof (cases "is_ok r")
  case True
  then obtain m where r: "r = Ok m" by (auto simp: is_ok_iff)
  note M = Machine_new_Ok [OF assms(3) [unfolded r]]
  have "ledger I T nm tr' (add_mset st sts)"
    using assms(2) boot_quietly [OF M(4)] by (rule ledger_quiet)
  with M(1,2) r show ?thesis by (simp add: started_ok_def)
next
  case False
  then obtain t where t: "extends_by boot_call tr t" and tr': "tr' = NetworkStack_drop env st t"
    by (rule Machine_new_not_Ok [OF assms(3)])
  have "ledger I T nm t (add_mset st sts)" using assms(2) boot_quietly [OF t] by (rule ledger_quiet)
  then have "ledger I T nm tr' sts" unfolding tr' by (rule ledger_drop [OF assms(1)])
  with False show ?thesis by (cases r) (simp_all add: started_ok_def)
qed

lemma start_machine_ledger:
  assumes "deletes_succeed (node_host N)" and "has_room (node_profile N) nm" and "ledger I T nm tr sts"
    and "start_machine N cfg request (nm, tr) = (r, (nm', tr'))"
  shows "started_ok I T sts nm' r tr'" and "global_rules nm' = global_rules nm"
    and "unat (next_id nm') \<le> Suc (unat (next_id nm))"
proof -
  let ?env = "node_host N"
  obtain rp nm1 tr1 where p: "provision_stack ?env (node_profile N) (nm, tr) = (rp, (nm1, tr1))"
    by (metis surj_pair)
  note L = ledger_provision [OF assms(1-3) p] and C = provision_stack_counter [OF p]
  have "nm' = nm1 \<and> started_ok I T sts nm' r tr'"
  proof (cases rp)
    case (Ok st)
    obtain rn st2 tr2 where n: "setup_public_nat ?env (public_network_interface cfg) (st, tr1) = (rn, (st2, tr2))"
      by (metis surj_pair)
    have l2: "ledger I T nm1 tr2 (add_mset st2 sts)"
      using ledger_stack_step [of I T nm1 tr1 st sts st2 tr2]
        setup_public_nat_step [of "(st, tr1)" ?env "public_network_interface cfg"] L Ok n by simp
    show ?thesis
    proof (cases "is_ok rn")
      case True
      then obtain u where rn: "rn = Ok u" by (auto simp: is_ok_iff)
      obtain rm tr3 where m: "Machine_new ?env (node_profile N) (node_libs N) (node_json N)
          (firecracker_config cfg) (request_machine_config request) st2 (request_overrides request) tr2 = (rm, tr3)"
        by (metis surj_pair)
      have "r = rm" "nm' = nm1" "tr' = tr3"
        using assms(4) unfolding start_machine_def p Ok by (simp_all add: n rn m)
      with Machine_new_ledger [OF assms(1) l2 m] show ?thesis by simp
    next
      case False
      with ledger_drop [OF assms(1) l2] assms(4) show ?thesis
        unfolding start_machine_def p Ok by (cases rn) (auto simp: n started_ok_def)
    qed
  qed (use assms(4) L in \<open>auto simp: start_machine_def p started_ok_def\<close>)
  with C show "started_ok I T sts nm' r tr'" and "global_rules nm' = global_rules nm"
    and "unat (next_id nm') \<le> Suc (unat (next_id nm))"
    by blast+
qed

lemma insert_machine_inv:
  assumes "deletes_succeed env" and "entries_ok (machines w)" and "vm_ok (machine_vm m)"
    and "ledger I T (network w) (history w) (add_mset (machine_network m) (entry_stacks (machines w)))"
  shows "entries_ok (machines (insert_machine env i m w))"
    and "ledger I T (network w) (history (insert_machine env i m w)) (entry_stacks (machines (insert_machine env i m w)))"
proof -
  show "entries_ok (machines (insert_machine env i m w))"
    using assms(2,3) by (simp add: insert_machine_def entries_ok_update)
  show "ledger I T (network w) (history (insert_machine env i m w)) (entry_stacks (machines (insert_machine env i m w)))"
  proof (cases "map_of (machines w) i")
    case None
    then have "AList.delete i (machines w) = machines w"
      by (intro delete_id) (simp add: map_of_eq_None_iff)
    with None assms show ?thesis by (simp add: insert_machine_def entry_stacks_update)
  next
    case (Some old)
    have "ledger I T (network w) (history w)
        (add_mset (machine_network old) (add_mset (machine_network m) (entry_stacks (AList.delete i (machines w)))))"
      using assms(4) unfolding entry_stacks_split [OF assms(2) Some] by (simp add: add_mset_commute)
    from ledger_drop [OF assms(1) this] Some assms(2) show ?thesis
      by (simp add: insert_machine_def entry_stacks_update)
  qed
qed

lemma provision_inner_inv:
  assumes "deletes_succeed (node_host N)" and "has_room (node_profile N) (network w)"
    and "manager_inv I T G n w"
  shows "manager_inv I T G (Suc n) (snd (provision_inner N request w))"
proof -
  obtain r nm tr where s: "start_machine N (manager_config w) request (network w, history w) = (r, (nm, tr))"
    by (metis surj_pair)
  have l: "ledger (I + book_rules G) T (network w) (history w) (entry_stacks (machines w))"
    using assms(3) by (simp add: manager_inv_def)
  note S = start_machine_ledger [OF assms(1,2) l s]
  show ?thesis
  proof (cases r)
    case (Ok m)
    let ?w = "w\<lparr>network := nm, history := tr\<rparr>"
    have "entries_ok (machines ?w)" "vm_ok (machine_vm m)"
      "ledger (I + book_rules G) T (network ?w) (history ?w) (add_mset (machine_network m) (entry_stacks (machines ?w)))"
      using S(1) Ok assms(3) by (simp_all add: manager_inv_def started_ok_def)
    from insert_machine_inv [OF assms(1) this, of "Machine_uuid m"] S(2,3) assms(3) Ok show ?thesis
      by (simp add: provision_inner_def s manager_inv_def insert_machine_def Let_def)
  qed (use S assms(3) in \<open>simp_all add: provision_inner_def s manager_inv_def started_ok_def\<close>)
qed

lemma reclaim_counter [simp]:
  "next_id (fst (reclaim env st (nm, tr))) = next_id nm"
  "global_rules (fst (reclaim env st (nm, tr))) = global_rules nm"
  by (simp_all add: reclaim_eq put_slot_def)

lemma shutdown_ledger:
  assumes "vm_ok (machine_vm m)" and "ledger I T nm tr sts"
  obtains tr' where "Machine_shutdown env bitcode timeout m tr = (Ok (machine_network m), tr')"
    and "ledger I T nm tr' sts"
proof -
  obtain tr1 dir where b: "extends_by boot_call tr tr1"
    and s: "Machine_shutdown env bitcode timeout m tr =
      (Ok (machine_network m), snd (io env (RemoveDirAll dir) (snd (io env (KillProc (Machine_uuid m)) tr1))))"
    by (rule Machine_shutdown_cases [OF assms(1)])
  have "extends_quietly tr (snd (io env (RemoveDirAll dir) (snd (io env (KillProc (Machine_uuid m)) tr1))))"
    using boot_quietly [OF b] by (rule extends_by_trans) (simp add: extends_by_def)
  with that s assms(2) show thesis by (blast intro: ledger_quiet)
qed

lemma deprovision_inner_inv:
  assumes "deletes_succeed (node_host N)" and "manager_inv I T G n w"
  shows "manager_inv I T G n (snd (deprovision_inner N i timeout w)) \<and>
    fst (deprovision_inner N i timeout w) = Ok ()"
proof (cases "map_of (machines w) i")
  case None
  with assms(2) show ?thesis by (simp add: deprovision_inner_def)
next
  case (Some m)
  have ok: "entries_ok (machines w)" using assms(2) by (simp add: manager_inv_def)
  have vm: "vm_ok (machine_vm m)" by (rule entries_ok_lookup [OF ok Some])
  have l: "ledger (I + book_rules G) T (network w) (history w)
      (add_mset (machine_network m) (entry_stacks (AList.delete i (machines w))))"
    using assms(2) unfolding manager_inv_def entry_stacks_split [OF ok Some] by simp
  obtain tr where s: "Machine_shutdown (node_host N) (node_codec N) timeout m (history w) = (Ok (machine_network m), tr)"
    and l2: "ledger (I + book_rules G) T (network w) tr
      (add_mset (machine_network m) (entry_stacks (AList.delete i (machines w))))"
    by (rule shutdown_ledger [OF vm l])
  obtain nm tr2 where r: "reclaim (node_host N) (machine_network m) (network w, tr) = (nm, tr2)"
    by (metis surj_pair)
  have "next_id nm = next_id (network w)" "global_rules nm = global_rules (network w)"
    using reclaim_counter [of "node_host N" "machine_network m" "network w" tr] r by simp_all
  with ledger_reclaim [OF assms(1) l2] r assms(2) entries_ok_delete [OF ok] show ?thesis
    by (simp add: deprovision_inner_def Some s manager_inv_def)
qed

lemma handle_machine_exit_inv:
  assumes "deletes_succeed (node_host N)" and "manager_inv I T G n w"
  shows "manager_inv I T G n (snd (handle_machine_exit N i x w))"
proof -
  have "manager_inv I T G n (w\<lparr>notified := ns\<rparr>)" for ns
    using assms(2) by (simp add: manager_inv_def)
  with deprovision_inner_inv [OF assms(1)] assms(2) show ?thesis
    by (auto simp: handle_machine_exit_def split: option.split)
qed

text \<open>Draining takes the machines one by one; at the end no stack is alive.\<close>

lemma drain_machines_ledger:
  assumes "deletes_succeed env"
  shows "ledger I T nm tr (entry_stacks ms) \<Longrightarrow> \<forall>e \<in># mset ms. vm_ok (machine_vm (snd e)) \<Longrightarrow>
    drain_machines env bitcode ms (nm, tr) = (r, (nm', tr')) \<Longrightarrow>
    r = Ok () \<and> ledger I T nm' tr' {#} \<and> next_id nm' = next_id nm \<and> global_rules nm' = global_rules nm \<and>
    free_slots nm' = free_slots nm + image_mset stack_slot (entry_stacks ms)"
proof (induction ms arbitrary: nm tr)
  case (Cons e ms)
  obtain i m where e: "e = (i, m)" by (cases e)
  have vm: "vm_ok (machine_vm m)" using Cons.prems(2) e by simp
  have l: "ledger I T nm tr (add_mset (machine_network m) (entry_stacks ms))"
    using Cons.prems(1) e by simp
  obtain tr1 where s: "Machine_shutdown env bitcode (Some 3000) m tr = (Ok (machine_network m), tr1)"
    and l1: "ledger I T nm tr1 (add_mset (machine_network m) (entry_stacks ms))"
    by (rule shutdown_ledger [OF vm l])
  obtain nm2 tr2 where r: "reclaim env (machine_network m) (nm, tr1) = (nm2, tr2)" by (metis surj_pair)
  have nm2: "next_id nm2 = next_id nm" "global_rules nm2 = global_rules nm"
    "free_slots nm2 = add_mset (stack_slot (machine_network m)) (free_slots nm)"
    using r by (auto simp: reclaim_eq put_slot_def)
  have "ledger I T nm2 tr2 (entry_stacks ms)" using ledger_reclaim [OF assms l1] r by simp
  from Cons.IH [OF this] Cons.prems(2,3) nm2 show ?case by (simp add: e s r)
qed simp

lemma drain_inner_inv:
  assumes "deletes_succeed (node_host N)" and "\<And>ms. mset (node_hash_order N ms) = mset ms"
    and "manager_inv I T G n w"
  shows "manager_inv I T G n (snd (drain_inner N w)) \<and> fst (drain_inner N w) = Ok () \<and>
    machines (snd (drain_inner N w)) = [] \<and>
    free_slots (network (snd (drain_inner N w))) =
      free_slots (network w) + image_mset stack_slot (entry_stacks (machines w))"
proof -
  let ?ms = "node_hash_order N (machines w)"
  obtain r nm tr where d: "drain_machines (node_host N) (node_codec N) ?ms (network w, history w) = (r, (nm, tr))"
    by (metis surj_pair)
  have "ledger (I + book_rules G) T (network w) (history w) (entry_stacks ?ms)"
    and "\<forall>e \<in># mset ?ms. vm_ok (machine_vm (snd e))"
    using assms(3) by (simp_all add: manager_inv_def entries_ok_def assms(2) del: set_mset_mset)
  from drain_machines_ledger [OF assms(1) this d] assms(3) show ?thesis
    by (simp add: drain_inner_def d manager_inv_def entries_ok_def assms(2))
qed

lemma update_comm_inv:
  assumes "manager_inv I T G n w"
  shows "manager_inv I T G n (update_comm i f w)"
proof (cases "map_of (machines w) i")
  case (Some m)
  show ?thesis
  proof (cases "machine_comm m")
    case comm: (Some h)
    obtain h' ch where "f (h, channels w) = (h', ch)" by (metis surj_pair)
    then have u: "update_comm i f w =
        w\<lparr>machines := AList.update i (m\<lparr>machine_comm := Some h'\<rparr>) (machines w), channels := ch\<rparr>"
      by (simp add: update_comm_def Some comm)
    show ?thesis unfolding u by (rule manager_inv_same_stack [OF assms Some]) simp_all
  qed (use assms Some in \<open>simp add: update_comm_def\<close>)
qed (use assms in \<open>simp add: update_comm_def\<close>)

lemma validate_auth_world [simp]: "snd (validate_auth N clock auth aud w) = w"
  by (simp add: validate_auth_def split: option.split res.split bool.split)

lemma after_auth:
  assumes "P w" and "P (snd (k () w))"
  shows "P (snd (then_try (validate_auth N clock auth aud w) k))"
proof -
  obtain r where v: "validate_auth N clock auth aud w = (r, w)"
    by (metis prod.collapse validate_auth_world)
  show ?thesis unfolding v using assms by (cases r) simp_all
qed

lemma snd_map_res [simp]: "snd (case p of (r, w) \<Rightarrow> (f r, w)) = snd p"
  by (cases p) simp

lemma snd_then_try_pure: "(\<And>a w. snd (k a w) = w) \<Longrightarrow> snd (then_try (r, w) k) = w"
  by (cases r) simp_all

lemma forwarding_inv:
  assumes "manager_inv I T G n w" and m: "map_of (machines w) i = Some m"
    and f: "setup_forwarding env inb hp gp (machine_network m, history w) = (r, (st, tr))"
  shows "manager_inv I T G n
    (w\<lparr>machines := AList.update i (m\<lparr>machine_network := st\<rparr>) (machines w), history := tr\<rparr>)"
proof -
  have ok: "entries_ok (machines w)" using assms by (simp add: manager_inv_def)
  have "ledger (I + book_rules G) T (network w) (history w)
      (add_mset (machine_network m) (entry_stacks (AList.delete i (machines w))))"
    using assms unfolding manager_inv_def entry_stacks_split [OF ok m] by simp
  moreover have "stack_step (machine_network m, history w) (st, tr)"
    using setup_forwarding_step [of "(machine_network m, history w)" env inb hp gp] unfolding f by (simp only: snd_conv)
  ultimately have "ledger (I + book_rules G) T (network w) tr (add_mset st (entry_stacks (AList.delete i (machines w))))"
    by (rule ledger_stack_step)
  moreover have "entries_ok (AList.update i (m\<lparr>machine_network := st\<rparr>) (machines w))"
    using entries_ok_lookup [OF ok m] by (intro entries_ok_update [OF ok]) simp
  ultimately show ?thesis
    using assms(1) by (simp add: manager_inv_def entry_stacks_update [OF ok])
qed

lemma publish_inv:
  assumes "manager_inv I T G n w"
  shows "manager_inv I T G n (snd (publish_service_port N clock auth request w))"
proof -
  let ?i = "pub_id request"
  let ?k = "\<lambda>hp gp m. case setup_forwarding (node_host N) (service_network_interface (manager_config w)) hp gp
      (machine_network m, history w) of
    (r, (st, tr)) \<Rightarrow> (map_err (\<lambda>_. Internal ''Failed to publish service port'') r,
      w\<lparr>machines := AList.update ?i (m\<lparr>machine_network := st\<rparr>) (machines w), history := tr\<rparr>)"
  have k: "manager_inv I T G n (snd (?k hp gp m))" if "map_of (machines w) ?i = Some m" for hp gp m
  proof -
    obtain r st tr where "setup_forwarding (node_host N) (service_network_interface (manager_config w)) hp gp
      (machine_network m, history w) = (r, (st, tr))" by (metis surj_pair)
    with forwarding_inv [OF assms that this] show ?thesis by simp
  qed
  show ?thesis
    unfolding publish_service_port_def
    by (rule after_auth [where P = "manager_inv I T G n", OF assms];
        cases "u16_try_from (pub_host_port request)"; cases "u16_try_from (pub_guest_port request)";
        cases "map_of (machines w) ?i")
      (simp_all only: option.case snd_conv assms k)
qed

lemma stream_logs_inv:
  assumes "manager_inv I T G n w"
  shows "manager_inv I T G n (snd (stream_logs N clock auth i w))"
proof -
  have "manager_inv I T G n (w\<lparr>machines := AList.update i m' (machines w), channels := ch\<rparr>)"
    if "map_of (machines w) i = Some m"
      and "get_and_subscribe_to_logs (node_libs N) (m, channels w) = (r, (m', ch))" for m r m' ch
    using that
    by (intro manager_inv_same_stack [OF assms that(1), of m'])
      (auto simp: get_and_subscribe_to_logs_def Let_def split: option.splits prod.splits)
  with assms show ?thesis
    unfolding stream_logs_def
    by (intro after_auth [where P = "manager_inv I T G n"])
      (auto simp: snd_then_try_pure split: option.split prod.split)
qed

lemma step_inv:
  assumes "deletes_succeed (node_host N)" and "\<And>ms. mset (node_hash_order N ms) = mset ms"
    and "is_provision op \<Longrightarrow> has_room (node_profile N) (network w)"
    and "manager_inv I T G n w"
  shows "manager_inv I T G (if is_provision op then Suc n else n) (step N op w)"
proof (cases op)
  case (OpProvision clock auth request)
  have "manager_inv I T G (Suc n) w" using assms(4) by (simp add: manager_inv_def)
  with provision_inner_inv [OF assms(1) _ assms(4), of request] assms(3) OpProvision show ?thesis
    by (auto simp: provision_def intro!: after_auth [where P = "manager_inv I T G (Suc n)"])
next
  case (OpDeprovision clock auth request)
  then show ?thesis
    using deprovision_inner_inv [OF assms(1,4)] assms(4)
    by (auto simp: deprovision_def Let_def intro!: after_auth [where P = "manager_inv I T G n"])
next
  case (MachineExits i x lock_free)
  have "manager_inv I T G n (w\<lparr>cleanup_tasks := ts\<rparr>)" for ts using assms(4) by (simp add: manager_inv_def)
  then show ?thesis
    using assms(1,4) by (auto simp: MachineExits Let_def intro!: handle_machine_exit_inv update_comm_inv)
next
  case (OpDrain clock auth)
  then show ?thesis
    using drain_inner_inv [OF assms(1,2,4)] assms(4)
    by (auto simp: drain_rpc_def intro!: after_auth [where P = "manager_inv I T G n"])
qed (use assms drain_inner_inv [OF assms(1,2,4)] publish_inv stream_logs_inv update_comm_inv in
    \<open>auto simp: list_instances_def get_logs_def snd_then_try_pure split: option.split intro!: after_auth [where P = "manager_inv I T G n"]\<close>)

end
