(* ===== verification/Manager_Properties.thy ===== *)
theory Manager_Properties
  imports Manager_Invariant
begin

text \<open>
  The properties of the node manager: what holds in every reachable state, what draining,
  deprovisioning and a machine's exit leave behind, which calls are refused, and what the
  log calls return.
\<close>

section \<open>Reachable states\<close>

lemma NetworkManager_new_Ok:
  assumes "NetworkManager_new env tr = (Ok nm, tr')"
  shows "installed tr' = installed tr + book_rules (global_rules nm)" and "taps tr' = taps tr"
    and "recovered_slots nm = []" and "next_id nm = 0" and "book_ok (global_rules nm)"
proof -
  let ?args = "[''-I'', ''FORWARD'', ''-m'', ''conntrack'', ''--ctstate'', ''RELATED,ESTABLISHED'', ''-j'', ''ACCEPT'']"
  have "env tr (RunCmd ''iptables-nft'' ?args) = ExitStatus True"
  proof (rule ccontr)
    assume "env tr (RunCmd ''iptables-nft'' ?args) \<noteq> ExitStatus True"
    then obtain e where "cmd env ''iptables-nft'' ?args tr =
        (Err e, tr @ [(RunCmd ''iptables-nft'' ?args, env tr (RunCmd ''iptables-nft'' ?args))])"
      by (rule cmd_False)
    with assms show False
      by (simp add: NetworkManager_new_def add_ip_rule_replace_first_arg_def add_ip_rule_def)
  qed
  note c = cmd_True [where env = env and tr = tr, OF this]
  show "installed tr' = installed tr + book_rules (global_rules nm)" and "taps tr' = taps tr"
    and "recovered_slots nm = []" and "next_id nm = 0" and "book_ok (global_rules nm)"
    using assms c
    by (auto simp: NetworkManager_new_def add_ip_rule_replace_first_arg_def add_ip_rule_def IpRuleBook_new_def
        book_rules_def book_ok_def)
qed

lemma NodeManager_new_Ok:
  assumes "NodeManager_new N config secret subscription tr0 ch = (Ok w, tr)"
  shows "NetworkManager_new (node_host N) tr0 = (Ok (network w), history w)" and "machines w = []"
    and "cleanup_tasks w = []"
proof -
  obtain nm tr1 where n: "NetworkManager_new (node_host N) tr0 = (Ok nm, tr1)"
    using assms by (auto simp: NodeManager_new_def then_try_Ok_iff)
  have "network w = nm \<and> history w = tr1 \<and> machines w = [] \<and> cleanup_tasks w = []"
  proof (cases secret)
    case (Some s)
    then show ?thesis
      using assms by (cases "key_from_slice (node_jwt N) s") (auto simp: NodeManager_new_def n Let_def)
  qed (use assms in \<open>auto simp: NodeManager_new_def n Let_def\<close>)
  with n show "NetworkManager_new (node_host N) tr0 = (Ok (network w), history w)" and "machines w = []"
    and "cleanup_tasks w = []"
    by simp_all
qed

lemma initial_inv:
  assumes "NodeManager_new N config secret subscription tr0 ch = (Ok w, tr)"
  shows "manager_inv (installed tr0) (taps tr0) (global_rules (network w)) 0 w"
  using NetworkManager_new_Ok [OF NodeManager_new_Ok(1) [OF assms]] NodeManager_new_Ok(2) [OF assms]
  by (simp add: manager_inv_def entries_ok_def ledger_def checked_pool.exclusive_def)

text \<open>What the properties assume of the host and of the hash map.\<close>

definition node_ok :: "('b, 'tx, 'rx, 'c, 'key) node \<Rightarrow> bool" where
  "node_ok N \<longleftrightarrow> deletes_succeed (node_host N) \<and> (\<forall>ms. mset (node_hash_order N ms) = mset ms)"

text \<open>
  The allocator cannot wrap around: the build checks for overflow, or \<open>Provision\<close> was
  called at most as often as there are address blocks.
\<close>

definition no_wrap :: "('b, 'tx, 'rx, 'c, 'key) node \<Rightarrow> nat \<Rightarrow> bool" where
  "no_wrap N n \<longleftrightarrow> node_profile N = Debug \<or> n \<le> slot_limit"

lemma reachable_inv:
  assumes "node_ok N" and "reachable N tr0 n w" and "no_wrap N n"
  shows "manager_inv (installed tr0) (taps tr0) (global_rules (network w)) n w"
proof -
  have "\<exists>G. manager_inv (installed tr0) (taps tr0) G n w"
    using assms(2,3)
  proof (induction rule: reachable.induct)
    case (init config secret subscription ch w tr)
    then show ?case using initial_inv [OF init.hyps] by blast
  next
    case (move n w op)
    have "no_wrap N n" using move.prems by (auto simp: no_wrap_def split: if_splits)
    then obtain G where inv: "manager_inv (installed tr0) (taps tr0) G n w" using move.IH by blast
    moreover have "has_room (node_profile N) (network w)" if "is_provision op"
      using that move.prems inv by (auto simp: no_wrap_def has_room_def manager_inv_def)
    ultimately have "manager_inv (installed tr0) (taps tr0) G (if is_provision op then Suc n else n) (step N op w)"
      using assms(1) by (intro step_inv) (simp_all add: node_ok_def)
    then show ?case by blast
  qed
  then show ?thesis by (auto simp: manager_inv_def)
qed

text \<open>Slots that are issued and distinct lie in distinct blocks.\<close>

lemma issued_distinct:
  assumes "distinct (map f xs)" and "\<forall>x \<in> set xs. f x \<in> issued_slots nm"
    and "\<And>j k. j < slot_limit \<Longrightarrow> k < slot_limit \<Longrightarrow> g (slot_of_id j) = g (slot_of_id k) \<Longrightarrow> j = k"
  shows "distinct (map (\<lambda>x. g (f x)) xs)"
proof -
  have "inj_on g (issued_slots nm)"
    using assms(3) by (auto simp: inj_on_def issued_slots_def)
  moreover have "set (map f xs) \<subseteq> issued_slots nm" using assms(2) by auto
  ultimately have "distinct (map g (map f xs))"
    unfolding distinct_map [of g] using assms(1) by (blast intro: inj_on_subset)
  then show ?thesis by (simp add: comp_def)
qed

lemma slot_addr_inj:
  assumes "j < slot_limit" and "k < slot_limit"
    and "slot_ipv4_addr (slot_of_id j) = slot_ipv4_addr (slot_of_id k)"
  shows "j = k"
proof -
  have "slot_net + (4 * j + 2) = slot_net + (4 * k + 2)"
    using slot_of_id_nat(2) [OF assms(1)] slot_of_id_nat(2) [OF assms(2)] assms(3) by metis
  then show ?thesis by linarith
qed

section \<open>A concrete node\<close>

definition sample_node :: "(MachineLog list, nat, nat, nat, string) node" where
  "sample_node = \<lparr>node_host = obliging_host, node_profile = Debug, node_libs = list_libs,
     node_json = (\<lambda>_. Some ''{}''), node_codec = table_codec [Shutdown], node_jwt = table_jwt [],
     node_parse_uuid = (\<lambda>_. Some 0), node_hash_order = (\<lambda>ms. ms)\<rparr>"

definition sample_manager_config :: ManagerConfig where
  "sample_manager_config = \<lparr>firecracker_config = sample_fc, public_network_interface = ''eno1'',
     service_network_interface = ''eno2''\<rparr>"

definition sample_request :: ProvisionRequest where
  "sample_request = \<lparr>req_container_reference = ''nginx'', req_vcpus = 1, req_memory_mb = 256,
     req_cmd_args = [], req_env = []\<rparr>"

lemma sample_node_ok: "node_ok sample_node" "no_wrap sample_node n"
  by (simp_all add: node_ok_def no_wrap_def sample_node_def deletes_succeed_obliging)

lemma sample_start:
  "\<exists>w tr. NodeManager_new sample_node sample_manager_config None False [] 0 = (Ok w, tr) \<and>
     recovered_slots (network w) = [] \<and> next_id (network w) = 0 \<and> machines w = [] \<and>
     authentication_secret w = None \<and> manager_config w = sample_manager_config"
  by (simp add: NodeManager_new_def sample_node_def NetworkManager_new_def add_ip_rule_replace_first_arg_def
      add_ip_rule_def cmd_obliging Let_def)

lemma start_machine_obliging:
  assumes "recovered_slots nm = []" and "next_id nm = 0"
  shows "\<exists>m s. start_machine sample_node sample_manager_config request (nm, tr) = (Ok m, s) \<and>
    machine_comm m = Some (MachineCommunicator_new list_libs)"
proof -
  have "next_slot Debug nm = (Ok (slot_of_id 0), nm\<lparr>next_id := 1\<rparr>)"
    using next_slot_fresh_ok [of nm Debug] assms by (simp add: slot_limit_def)
  then obtain st tr1 where p: "provision_stack obliging_host Debug (nm, tr) = (Ok st, (nm\<lparr>next_id := 1\<rparr>, tr1))"
    using NetworkStack_new_obliging [of "slot_of_id 0" tr] by (auto simp: provision_stack_def)
  obtain st2 tr2 where n: "setup_public_nat obliging_host ''eno1'' (st, tr1) = (Ok (), (st2, tr2))"
    by (simp add: setup_public_nat_def stack_add_rule_def add_ip_rule_replace_first_arg_def add_ip_rule_def
        cmd_obliging Let_def)
  obtain m tr3 where m: "Machine_new obliging_host Debug list_libs (\<lambda>_. Some ''{}'') sample_fc
      (request_machine_config request) st2 (request_overrides request) tr2 = (Ok m, tr3)"
    using Machine_new_obliging by blast
  show ?thesis
    using Machine_new_Ok(3) [OF m] p n m
    by (simp add: start_machine_def sample_node_def sample_manager_config_def)
qed

lemma sample_reachable:
  obtains w i m where "reachable sample_node [] 1 w" and "machines w = [(i, m)]"
    and "machine_comm m = Some (MachineCommunicator_new list_libs)" and "authentication_secret w = None"
    and "i \<in> set (cleanup_tasks w)"
proof -
  obtain w tr where s: "NodeManager_new sample_node sample_manager_config None False [] 0 = (Ok w, tr)"
    and w: "recovered_slots (network w) = []" "next_id (network w) = 0" "machines w = []"
      "authentication_secret w = None" "manager_config w = sample_manager_config"
    using sample_start by blast
  obtain m nm tr1 where m: "start_machine sample_node sample_manager_config sample_request (network w, history w)
      = (Ok m, (nm, tr1))" and c: "machine_comm m = Some (MachineCommunicator_new list_libs)"
    using start_machine_obliging [OF w(1,2)] by (metis surj_pair)
  let ?op = "OpProvision (Some 0) None sample_request"
  have st: "machines (step sample_node ?op w) = [(Machine_uuid m, m)]"
    "authentication_secret (step sample_node ?op w) = None"
    "Machine_uuid m \<in> set (cleanup_tasks (step sample_node ?op w))"
    using w m by (simp_all add: provision_def validate_auth_def provision_inner_def insert_machine_def Let_def)
  have "reachable sample_node [] (if is_provision ?op then Suc 0 else 0) (step sample_node ?op w)"
    by (intro reachable.move reachable.init [OF s])
  then show thesis using that [of _ "Machine_uuid m" m] st c by simp
qed

lemma update_comm_rest:
  "map fst (machines (update_comm i f w)) = map fst (machines w)"
  "machine_state_subscription (update_comm i f w) = machine_state_subscription w"
  "notified (update_comm i f w) = notified w" "cleanup_tasks (update_comm i f w) = cleanup_tasks w"
  by (auto simp: update_comm_def update_keys image_iff split: option.splits prod.splits)
    (metis fst_conv map_of_SomeD)+

lemma deprovision_inner_rest:
  assumes "manager_inv I T G n w"
  shows "map fst (machines (snd (deprovision_inner N i timeout w))) = removeAll i (map fst (machines w)) \<and>
      notified (snd (deprovision_inner N i timeout w)) = notified w \<and>
      cleanup_tasks (snd (deprovision_inner N i timeout w)) = cleanup_tasks w"
proof (cases "map_of (machines w) i")
  case None
  then have "i \<notin> set (map fst (machines w))" by (simp add: map_of_eq_None_iff)
  with None show ?thesis by (simp add: deprovision_inner_def)
next
  case (Some m)
  have "vm_ok (machine_vm m)"
    using entries_ok_lookup [of "machines w" i m] Some assms by (simp add: manager_inv_def)
  then obtain st tr where "Machine_shutdown (node_host N) (node_codec N) timeout m (history w) = (Ok st, tr)"
    by (rule Machine_shutdown_cases)
  with Some show ?thesis by (simp add: deprovision_inner_def delete_keys reclaim_eq)
qed

section \<open>Properties\<close>

text \<open>
  C1. In every reachable state, the live machines have pairwise distinct guest addresses and
  pairwise distinct tap devices, whatever the interleaving of calls, exits, failures of
  host commands and reuse of slots. A build with overflow checks has this without bound; a
  release build has it for the first 16384 calls of \<open>Provision\<close>.
\<close>

theorem live_machines_do_not_share:
  assumes "node_ok N" and "reachable N tr0 n w" and "no_wrap N n"
  shows "distinct (map (\<lambda>(_, m). stack_ipv4_addr (machine_network m)) (machines w)) \<and>
    distinct (map (\<lambda>(_, m). stack_tap (machine_network m)) (machines w))"
proof -
  let ?f = "\<lambda>e. stack_slot (entry_stack e)"
  have "ledger (installed tr0 + book_rules (global_rules (network w))) (taps tr0) (network w) (history w)
      (mset (map entry_stack (machines w)))"
    using reachable_inv [OF assms] by (simp add: manager_inv_def)
  from ledger_distinct [OF this]
  have d: "distinct (map ?f (machines w))" "\<forall>e \<in> set (machines w). ?f e \<in> issued_slots (network w)"
    by (simp_all add: comp_def)
  have "distinct (map (\<lambda>e. slot_ipv4_addr (?f e)) (machines w))"
    by (rule issued_distinct [OF d slot_addr_inj])
  moreover have "distinct (map (\<lambda>e. slot_tap_dev_name (?f e)) (machines w))"
    by (rule issued_distinct [OF d]) (simp add: slot_tap_eq_iff)
  ultimately show ?thesis by (simp add: stack_slot_def case_prod_unfold)
qed

theorem live_machines_do_not_share_witness:
  "\<exists>w i m. reachable sample_node [] 1 w \<and> machines w = [(i, m)] \<and>
     distinct (map (\<lambda>(_, m). stack_ipv4_addr (machine_network m)) (machines w))"
proof -
  obtain w i m where w: "reachable sample_node [] 1 w" "machines w = [(i, m)]" by (rule sample_reachable)
  from live_machines_do_not_share [OF sample_node_ok(1) w(1) sample_node_ok(2)] w show ?thesis by blast
qed

text \<open>
  C2. In every reachable state the iptables rules and tap devices of the host are exactly
  those that were there when the manager started, its one global rule, and the rules and
  devices of the live machines: nothing of a dead or half-started machine is left, and no
  rule of a live one is missing.
\<close>

theorem host_tables_match_live_machines:
  assumes "node_ok N" and "reachable N tr0 n w" and "no_wrap N n"
  shows "installed (history w) = installed tr0 + book_rules (global_rules (network w)) +
      \<Sum>\<^sub># (mset (map (\<lambda>(_, m). stack_rules (machine_network m)) (machines w))) \<and>
    taps (history w) = taps tr0 + mset (map (\<lambda>(_, m). stack_tap (machine_network m)) (machines w))"
  using reachable_inv [OF assms]
  by (simp add: manager_inv_def ledger_def image_mset.compositionality comp_def case_prod_unfold)

theorem host_tables_match_live_machines_witness:
  "\<exists>w i m. reachable sample_node [] 1 w \<and> machines w = [(i, m)] \<and>
     taps (history w) = {#stack_tap (machine_network m)#}"
proof -
  obtain w i m where w: "reachable sample_node [] 1 w" "machines w = [(i, m)]" by (rule sample_reachable)
  from host_tables_match_live_machines [OF sample_node_ok(1) w(1) sample_node_ok(2)] w show ?thesis by auto
qed

text \<open>
  C6. Draining a node always succeeds and leaves it as it was started: no machine, on the host
  only the rules and devices from before and the global rule, and the slot of every machine
  that was alive back in the pool.
\<close>

theorem drain_restores_node:
  assumes "node_ok N" and "reachable N tr0 n w" and "no_wrap N n" and "drain_inner N w = (r, w')"
  shows "r = Ok () \<and> machines w' = [] \<and>
    installed (history w') = installed tr0 + book_rules (global_rules (network w)) \<and>
    taps (history w') = taps tr0 \<and>
    free_slots (network w') = free_slots (network w) +
      mset (map (\<lambda>(_, m). stack_slot (machine_network m)) (machines w))"
proof -
  have "manager_inv (installed tr0) (taps tr0) (global_rules (network w)) n (snd (drain_inner N w)) \<and>
      fst (drain_inner N w) = Ok () \<and> machines (snd (drain_inner N w)) = [] \<and>
      free_slots (network (snd (drain_inner N w))) =
        free_slots (network w) + image_mset stack_slot (entry_stacks (machines w))"
    using assms(1) by (intro drain_inner_inv reachable_inv [OF assms(1-3)]) (simp_all add: node_ok_def)
  then show ?thesis
    unfolding assms(4)
    by (simp add: manager_inv_def ledger_def image_mset.compositionality comp_def case_prod_unfold)
qed

theorem drain_restores_node_witness:
  "\<exists>w i m w'. reachable sample_node [] 1 w \<and> machines w = [(i, m)] \<and>
     drain_inner sample_node w = (Ok (), w') \<and> machines w' = [] \<and> taps (history w') = {#} \<and>
     stack_slot (machine_network m) \<in># free_slots (network w')"
proof -
  obtain w i m where w: "reachable sample_node [] 1 w" "machines w = [(i, m)]" by (rule sample_reachable)
  obtain r w' where d: "drain_inner sample_node w = (r, w')" by (metis surj_pair)
  note D = drain_restores_node [OF sample_node_ok(1) w(1) sample_node_ok(2) d]
  have "stack_slot (machine_network m) \<in># free_slots (network w')" using D unfolding w by simp
  with D w d show ?thesis by (metis taps_Nil)
qed

text \<open>
  C17. Deprovisioning a live machine always succeeds, with whatever timeout: the machine alone
  leaves the map, exactly its rules and its device leave the host, and its slot is free
  again.
\<close>

theorem deprovision_releases_machine:
  assumes "node_ok N" and "reachable N tr0 n w" and "no_wrap N n"
    and "map_of (machines w) i = Some m" and "deprovision_inner N i timeout w = (r, w')"
  shows "r = Ok () \<and> machines w' = AList.delete i (machines w) \<and>
    installed (history w) = installed (history w') + stack_rules (machine_network m) \<and>
    taps (history w) = add_mset (stack_tap (machine_network m)) (taps (history w')) \<and>
    free_slots (network w') = add_mset (stack_slot (machine_network m)) (free_slots (network w))"
proof -
  let ?G = "global_rules (network w)"
  note inv = reachable_inv [OF assms(1-3)]
  have del: "deletes_succeed (node_host N)" using assms(1) by (simp add: node_ok_def)
  have ok: "entries_ok (machines w)" using inv by (simp add: manager_inv_def)
  have vm: "vm_ok (machine_vm m)" by (rule entries_ok_lookup [OF ok assms(4)])
  have l: "ledger (installed tr0 + book_rules ?G) (taps tr0) (network w) (history w)
      (add_mset (machine_network m) (entry_stacks (AList.delete i (machines w))))"
    using inv unfolding manager_inv_def entry_stacks_split [OF ok assms(4)] by simp
  obtain tr where s: "Machine_shutdown (node_host N) (node_codec N) timeout m (history w) = (Ok (machine_network m), tr)"
    and l2: "ledger (installed tr0 + book_rules ?G) (taps tr0) (network w) tr
      (add_mset (machine_network m) (entry_stacks (AList.delete i (machines w))))"
    by (rule shutdown_ledger [OF vm l])
  have w': "r = Ok ()" "machines w' = AList.delete i (machines w)"
    "network w' = put_slot (stack_slot (machine_network m)) (network w)"
    "history w' = NetworkStack_drop (node_host N) (machine_network m) tr"
    using assms(5) by (auto simp: deprovision_inner_def assms(4) s reclaim_eq)
  have "ledger (installed tr0 + book_rules ?G) (taps tr0) (network w) (history w')
      (entry_stacks (AList.delete i (machines w)))"
    unfolding w' by (rule ledger_drop [OF del l2])
  with l w' show ?thesis by (simp add: ledger_def put_slot_def ac_simps)
qed

theorem deprovision_releases_machine_witness:
  "\<exists>w i m w'. reachable sample_node [] 1 w \<and> machines w = [(i, m)] \<and>
     deprovision_inner sample_node i (Some 3000) w = (Ok (), w') \<and> machines w' = []"
proof -
  obtain w i m where w: "reachable sample_node [] 1 w" "machines w = [(i, m)]" by (rule sample_reachable)
  then have m: "map_of (machines w) i = Some m" by simp
  obtain r w' where d: "deprovision_inner sample_node i (Some 3000) w = (r, w')" by (metis surj_pair)
  from deprovision_releases_machine [OF sample_node_ok(1) w(1) sample_node_ok(2) m d] w d show ?thesis by auto
qed

text \<open>
  C18. When a machine's packet handler ends, its clean-up task takes the machine out of the map,
  whatever the exit was; the exit is handed to the channel of the subscriber, if there is one,
  once; and if the machine
  had already been deprovisioned the set of machines does not change.
\<close>

theorem exited_machine_is_removed:
  assumes "node_ok N" and "reachable N tr0 n w" and "no_wrap N n"
    and "i \<in> set (cleanup_tasks w)" and "node_parse_uuid N i = Some u"
  shows "map fst (machines (step N (MachineExits i x lock_free) w)) = removeAll i (map fst (machines w)) \<and>
    notified (step N (MachineExits i x lock_free) w) =
      notified w @ (if machine_state_subscription w then [(u, x)] else []) \<and>
    cleanup_tasks (step N (MachineExits i x lock_free) w) = remove1 i (cleanup_tasks w)"
proof -
  let ?G = "global_rules (network w)"
  define w1 where "w1 = (let w = w\<lparr>cleanup_tasks := remove1 i (cleanup_tasks w)\<rparr> in
    if lock_free then update_comm i (\<lambda>(h, ch). (drop_subscribers h, ch)) w else w)"
  define w2 where "w2 = (if machine_state_subscription w then w1\<lparr>notified := notified w1 @ [(u, x)]\<rparr> else w1)"
  have keys: "map fst (machines w2) = map fst (machines w)"
    and sub: "machine_state_subscription w1 = machine_state_subscription w"
    and rest: "notified w1 = notified w" "cleanup_tasks w1 = remove1 i (cleanup_tasks w)"
    by (simp_all add: w1_def w2_def update_comm_rest Let_def)
  have st: "step N (MachineExits i x lock_free) w = snd (deprovision_inner N i None w2)"
    using assms(4,5) sub
    by (simp add: handle_machine_exit_def w2_def) (simp add: w1_def Let_def)
  have "manager_inv (installed tr0) (taps tr0) ?G n (w\<lparr>cleanup_tasks := ts\<rparr>)" for ts
    using reachable_inv [OF assms(1-3)] by (simp add: manager_inv_def)
  then have "manager_inv (installed tr0) (taps tr0) ?G n w1"
    by (simp add: w1_def Let_def update_comm_inv)
  then have inv: "manager_inv (installed tr0) (taps tr0) ?G n w2"
    by (simp add: w2_def manager_inv_def)
  from deprovision_inner_rest [OF inv, of N i None] st keys rest show ?thesis by (simp add: w2_def)
qed

theorem exited_machine_is_removed_witness:
  "\<exists>w i m. reachable sample_node [] 1 w \<and> machines w = [(i, m)] \<and>
     machines (step sample_node (MachineExits i ExitUnknown True) w) = []"
proof -
  obtain w i m where w: "reachable sample_node [] 1 w" "machines w = [(i, m)]" "i \<in> set (cleanup_tasks w)"
    by (rule sample_reachable)
  have "node_parse_uuid sample_node i = Some 0" by (simp add: sample_node_def)
  from exited_machine_is_removed [OF sample_node_ok(1) w(1) sample_node_ok(2) w(3) this, of ExitUnknown True]
  have "map fst (machines (step sample_node (MachineExits i ExitUnknown True) w)) = []"
    unfolding w by simp
  with w show ?thesis by (metis map_is_Nil_conv)
qed

end
