(* ===== verification/Manager_Calls.thy ===== *)
theory Manager_Calls
  imports Manager_Properties
begin

text \<open>
  The calls of the node manager's service, one by one: who may make them, what publishing a
  port installs, and what the log calls return.
\<close>

section \<open>Authentication\<close>

text \<open>The clock, token and expected audience of a call; background steps have none.\<close>

fun rpc_auth :: "op \<Rightarrow> (u64 option \<times> string option \<times> string option) option" where
  "rpc_auth (OpProvision clock auth _) = Some (clock, auth, None)"
| "rpc_auth (OpDeprovision clock auth request) = Some (clock, auth, Some (dep_instance_id request))"
| "rpc_auth (OpStreamLogs clock auth i) = Some (clock, auth, Some i)"
| "rpc_auth (OpListInstances clock auth) = Some (clock, auth, None)"
| "rpc_auth (OpGetLogs clock auth i) = Some (clock, auth, Some i)"
| "rpc_auth (OpPublishServicePort clock auth request) = Some (clock, auth, Some (pub_id request))"
| "rpc_auth (OpDrain clock auth) = Some (clock, auth, None)"
| "rpc_auth _ = None"

lemma refused_then_try:
  assumes "fst (validate_auth N clock auth aud w) \<noteq> Ok ()"
  shows "snd (then_try (validate_auth N clock auth aud w) k) = w"
proof -
  obtain r where v: "validate_auth N clock auth aud w = (r, w)"
    by (metis prod.collapse validate_auth_world)
  show ?thesis unfolding v using assms v by (cases r) simp_all
qed

lemma refused_step:
  assumes "rpc_auth op = Some (clock, auth, aud)" and "fst (validate_auth N clock auth aud w) \<noteq> Ok ()"
  shows "step N op w = w"
  using assms
  by (cases op) (auto simp: provision_def deprovision_def stream_logs_def list_instances_def get_logs_def
      publish_service_port_def drain_rpc_def refused_then_try)

section \<open>Published ports\<close>

text \<open>The three rules that forward a host port to a guest port of a stack.\<close>

definition forward_rules :: "string \<Rightarrow> NetworkStack \<Rightarrow> u16 \<Rightarrow> u16 \<Rightarrow> string list multiset" where
  "forward_rules inb st host_port guest_port =
     (let tap = stack_tap st; gp = dec_string (unat guest_port) in
      {#[''PREROUTING'', ''-t'', ''nat'', ''-i'', inb, ''-p'', ''tcp'', ''--dport'', dec_string (unat host_port),
         ''-j'', ''DNAT'', ''--to-destination'', ipv4_string (stack_ipv4_addr st) @ '':'' @ gp],
        [''FORWARD'', ''-i'', tap, ''-o'', inb, ''-p'', ''tcp'', ''--sport'', gp, ''-m'', ''state'', ''--state'',
         ''ESTABLISHED,RELATED'', ''-j'', ''ACCEPT''],
        [''FORWARD'', ''-i'', inb, ''-o'', tap, ''-p'', ''tcp'', ''--dport'', gp, ''-m'', ''state'', ''--state'',
         ''NEW,ESTABLISHED,RELATED'', ''-j'', ''ACCEPT'']#})"

lemma stack_add_rule_Ok:
  assumes "op = ''-A'' \<or> op = ''-I''" and "stack_add_rule env (op # body) ''-D'' (st, tr) = (Ok u, (st', tr'))"
  shows "installed tr' = add_mset body (installed tr)" and "stack_rules st' = add_mset body (stack_rules st)"
proof -
  have c: "fst (cmd env ''iptables-nft'' (op # body) tr) = Ok ()"
    using assms(2)
    by (auto simp: stack_add_rule_def add_ip_rule_replace_first_arg_def add_ip_rule_def
        split: prod.splits res.splits)
  then have e: "env tr (RunCmd ''iptables-nft'' (op # body)) = ExitStatus True" by (simp add: cmd_Ok_iff)
  have "st' = st\<lparr>ip_rule_book := (ip_rule_book st)\<lparr>delete_args := delete_args (ip_rule_book st) @ [''-D'' # body]\<rparr>\<rparr>"
    and "tr' = tr @ [(RunCmd ''iptables-nft'' (op # body), ExitStatus True)]"
    using assms(2) cmd_True [where env = env and tr = tr, OF e]
    by (auto simp: stack_add_rule_def add_ip_rule_replace_first_arg_def add_ip_rule_def)
  then show "installed tr' = add_mset body (installed tr)" and "stack_rules st' = add_mset body (stack_rules st)"
    using assms(1) by (auto simp: book_rules_def)
qed

lemma setup_forwarding_Ok:
  assumes "setup_forwarding env inb hp gp (st, tr) = (Ok u, (st', tr'))"
  shows "installed tr' = installed tr + forward_rules inb st hp gp \<and>
    stack_rules st' = stack_rules st + forward_rules inb st hp gp"
proof -
  let ?addr = "ipv4_string (stack_ipv4_addr st) @ '':'' @ dec_string (unat gp)"
  obtain st1 tr1 st2 tr2 where
    1: "stack_add_rule env (''-A'' # [''PREROUTING'', ''-t'', ''nat'', ''-i'', inb, ''-p'', ''tcp'',
          ''--dport'', dec_string (unat hp), ''-j'', ''DNAT'', ''--to-destination'', ?addr]) ''-D'' (st, tr)
        = (Ok (), (st1, tr1))"
    and 2: "stack_add_rule env (''-I'' # [''FORWARD'', ''-i'', stack_tap st, ''-o'', inb, ''-p'', ''tcp'',
          ''--sport'', dec_string (unat gp), ''-m'', ''state'', ''--state'', ''ESTABLISHED,RELATED'',
          ''-j'', ''ACCEPT'']) ''-D'' (st1, tr1) = (Ok (), (st2, tr2))"
    and 3: "stack_add_rule env (''-I'' # [''FORWARD'', ''-i'', inb, ''-o'', stack_tap st, ''-p'', ''tcp'',
          ''--dport'', dec_string (unat gp), ''-m'', ''state'', ''--state'', ''NEW,ESTABLISHED,RELATED'',
          ''-j'', ''ACCEPT'']) ''-D'' (st2, tr2) = (Ok (), (st', tr'))"
    using assms unfolding setup_forwarding_def Let_def then_try_Ok_iff
    by auto
  note r1 = stack_add_rule_Ok [OF _ 1] and r2 = stack_add_rule_Ok [OF _ 2] and r3 = stack_add_rule_Ok [OF _ 3]
  show ?thesis
    using r1 r2 r3 unfolding forward_rules_def Let_def by simp
qed

lemma u16_try_from_Some:
  assumes "u16_try_from x = Some p"
  shows "sint x = int (unat p)"
proof -
  have b: "0 \<le> sint x" "sint x \<le> 65535" and p: "p = ucast x"
    using assms by (auto simp: u16_try_from_def split: if_splits)
  have "uint x = take_bit 32 (sint x)" using uint_sint [of x] by simp
  also have "\<dots> = sint x" using b by (simp add: take_bit_int_eq_self)
  finally have "uint (ucast x :: u16) = sint x" using b by (simp add: unsigned_ucast_eq take_bit_int_eq_self)
  then show ?thesis by (simp add: p)
qed

section \<open>Logs of a machine\<close>

text \<open>A machine's communicator after its guest sent the packets \<open>ps\<close>.\<close>

lemma handle_packets_snoc:
  "list_all (\<lambda>p. \<not> is_exited p) ps \<Longrightarrow>
     handle_packets lib (ps @ qs) s = handle_packets lib qs (snd (handle_packets lib ps s))"
  by (induction lib ps s rule: handle_packets.induct) auto

lemma update_comm_lookup:
  assumes "map_of (machines w) i = Some m" and "machine_comm m = Some h" and "f (h, channels w) = (h', ch)"
  shows "map_of (machines (update_comm i f w)) i = Some (m\<lparr>machine_comm := Some h'\<rparr>)"
    and "channels (update_comm i f w) = ch"
  using assms by (simp_all add: update_comm_def update_conv')

lemma sent_packets_comm:
  assumes "map_of (machines w) i = Some m" and "machine_comm m = Some h"
    and "list_all (\<lambda>p. \<not> is_exited p) ps"
  shows "\<exists>m'. map_of (machines (fold (\<lambda>p. step N (GuestSends i p)) ps w)) i = Some m' \<and>
    machine_comm m' = Some (fst (snd (handle_packets (node_libs N) ps (h, channels w))))"
  using assms
proof (induction ps arbitrary: w m h)
  case (Cons p ps)
  obtain h' ch where hp: "snd (handle_packets (node_libs N) [p] (h, channels w)) = (h', ch)" by (metis surj_pair)
  let ?w = "step N (GuestSends i p) w"
  have "map_of (machines ?w) i = Some (m\<lparr>machine_comm := Some h'\<rparr>)" and c: "channels ?w = ch"
    using update_comm_lookup [OF Cons.prems(1,2), where f = "\<lambda>s. snd (handle_packets (node_libs N) [p] s)", OF hp] by simp_all
  from Cons.IH [OF this(1), of h'] Cons.prems(3) c hp
  show ?case using handle_packets_snoc [of "[p]" "node_libs N" ps] by simp
qed simp

section \<open>Properties\<close>

text \<open>
  C15. With a secret configured, a call whose token does not verify, has expired, is not yet
  valid or carries another audience than the call expects changes nothing at all: no
  machine, no host command, no log subscription. This holds for every call of the service.
\<close>

theorem bad_token_changes_nothing:
  assumes "authentication_secret w = Some key" and "rpc_auth op = Some (clock, auth, aud)"
    and "validate_authentication (node_jwt N) clock (unwrap_or [] auth) key aud \<noteq> (Ok True :: (Status, bool) res)"
  shows "step N op w = w \<and> fst (validate_auth N clock auth aud w) \<noteq> Ok ()"
proof -
  have "fst (validate_auth N clock auth aud w) \<noteq> Ok ()"
    using assms(1,3) by (simp add: validate_auth_def split: res.splits bool.splits)
  with refused_step [OF assms(2)] show ?thesis by blast
qed

definition sample_locked :: "(MachineLog list, nat, nat, string) world" where
  "sample_locked = \<lparr>manager_config = sample_manager_config, machines = [], network = new_manager,
     machine_state_subscription = False, authentication_secret = Some ''secret'', history = [],
     channels = 0, cleanup_tasks = [], notified = []\<rparr>"

theorem bad_token_changes_nothing_witness:
  "step sample_node (OpProvision (Some 1000) (Some ''forged'') sample_request) sample_locked = sample_locked"
  using bad_token_changes_nothing [of sample_locked "''secret''" "OpProvision (Some 1000) (Some ''forged'') sample_request"
      "Some 1000" "Some ''forged''" None sample_node]
  by (simp add: sample_locked_def sample_node_def table_jwt_def validate_authentication_def unwrap_or_def)

text \<open>
  C9. A token that was issued for one instance works for that instance only: every call that
  expects another audience, in particular \<open>Provision\<close>, \<open>ListInstances\<close> and \<open>Drain\<close> which
  expect none, and every call for another instance, changes nothing, at any time.
\<close>

theorem instance_token_scope:
  assumes "jwt_signs (node_jwt N)" and "60 \<le> unat t" and "unat t + 3600 < 2 ^ 64"
    and "sign_token (node_jwt N) prof (Some t) key (Some i) = (Ok token :: (Status, string) res)"
    and "authentication_secret w = Some key"
    and "rpc_auth op = Some (Some now, Some token, aud)" and "aud \<noteq> Some i"
  shows "step N op w = w"
proof -
  have "verify_with_key (node_jwt N) token key = Some
      \<lparr>issuer = None, audience = Some i, expiration = Some (t + 3600), subject = None,
       not_before = Some (t - 60), issued_at = Some t, json_web_token_id = None\<rparr>"
    using assms(1) sign_token_Ok [OF assms(4,2,3)] by (auto simp: jwt_signs_def)
  then have "validate_authentication (node_jwt N) (Some now) (unwrap_or [] (Some token)) key aud =
      (Ok False :: (Status, bool) res)"
    using assms(7) by (simp add: validate_authentication_def unwrap_or_def)
  then have "fst (validate_auth N (Some now) (Some token) aud w) \<noteq> Ok ()"
    using assms(5) by (simp add: validate_auth_def)
  with refused_step [OF assms(6)] show ?thesis by blast
qed

theorem instance_token_scope_witness:
  "step (sample_node\<lparr>node_jwt := table_jwt [(sample_claims, ''secret'')]\<rparr>)
     (OpDrain (Some 1001) (Some ''0'')) sample_locked = sample_locked"
proof -
  let ?N = "sample_node\<lparr>node_jwt := table_jwt [(sample_claims, ''secret'')]\<rparr>"
  have s: "sign_token (node_jwt ?N) Debug (Some 1000) ''secret'' (Some ''my_aud'') = (Ok ''0'' :: (Status, string) res)"
    by (simp add: sign_token_def unix_t_s_def add_ovf_def sub_ovf_def table_jwt_def sample_claims_def dec_string_0)
  have j: "jwt_signs (node_jwt ?N)" by (simp add: jwt_signs_table)
  show ?thesis
    by (rule instance_token_scope [OF j _ _ s, where aud = None and now = 1001]) (simp_all add: sample_locked_def)
qed

text \<open>
  C16. Publishing a port succeeds only for ports between 0 and 65535 of a live machine, and
  then installs exactly the three rules that forward that host port to that guest port of
  that machine's address; the machine's stack remembers all three, so that they go when it
  goes. No other machine changes.
\<close>

theorem published_port_rules:
  assumes "publish_service_port N clock auth request w = (Ok (), w')"
  shows "\<exists>m m' host_port guest_port.
    map_of (machines w) (pub_id request) = Some m \<and>
    sint (pub_host_port request) = int (unat (host_port :: u16)) \<and>
    sint (pub_guest_port request) = int (unat (guest_port :: u16)) \<and>
    machines w' = AList.update (pub_id request) m' (machines w) \<and>
    installed (history w') = installed (history w) +
      forward_rules (service_network_interface (manager_config w)) (machine_network m) host_port guest_port \<and>
    stack_rules (machine_network m') = stack_rules (machine_network m) +
      forward_rules (service_network_interface (manager_config w)) (machine_network m) host_port guest_port"
proof -
  have v: "validate_auth N clock auth (Some (pub_id request)) w = (Ok (), w)"
    using assms unfolding publish_service_port_def then_try_Ok_iff
    by (metis prod.collapse snd_conv validate_auth_world old.unit.exhaust)
  obtain hp where h: "u16_try_from (pub_host_port request) = Some hp"
    using assms by (cases "u16_try_from (pub_host_port request)") (simp_all add: publish_service_port_def v)
  obtain gp where g: "u16_try_from (pub_guest_port request) = Some gp"
    using assms by (cases "u16_try_from (pub_guest_port request)") (simp_all add: publish_service_port_def v h)
  obtain m where m: "map_of (machines w) (pub_id request) = Some m"
    using assms by (cases "map_of (machines w) (pub_id request)") (simp_all add: publish_service_port_def v h g)
  obtain r st tr where f: "setup_forwarding (node_host N) (service_network_interface (manager_config w)) hp gp
      (machine_network m, history w) = (r, (st, tr))" by (metis surj_pair)
  have w': "w' = w\<lparr>machines := AList.update (pub_id request) (m\<lparr>machine_network := st\<rparr>) (machines w), history := tr\<rparr>"
    and "map_err (\<lambda>_. Internal ''Failed to publish service port'') r = Ok ()"
    using assms by (simp_all add: publish_service_port_def v h g m f)
  then have r: "r = Ok ()" by (cases r) simp_all
  from setup_forwarding_Ok [OF f [unfolded r]] w' m u16_try_from_Some [OF h] u16_try_from_Some [OF g]
  show ?thesis by (intro exI [of _ m] exI [of _ "m\<lparr>machine_network := st\<rparr>"] exI [of _ hp] exI [of _ gp]) simp
qed

theorem published_port_rules_witness:
  "\<exists>w i m w' m'. machines w = [(i, m)] \<and>
     publish_service_port sample_node None None \<lparr>pub_id = i, pub_guest_port = 80, pub_host_port = 8080\<rparr> w
       = (Ok (), w') \<and>
     machines w' = [(i, m')] \<and>
     installed (history w') = installed (history w) +
       forward_rules (service_network_interface (manager_config w)) (machine_network m) 8080 80"
proof -
  obtain w :: "(MachineLog list, nat, nat, string) world" and i m
    where w: "machines w = [(i, m)]" "authentication_secret w = None"
    using sample_reachable by metis
  let ?r = "\<lparr>pub_id = i, pub_guest_port = 80, pub_host_port = 8080\<rparr>"
  have p: "u16_try_from 80 = Some 80" "u16_try_from 8080 = Some 8080" by (simp_all add: u16_try_from_def)
  obtain st tr where "setup_forwarding obliging_host (service_network_interface (manager_config w)) 8080 80
      (machine_network m, history w) = (Ok (), (st, tr))"
    by (simp add: setup_forwarding_def stack_add_rule_def add_ip_rule_replace_first_arg_def add_ip_rule_def
        cmd_obliging Let_def)
  then obtain w' where q: "publish_service_port sample_node None None ?r w = (Ok (), w')"
    using w by (simp add: publish_service_port_def validate_auth_def p sample_node_def)
  obtain m1 m' hp gp where x: "map_of (machines w) i = Some m1" "sint (8080 :: i32) = int (unat (hp :: u16))"
    "sint (80 :: i32) = int (unat (gp :: u16))" "machines w' = AList.update i m' (machines w)"
    "installed (history w') = installed (history w) +
      forward_rules (service_network_interface (manager_config w)) (machine_network m1) hp gp"
    using published_port_rules [OF q] by auto
  have "hp = 8080" "gp = 80" using x(2,3) by (simp_all add: word_uint_eq_iff)
  moreover have "m1 = m" "machines w' = [(i, m')]" using x(1,4) w(1) by simp_all
  ultimately show ?thesis using w(1) q x(5) by blast
qed

text \<open>
  C8. From the moment a machine is in the map, \<open>GetLogs\<close> returns the contract's view of what
  its guest has sent since: the last 256 log and state lines, oldest first, and the last
  state if its line is no longer among them, translated to the wire format.
\<close>

theorem get_logs_returns_log_view:
  assumes "ring_ok (node_libs N)" and "authentication_secret w = None"
    and "map_of (machines w) i = Some m" and "machine_comm m = Some (MachineCommunicator_new (node_libs N))"
    and "list_all (\<lambda>p. \<not> is_exited p) ps"
  shows "fst (get_logs N clock auth i (fold (\<lambda>p. step N (GuestSends i p)) ps w)) =
    Ok (map as_proto_log_message (log_view (concat (map packet_log ps))))"
proof -
  let ?lib = "node_libs N" and ?w = "fold (\<lambda>p. step N (GuestSends i p)) ps w"
  let ?s = "(MachineCommunicator_new ?lib, channels w)"
  obtain m' where m': "map_of (machines ?w) i = Some m'"
    "machine_comm m' = Some (fst (snd (handle_packets ?lib ps ?s)))"
    using sent_packets_comm [OF assms(3-5)] by blast
  have "ring_iter ?lib (log_buffer (fst (snd (handle_packets ?lib ps ?s)))) =
      take MAX_LINES_IN_BUFFER (rev (concat (map packet_log ps)))"
    and "comm_state (fst (snd (handle_packets ?lib ps ?s))) = fold state_after (concat (map packet_log ps)) None"
    using handle_packets_logs [OF assms(1,5), of ?s] assms(1)
    by (simp_all add: MachineCommunicator_new_def ring_ok_def)
  then have v: "clone_buffer_with_state ?lib (fst (snd (handle_packets ?lib ps ?s))) =
      log_view (concat (map packet_log ps))"
    by (rule clone_buffer_is_view)
  have "authentication_secret (fold (\<lambda>p. step N (GuestSends i p)) ps w) = None"
    using assms(2) by (induction ps arbitrary: w) (auto simp: update_comm_def split: option.splits prod.splits)
  with m' v show ?thesis by (simp add: get_logs_def validate_auth_def Machine_get_logs_def)
qed

theorem get_logs_returns_log_view_witness:
  "\<exists>w i m. machines w = [(i, m)] \<and>
     fst (get_logs sample_node None None i (step sample_node (GuestSends i (VmState (Online, 7))) w)) =
       Ok [as_proto_log_message (StateLog Online 7)]"
proof -
  obtain w :: "(MachineLog list, nat, nat, string) world" and i m
    where w: "machines w = [(i, m)]" "authentication_secret w = None"
      "machine_comm m = Some (MachineCommunicator_new list_libs)"
    using sample_reachable by metis
  have l: "node_libs sample_node = list_libs" by (simp add: sample_node_def)
  have "fst (get_logs sample_node None None i (fold (\<lambda>p. step sample_node (GuestSends i p)) [VmState (Online, 7)] w)) =
      Ok (map as_proto_log_message (log_view (concat (map packet_log [VmState (Online, 7)]))))"
    by (rule get_logs_returns_log_view [where m = m]) (simp_all add: w l ring_ok_list_libs)
  then show ?thesis
    using w by (auto simp: log_view_def MAX_LINES_IN_BUFFER_def)
qed

end
