(* ===== verification/Node_Main.thy ===== *)
theory Node_Main
  imports Manager_Properties
begin

text \<open>
  \<open>nodemanager/src/main.rs\<close>: the process around the node manager. It reads its configuration,
  creates the manager without a secret and without a subscriber, serves until Ctrl-C, asks the
  manager to drain and waits for it. What is served is a sequence of steps of the manager;
  the server is not stopped before the drain, so there are steps before and after it. When
  \<open>main\<close> returns, the runtime is dropped with every task, and with the last task the manager:
  first its machines, then its network manager.

  Reading the file and parsing it (\<open>serde_json\<close>) are parameters, as is the order in which the
  hash map drops its machines.
\<close>

definition InnerNodeManager_drop ::
  "('b, 'tx, 'rx, 'c, 'key) node \<Rightarrow> ('b, 'tx, 'c, 'key) world \<Rightarrow> event list" where
  "InnerNodeManager_drop N w =
     NetworkManager_drop (node_host N) (network w)
       (fold (\<lambda>(_, m). NetworkStack_drop (node_host N) (machine_network m)) (node_hash_order N (machines w))
          (history w))"

definition nodemanager_main ::
  "('b, 'tx, 'rx, 'c, 'key) node \<Rightarrow> string option \<Rightarrow> (string \<Rightarrow> ManagerConfig option) \<Rightarrow> op list \<Rightarrow> op list
     \<Rightarrow> event list \<Rightarrow> 'c \<Rightarrow> (error, unit) res \<times> event list" where
  "nodemanager_main N config_json from_json served served_after tr ch =
     (case config_json of
        None \<Rightarrow> (Panic, tr)
      | Some txt \<Rightarrow>
          (case from_json txt of
             None \<Rightarrow> (Panic, tr)
           | Some config \<Rightarrow>
               (case NodeManager_new N config None False tr ch of
                  (Ok w, _) \<Rightarrow>
                    (let w = fold (step N) served w;
                         w = step N ShutdownSignal w;
                         w = fold (step N) served_after w
                     in (Ok (), InnerNodeManager_drop N w))
                | (_, tr) \<Rightarrow> (Panic, tr))))"

section \<open>The end of the process\<close>

definition provisions :: "op list \<Rightarrow> nat" where
  "provisions ops = length (filter is_provision ops)"

lemma reachable_fold:
  "reachable N tr0 n w \<Longrightarrow> reachable N tr0 (n + provisions ops) (fold (step N) ops w)"
proof (induction ops arbitrary: n w)
  case (Cons op ops)
  from Cons.IH [OF reachable.move [OF Cons.prems, of op]] show ?case
    by (cases "is_provision op") (simp_all add: provisions_def)
qed (simp add: provisions_def)

text \<open>The global rules stay those of the start, which are well formed.\<close>

lemma reachable_global_rules:
  assumes "reachable N tr0 n w" and "node_ok N" and "no_wrap N n"
  shows "book_ok (global_rules (network w))"
  using assms(1,3)
proof (induction rule: reachable.induct)
  case (init config secret subscription ch w tr)
  from NodeManager_new_Ok(1) [OF init.hyps] show ?case
    by (rule NetworkManager_new_Ok(5))
next
  case (move n w op)
  have nw: "no_wrap N n" using move.prems by (auto simp: no_wrap_def split: if_splits)
  note inv = reachable_inv [OF assms(2) move.hyps nw]
  have "has_room (node_profile N) (network w)" if "is_provision op"
    using that move.prems inv by (auto simp: no_wrap_def has_room_def manager_inv_def)
  then have "manager_inv (installed tr0) (taps tr0) (global_rules (network w))
      (if is_provision op then Suc n else n) (step N op w)"
    using assms(2) inv by (intro step_inv) (simp_all add: node_ok_def)
  then show ?case using move.IH [OF nw] by (simp add: manager_inv_def)
qed

lemma ledger_drop_all:
  assumes "deletes_succeed env" and "ledger I T nm tr (entry_stacks ms)"
  shows "ledger I T nm (fold (\<lambda>(_, m). NetworkStack_drop env (machine_network m)) ms tr) {#}"
  using assms(2)
proof (induction ms arbitrary: tr)
  case (Cons x ms)
  obtain k m where x: "x = (k, m)" by (cases x)
  have "ledger I T nm (NetworkStack_drop env (machine_network m) tr) (entry_stacks ms)"
    using Cons.prems x by (intro ledger_drop [OF assms(1)]) simp
  from Cons.IH [OF this] show ?case by (simp add: x)
qed simp

lemma drop_restores_host:
  assumes "node_ok N" and "reachable N tr0 n w" and "no_wrap N n"
  shows "installed (InnerNodeManager_drop N w) = installed tr0 \<and> taps (InnerNodeManager_drop N w) = taps tr0"
proof -
  let ?G = "global_rules (network w)"
  let ?ms = "node_hash_order N (machines w)"
  let ?tr = "fold (\<lambda>(_, m). NetworkStack_drop (node_host N) (machine_network m)) ?ms (history w)"
  have del: "deletes_succeed (node_host N)" and ms: "mset ?ms = mset (machines w)"
    using assms(1) by (simp_all add: node_ok_def)
  have "ledger (installed tr0 + book_rules ?G) (taps tr0) (network w) (history w) (entry_stacks ?ms)"
    unfolding ms using reachable_inv [OF assms] by (simp add: manager_inv_def)
  from ledger_drop_all [OF del this] have tr: "installed ?tr = installed tr0 + book_rules ?G" "taps ?tr = taps tr0"
    by (simp_all add: ledger_def)
  have "installed (IpRuleBook_drop (node_host N) ?G ?tr) = installed ?tr - book_rules ?G \<and>
      taps (IpRuleBook_drop (node_host N) ?G ?tr) = taps ?tr"
    by (rule IpRuleBook_drop_tables [OF del reachable_global_rules [OF assms(2,1,3)]]) (simp add: tr)
  then show ?thesis by (simp add: InnerNodeManager_drop_def NetworkManager_drop_def tr)
qed

section \<open>Properties\<close>

text \<open>
  C7. A node manager process that was started, served any calls, machine exits and packets in
  any order, and was stopped with Ctrl-C leaves the host as it found it: the iptables rules
  and tap devices are exactly those from before, also for calls that were still served while
  it shut down.
\<close>

theorem node_leaves_no_trace:
  assumes "node_ok N" and "no_wrap N (provisions (served @ served_after))"
    and "nodemanager_main N config_json from_json served served_after tr0 ch = (Ok (), tr)"
  shows "installed tr = installed tr0 \<and> taps tr = taps tr0"
proof -
  obtain config w tr1 where n: "NodeManager_new N config None False tr0 ch = (Ok w, tr1)"
    and tr: "tr = InnerNodeManager_drop N (fold (step N) (served @ ShutdownSignal # served_after) w)"
    using assms(3) by (auto simp: nodemanager_main_def Let_def split: option.splits prod.splits res.splits)
  have "provisions (served @ ShutdownSignal # served_after) = provisions (served @ served_after)"
    by (simp add: provisions_def)
  then have "reachable N tr0 (provisions (served @ served_after))
      (fold (step N) (served @ ShutdownSignal # served_after) w)"
    using reachable_fold [OF reachable.init [OF n], of "served @ ShutdownSignal # served_after"] by simp
  from drop_restores_host [OF assms(1) this assms(2)] show ?thesis by (simp only: tr)
qed

theorem node_leaves_no_trace_witness:
  "\<exists>tr. nodemanager_main sample_node (Some ''{}'') (\<lambda>_. Some sample_manager_config)
       [OpProvision (Some 0) None sample_request] [OpProvision (Some 0) None sample_request] [] 0 = (Ok (), tr) \<and>
     installed tr = {#} \<and> taps tr = {#}"
proof -
  obtain w tr1 where n: "NodeManager_new sample_node sample_manager_config None False [] 0 = (Ok w, tr1)"
    using sample_start by blast
  obtain tr where m: "nodemanager_main sample_node (Some ''{}'') (\<lambda>_. Some sample_manager_config)
      [OpProvision (Some 0) None sample_request] [OpProvision (Some 0) None sample_request] [] 0 = (Ok (), tr)"
    unfolding nodemanager_main_def Let_def option.case n prod.case res.case by blast
  from node_leaves_no_trace [OF sample_node_ok m] m show ?thesis by auto
qed

end
