(* ===== verification/Nodecli.thy ===== *)
theory Nodecli
  imports Manager
begin

text \<open>
  \<open>nodecli/src/main.rs\<close>: the command line client. The parsed command line (\<open>clap\<close>), the gRPC
  channel (\<open>tonic\<close>) and the calendar (\<open>chrono\<close>) are packages: the command line is the
  datatype \<open>Commands\<close>, a call to the node is a function of \<open>node_client\<close> over an abstract state
  of the node, and \<open>format_local\<close> formats a moment, \<open>None\<close> for one that is out of range. What
  the program prints and logs is its output. A log stream is given by the messages it will
  deliver and how it ends.
\<close>

section \<open>Data\<close>

datatype Commands =
    Run (run_container_reference: string) (run_vcpus: u8) (run_memory_mb: u32) (run_dont_tail_logs: bool)
      (run_environment: "string list option") (run_args: "string list")
  | Rm string
  | Ls
  | Logs string bool
  | Pub string u16 u16                 \<comment> \<open>instance, host port, guest port\<close>
  | Drain

text \<open>The fields the client reads of a log message.\<close>

record CliLogMessage =
  cli_log_type :: string
  cli_timestamp :: i64
  cli_message :: string

datatype stream_end = StreamClosed | StreamBroken string

datatype cli_output = Info string | Error string | Line string

record 's node_client =
  connect :: "string \<Rightarrow> 's \<Rightarrow> (string, unit) res \<times> 's"
  call_provision :: "ProvisionRequest \<Rightarrow> 's \<Rightarrow> (string, string) res \<times> 's"
  call_deprovision :: "DeprovisionRequest \<Rightarrow> 's \<Rightarrow> (string, unit) res \<times> 's"
  call_list_instances :: "'s \<Rightarrow> (string, string list) res \<times> 's"
  call_get_logs :: "string \<Rightarrow> 's \<Rightarrow> (string, CliLogMessage list) res \<times> 's"
  call_stream_logs :: "string \<Rightarrow> 's \<Rightarrow> (string, CliLogMessage list \<times> stream_end) res \<times> 's"
  call_publish :: "PublishServicePortRequest \<Rightarrow> 's \<Rightarrow> (string, unit) res \<times> 's"
  call_drain :: "'s \<Rightarrow> (string, unit) res \<times> 's"
  format_local :: "i64 \<Rightarrow> u32 \<Rightarrow> string option"

section \<open>Environment variables\<close>

text \<open>\<open>env.split('=')\<close> is \<open>split_on\<close>, the parts between the occurrences of one character.\<close>

fun parse_environment ::
  "string list \<Rightarrow> (string \<times> string) list \<times> cli_output list \<Rightarrow> (string \<times> string) list \<times> cli_output list" where
  "parse_environment [] s = s"
| "parse_environment (env # envs) (parsed_env, out) =
     (case split_on CHR ''='' env of
        key # value # _ \<Rightarrow> parse_environment envs (AList.update key value parsed_env, out)
      | _ \<Rightarrow>
          parse_environment envs (parsed_env,
            out @ [Error (''Invalid environment variable format: '' @ env @ '', expected '' @ [CHR 34] @ ''KEY=VALUE'' @
                     [CHR 34] @ ''.'')]))"

section \<open>Log lines\<close>

text \<open>\<open>timestamp / 1000\<close> rounds towards zero; \<open>timestamp as u32 % 1000\<close> truncates first.\<close>

definition log_seconds :: "i64 \<Rightarrow> i64" where
  "log_seconds timestamp =
     word_of_int (if sint timestamp < 0 then - ((- sint timestamp) div 1000) else sint timestamp div 1000)"

definition log_nanos :: "i64 \<Rightarrow> u32" where
  "log_nanos timestamp = ((ucast timestamp :: u32) mod 1000) * 1000000"

definition print_log ::
  "'s node_client \<Rightarrow> CliLogMessage \<Rightarrow> cli_output list \<times> 's \<Rightarrow> ('e, unit) res \<times> (cli_output list \<times> 's)" where
  "print_log client log = (\<lambda>(out, s).
     (case format_local client (log_seconds (cli_timestamp log)) (log_nanos (cli_timestamp log)) of
        None \<Rightarrow> (Panic, (out, s))
      | Some ts \<Rightarrow> (Ok (), (out @ [Line (''['' @ cli_log_type log @ ''] '' @ ts @ '' - '' @ cli_message log)], s))))"

fun print_logs ::
  "'s node_client \<Rightarrow> CliLogMessage list \<Rightarrow> cli_output list \<times> 's \<Rightarrow> ('e, unit) res \<times> (cli_output list \<times> 's)" where
  "print_logs client [] s = (Ok (), s)"
| "print_logs client (log # logs) s = then_try (print_log client log s) (\<lambda>_ s. print_logs client logs s)"

section \<open>Commands\<close>

abbreviation say :: "cli_output \<Rightarrow> cli_output list \<times> 's \<Rightarrow> ('e, unit) res \<times> (cli_output list \<times> 's)" where
  "say line s \<equiv> (Ok (), (fst s @ [line], snd s))"

text \<open>A call of the client: the answer, and a continuation for each outcome.\<close>

definition answer ::
  "(string, 'a) res \<times> 's \<Rightarrow> cli_output list \<Rightarrow> ('a \<Rightarrow> cli_output list \<times> 's \<Rightarrow> ('e, unit) res \<times> (cli_output list \<times> 's)) \<Rightarrow> string
     \<Rightarrow> ('e, unit) res \<times> (cli_output list \<times> 's)" where
  "answer m out k failure =
     (case m of
        (Ok a, s) \<Rightarrow> k a (out, s)
      | (Err e, s) \<Rightarrow> say (Error (failure @ e)) (out, s)
      | (Panic, s) \<Rightarrow> (Panic, (out, s)))"

definition cli_stream_logs ::
  "'s node_client \<Rightarrow> string \<Rightarrow> cli_output list \<times> 's \<Rightarrow> ('e, unit) res \<times> (cli_output list \<times> 's)" where
  "cli_stream_logs client instance_id = (\<lambda>(out, s).
     answer (call_stream_logs client instance_id s) out (\<lambda>(logs, ending) s.
       then_try (print_logs client logs s) (\<lambda>_ s.
         (case ending of
            StreamClosed \<Rightarrow> say (Info (''No more logs for instance '' @ instance_id)) s
          | StreamBroken e \<Rightarrow> say (Error (''Error receiving log message: '' @ e)) s)))
       (''Failed to get logs for instance '' @ instance_id @ '': ''))"

definition run_request :: "string \<Rightarrow> u8 \<Rightarrow> u32 \<Rightarrow> (string \<times> string) list \<Rightarrow> string list \<Rightarrow> ProvisionRequest" where
  "run_request reference vcpus memory_mb parsed_env args =
     \<lparr>req_container_reference = reference, req_vcpus = ucast vcpus, req_memory_mb = memory_mb,
      req_cmd_args = args, req_env = parsed_env\<rparr>"

definition rm_request :: "string \<Rightarrow> DeprovisionRequest" where
  "rm_request instance_id = \<lparr>dep_instance_id = instance_id, timeout_millis = 5000\<rparr>"

definition pub_request :: "string \<Rightarrow> u16 \<Rightarrow> u16 \<Rightarrow> PublishServicePortRequest" where
  "pub_request instance_id guest_port host_port =
     \<lparr>pub_id = instance_id, pub_guest_port = ucast guest_port, pub_host_port = ucast host_port\<rparr>"

fun cli_command ::
  "'s node_client \<Rightarrow> Commands \<Rightarrow> cli_output list \<times> 's \<Rightarrow> ('e, unit) res \<times> (cli_output list \<times> 's)" where
  "cli_command client (Run reference vcpus memory_mb dont_tail_logs environment args) (out, s) =
     (case parse_environment (case environment of Some envs \<Rightarrow> envs | None \<Rightarrow> []) ([], out) of
        (parsed_env, out) \<Rightarrow>
          answer (call_provision client (run_request reference vcpus memory_mb parsed_env args) s) out
            (\<lambda>instance_id s.
               then_try (say (Info (''Provisioned instance with id '' @ instance_id)) s) (\<lambda>_ s.
                 if dont_tail_logs then (Ok (), s) else cli_stream_logs client instance_id s))
            ''Failed to provision instance: '')"
| "cli_command client (Rm instance_id) (out, s) =
     answer (call_deprovision client (rm_request instance_id) s) out
       (\<lambda>_. say (Info (''Deprovisioned instance with id '' @ instance_id))) ''Failed to deprovision instance: ''"
| "cli_command client Ls (out, s) =
     answer (call_list_instances client s) out (\<lambda>instances (out, s). (Ok (), (out @ map Line instances, s)))
       ''Failed to list instances: ''"
| "cli_command client (Logs instance_id tail) (out, s) =
     (if tail then cli_stream_logs client instance_id (out, s)
      else answer (call_get_logs client instance_id s) out (print_logs client)
             (''Failed to get logs for instance '' @ instance_id @ '': ''))"
| "cli_command client (Pub instance_id host_port guest_port) (out, s) =
     answer (call_publish client (pub_request instance_id guest_port host_port) s) out
       (\<lambda>_. say (Info (''Published port '' @ dec_string (unat guest_port) @ '' on instance '' @ instance_id @
          '' to host port '' @ dec_string (unat host_port)))) ''Failed to publish port: ''"
| "cli_command client Drain (out, s) =
     answer (call_drain client s) out (\<lambda>_. say (Info ''Drained node!'')) ''Failed to drain: ''"

definition nodecli_main ::
  "'s node_client \<Rightarrow> string option \<Rightarrow> Commands \<Rightarrow> 's \<Rightarrow> (string, unit) res \<times> (cli_output list \<times> 's)" where
  "nodecli_main client address command s =
     (case connect client (case address of Some a \<Rightarrow> a | None \<Rightarrow> ''http://[::1]:50051'') s of
        (Ok _, s) \<Rightarrow> cli_command client command ([], s)
      | (Err e, s) \<Rightarrow> (Err e, ([], s))
      | (Panic, s) \<Rightarrow> (Panic, ([], s)))"

section \<open>Splitting\<close>

lemma split_on_first:
  assumes "c \<notin> set v" and "rest = [] \<or> hd rest = c"
  shows "\<exists>parts. split_on c (v @ rest) = v # parts"
proof (cases rest)
  case Nil
  with assms(1) show ?thesis by (simp add: split_on_none)
next
  case (Cons x xs)
  with assms show ?thesis by (auto simp: split_on_append split_on_none)
qed

lemma map_of_update_rev: "map_of (AList.update k v e) = (map_of e)(k \<mapsto> v)"
  by (simp add: update_conv')

lemma parse_environment_vars:
  assumes "list_all (\<lambda>(k, v, rest). CHR ''='' \<notin> set k \<and> CHR ''='' \<notin> set v \<and> (rest = [] \<or> hd rest = CHR ''='')) vars"
    and "distinct (map fst e0)"
  shows "\<exists>e. parse_environment (map (\<lambda>(k, v, rest). k @ ''='' @ v @ rest) vars) (e0, out) = (e, out) \<and>
    distinct (map fst e) \<and> map_of e = map_of (rev (map (\<lambda>(k, v, _). (k, v)) vars) @ e0)"
  using assms
proof (induction vars arbitrary: e0)
  case (Cons x vars)
  obtain k v rest where x: "x = (k, v, rest)" by (metis surj_pair)
  have "CHR ''='' \<notin> set k" "\<exists>parts. split_on CHR ''='' (v @ rest) = v # parts"
    using Cons.prems(1) x split_on_first [of "CHR ''=''" v rest] by auto
  then obtain parts where s: "split_on CHR ''='' (k @ ''='' @ v @ rest) = k # v # parts"
    by (auto simp: split_on_append split_on_none)
  have "distinct (map fst (AList.update k v e0))" using Cons.prems(2) by (rule distinct_update)
  from Cons.IH [OF _ this] Cons.prems(1) obtain e where
    "parse_environment (map (\<lambda>(k, v, rest). k @ ''='' @ v @ rest) vars) (AList.update k v e0, out) = (e, out)"
    "distinct (map fst e)" "map_of e = map_of (rev (map (\<lambda>(k, v, _). (k, v)) vars) @ AList.update k v e0)"
    by auto
  with s x show ?case by (simp add: map_of_update_rev map_add_def fun_eq_iff split: option.split)
qed simp

lemma then_try_Err:
  "fst (then_try m k) = Err e \<Longrightarrow> fst m = Err e \<or> (\<exists>a s. m = (Ok a, s) \<and> fst (k a s) = Err e)"
  by (cases "(m, k)" rule: then_try.cases) auto

lemma validate_auth_errors: "fst (validate_auth N clock auth aud w) \<noteq> Err (InvalidArgument e)"
  by (cases clock)
    (auto simp: validate_auth_def validate_authentication_def unix_t_s_def split: option.split res.split bool.split)

section \<open>Properties\<close>

text \<open>
  C35. The environment of a \<open>run\<close> command: each argument \<open>KEY=VALUE\<close> sets its variable, a later
  one overrides an earlier one, and nothing is reported. Whatever follows a second equals
  sign is dropped: \<open>A=b=c\<close> sets \<open>A\<close> to \<open>b\<close>.
\<close>

theorem cli_environment:
  assumes "list_all (\<lambda>(k, v, rest). CHR ''='' \<notin> set k \<and> CHR ''='' \<notin> set v \<and> (rest = [] \<or> hd rest = CHR ''='')) vars"
  shows "\<exists>e. parse_environment (map (\<lambda>(k, v, rest). k @ ''='' @ v @ rest) vars) ([], out) = (e, out) \<and>
    distinct (map fst e) \<and> map_of e = map_of (rev (map (\<lambda>(k, v, _). (k, v)) vars))"
  using parse_environment_vars [OF assms, of "[]" out] by simp

theorem cli_environment_witness:
  "\<exists>e. parse_environment [''A=1'', ''B=x=y'', ''A=2''] ([], []) = (e, []) \<and>
     map_of e ''A'' = Some ''2'' \<and> map_of e ''B'' = Some ''x''"
  using cli_environment [of "[(''A'', ''1'', []), (''B'', ''x'', ''=y''), (''A'', ''2'', [])]" "[]"] by auto

text \<open>
  C36. The moment printed for a log line with the time stamp \<open>ts\<close> (milliseconds): the seconds are
  right, and the sub-second part is a whole number of milliseconds below one second; but it is
  that of \<open>ts\<close> only up to \<open>296\<close> milliseconds for every full \<open>2 ^ 32\<close> milliseconds in it, because
  the cast to 32 bits comes before the remainder.
\<close>

theorem log_time_millis:
  assumes "0 \<le> sint ts"
  shows "sint (log_seconds ts) = sint ts div 1000 \<and>
    (\<exists>ms. uint (log_nanos ts) = ms * 1000000 \<and> 0 \<le> ms \<and> ms < 1000 \<and>
       (ms + 296 * (sint ts div 2 ^ 32)) mod 1000 = sint ts mod 1000)"
proof -
  have bound: "sint ts < 2 ^ 63" using sint_less [of ts] by simp
  have u: "uint ts = sint ts" using assms bound by (simp add: uint_sint take_bit_int_eq_self_iff)
  have sec: "sint (log_seconds ts) = sint ts div 1000"
  proof -
    have "0 \<le> sint ts div 1000" "sint ts div 1000 \<le> sint ts"
      using assms zdiv_mono2 [of "sint ts" 1 1000] by (simp_all add: pos_imp_zdiv_nonneg_iff)
    then have "sint (word_of_int (sint ts div 1000) :: i64) = sint ts div 1000"
      unfolding sint_sbintrunc' using bound by (intro signed_take_bit_int_eq_self) simp_all
    then show ?thesis using assms by (simp add: log_seconds_def)
  qed
  let ?ms = "(sint ts mod 2 ^ 32) mod 1000"
  have ms: "0 \<le> ?ms" "?ms < 1000" by simp_all
  have "uint (ucast ts :: u32) = sint ts mod 2 ^ 32"
    by (simp add: unsigned_ucast_eq take_bit_eq_mod u)
  then have "uint ((ucast ts :: u32) mod 1000) = ?ms" by (simp add: uint_mod)
  then have "uint (log_nanos ts) = (?ms * 1000000) mod 2 ^ 32"
    by (simp add: log_nanos_def uint_word_arith_bintrs take_bit_eq_mod)
  also have "\<dots> = ?ms * 1000000" using ms by simp
  finally have nanos: "uint (log_nanos ts) = ?ms * 1000000" .
  define q where "q = sint ts div 2 ^ 32"
  define r where "r = sint ts mod 2 ^ 32"
  have "sint ts = 2 ^ 32 * q + r" unfolding q_def r_def by (rule mult_div_mod_eq [symmetric])
  also have "\<dots> = r + 296 * q + 1000 * (4294967 * q)" by simp
  finally have "sint ts mod 1000 = (r + 296 * q) mod 1000" by (simp only: mod_mult_self2)
  then have "(?ms + 296 * (sint ts div 2 ^ 32)) mod 1000 = sint ts mod 1000"
    unfolding r_def q_def by (simp only: mod_add_left_eq)
  with sec nanos ms show ?thesis by (intro conjI exI [of _ ?ms])
qed

theorem log_time_millis_witness:
  "\<exists>ms. uint (log_nanos 1700000000123) = ms * 1000000 \<and> ms < 1000 \<and> (ms + 296 * 395) mod 1000 = 123"
  using log_time_millis [of 1700000000123] by (auto simp: sint_numeral)

text \<open>
  C34. What a user types reaches the node manager unchanged, although every number goes
  through a signed 32-bit field: the image, the number of CPUs and the memory of a \<open>run\<close>
  command are those of the machine's configuration, and the ports of a \<open>pub\<close> command are never
  refused as invalid, whatever the state of the node.
\<close>

theorem cli_values_survive:
  "request_machine_config (run_request reference vcpus memory_mb env args) =
     \<lparr>container_reference = reference, vcpu_count = vcpus, mem_size_mb = memory_mb\<rparr> \<and>
   u16_try_from (pub_host_port (pub_request i guest_port host_port)) = Some host_port \<and>
   u16_try_from (pub_guest_port (pub_request i guest_port host_port)) = Some guest_port \<and>
   fst (publish_service_port N clock auth (pub_request i guest_port host_port) w) \<noteq> Err (InvalidArgument e) \<and>
   sint (timeout_millis (rm_request i)) = 5000"
proof -
  have p: "u16_try_from (ucast x) = Some x" for x :: u16
  proof -
    have "sint (ucast x :: i32) = uint x"
    proof -
      have x: "uint x < 65536" "- 2147483648 \<le> uint x"
        using uint_lt2p [of x] order_trans [of "- 2147483648" 0 "uint x"] by simp_all
      then show ?thesis
        unfolding sint_uint unsigned_ucast_eq by (simp add: take_bit_int_eq_self signed_take_bit_int_eq_self_iff)
    qed
    moreover have "ucast (ucast x :: i32) = x" by (rule bit_word_eqI) (simp add: bit_ucast_iff)
    ultimately show ?thesis using uint_lt2p [of x] by (simp add: u16_try_from_def)
  qed
  have m: "map_err (\<lambda>_. Internal s) r \<noteq> Err (InvalidArgument e)" for s and r :: "('x, 'y) res" by (cases r) auto
  have "fst (publish_service_port N clock auth (pub_request i guest_port host_port) w) \<noteq> Err (InvalidArgument e)"
    using validate_auth_errors [of N clock auth "Some i" w] unfolding publish_service_port_def
    by (auto simp: pub_request_def p m split: option.splits prod.splits dest!: then_try_Err)
  moreover have "ucast (ucast vcpus :: i32) = vcpus" by (rule bit_word_eqI) (simp add: bit_ucast_iff)
  ultimately show ?thesis
    by (simp add: request_machine_config_def run_request_def pub_request_def p rm_request_def)
qed

end
