(* ===== verification/Guest_Calls.thy ===== *)
theory Guest_Calls
  imports Vmproto
begin

text \<open>
  The boundary between the guest's init program (\<open>instance\<close>) and what surrounds it: the
  kernel, the programs in its root file system, the metadata service, the container
  registry and the vsock to the node manager. As on the host, the surroundings are a
  parameter \<open>genv\<close> that answers a call as a function of the history, and the history is the
  effect of a definition. The bytes on the vsock are read off the history by \<open>wire\<close>.
\<close>

datatype guest_call =
    GetPid                                       \<comment> \<open>\<open>std::process::id() == 1\<close>\<close>
  | RunProgram string "string list"              \<comment> \<open>spawn, wait, exit status\<close>
  | Setsid
  | NowNanos                                     \<comment> \<open>\<open>SystemTime::now()\<close>, in nanoseconds\<close>
  | NowMillis                                    \<comment> \<open>\<open>SystemTime::now()\<close> since the epoch\<close>
  | MmdsPut string int                           \<comment> \<open>url, requested lifetime\<close>
  | MmdsGet string string                        \<comment> \<open>url, token\<close>
  | VsockConnect u32
  | SetReadTimeout
  | SetWriteTimeout
  | VsockSend "byte list"                        \<comment> \<open>\<open>write_all\<close>\<close>
  | FlushStream
  | CloneStream
  | HttpGet string "string option"               \<comment> \<open>url, bearer token\<close>
  | ContentLength                                \<comment> \<open>\<open>content_length()\<close> of the last response\<close>
  | CreateDir string
  | Unpack string "byte list" string             \<comment> \<open>decoder, archive, output folder\<close>
  | SaveFile string "byte list"
  | FileExists string
  | SpawnContainer
  | RecvExit                                     \<comment> \<open>\<open>exit_rx.recv()\<close>\<close>
  | KillContainer
  | JoinPipe
  | WaitThread                                   \<comment> \<open>what the wait thread still writes\<close>
  | Sync
  | Reboot

text \<open>
  What a thread of the program waits for and then reports to the main thread: a packet of the
  host (\<open>HostSent\<close>), the end of the stream it reads packets from (\<open>HostClosed\<close>), or the end
  of the container's process, with its exit code if it has one (\<open>ContainerDone\<close>).
\<close>

datatype exit_source = HostSent HostPacket | HostClosed | ContainerDone "i32 option"

text \<open>
  A write may fail after part of it went out. While the main thread waits for the container,
  the other threads write log lines; the answer to such a wait says which.
\<close>

datatype guest_reply =
    GDone
  | GFailed
  | GFlag bool
  | GNat nat
  | GClock "nat option"
  | GResponse nat "byte list"
  | GLength "nat option"
  | GPartial nat
  | GExit exit_source "LogMessage list"
  | GLogs "LogMessage list"

type_synonym gevent = "guest_call \<times> guest_reply"
type_synonym genv = "gevent list \<Rightarrow> guest_call \<Rightarrow> guest_reply"

definition gperform :: "genv \<Rightarrow> guest_call \<Rightarrow> gevent list \<Rightarrow> guest_reply \<times> gevent list" where
  "gperform env c tr = (env tr c, tr @ [(c, env tr c)])"

text \<open>A call whose failure is the error \<open>e\<close>.\<close>

definition gio :: "genv \<Rightarrow> 'e \<Rightarrow> guest_call \<Rightarrow> gevent list \<Rightarrow> ('e, unit) res \<times> gevent list" where
  "gio env e c tr =
     (case gperform env c tr of
        (GDone, tr') \<Rightarrow> (Ok (), tr')
      | (_, tr') \<Rightarrow> (Err e, tr'))"

text \<open>\<open>expect\<close> and \<open>unwrap\<close> on a result: an error becomes a panic.\<close>

definition or_panic :: "('e, 'a) res \<times> 's \<Rightarrow> ('f, 'a) res \<times> 's" where
  "or_panic m = (case m of (Ok a, s) \<Rightarrow> (Ok a, s) | (_, s) \<Rightarrow> (Panic, s))"

section \<open>The bytes on the vsock\<close>

fun sent :: "gevent \<Rightarrow> byte list" where
  "sent (VsockSend bs, GDone) = bs"
| "sent (VsockSend bs, GPartial n) = take n bs"
| "sent _ = []"

text \<open>
  What goes out in an event, given how the packets of the other threads are framed: those
  threads take the same lock, so their frames come out whole.
\<close>

fun event_bytes :: "(GuestPacket \<Rightarrow> byte list) \<Rightarrow> gevent \<Rightarrow> byte list" where
  "event_bytes frame (RecvExit, GExit _ logs) = concat (map (\<lambda>l. frame (Log l)) logs)"
| "event_bytes frame (JoinPipe, GLogs logs) = concat (map (\<lambda>l. frame (Log l)) logs)"
| "event_bytes frame (WaitThread, GLogs logs) = concat (map (\<lambda>l. frame (Log l)) logs)"
| "event_bytes frame e = sent e"

definition wire :: "(GuestPacket \<Rightarrow> byte list) \<Rightarrow> gevent list \<Rightarrow> byte list" where
  "wire frame tr = concat (map (event_bytes frame) tr)"

lemma wire_append [simp]: "wire frame (a @ b) = wire frame a @ wire frame b"
  by (simp add: wire_def)

lemma wire_simps [simp]: "wire frame [] = []" "wire frame (e # tr) = event_bytes frame e @ wire frame tr"
  by (simp_all add: wire_def)

lemma gio_Ok [res_simps]: "gio env e c tr = (Ok u, tr') \<longleftrightarrow> env tr c = GDone \<and> tr' = tr @ [(c, GDone)]"
  by (auto simp: gio_def gperform_def split: guest_reply.splits)

lemma snd_gio [simp]: "snd (gio env e c tr) = tr @ [(c, env tr c)]"
  by (simp add: gio_def gperform_def split: guest_reply.split)

lemma or_panic_Ok [res_simps]: "or_panic m = (Ok a, s) \<longleftrightarrow> m = (Ok a, s)"
  by (cases m; cases "fst m") (auto simp: or_panic_def)

lemma snd_or_panic [simp]: "snd (or_panic m) = snd m"
  by (cases m; cases "fst m") (auto simp: or_panic_def)

lemma fst_or_panic: "fst (or_panic m) = (case fst m of Ok a \<Rightarrow> Ok a | _ \<Rightarrow> Panic)"
  by (cases m; cases "fst m") (auto simp: or_panic_def)

section \<open>Histories that only grow\<close>

definition gextends_by :: "(guest_call \<Rightarrow> bool) \<Rightarrow> gevent list \<Rightarrow> gevent list \<Rightarrow> bool" where
  "gextends_by P tr tr' \<longleftrightarrow> (\<exists>evs. tr' = tr @ evs \<and> list_all (\<lambda>e. P (fst e)) evs)"

lemma gextends_refl [simp]: "gextends_by P tr tr"
  by (simp add: gextends_by_def)

lemma gextends_trans [trans]: "gextends_by P a b \<Longrightarrow> gextends_by P b c \<Longrightarrow> gextends_by P a c"
  by (auto simp: gextends_by_def)

lemma gextends_mono: "gextends_by P a b \<Longrightarrow> (\<And>c. P c \<Longrightarrow> Q c) \<Longrightarrow> gextends_by Q a b"
  by (fastforce simp: gextends_by_def list_all_iff)

lemma gextends_snoc [intro]: "P c \<Longrightarrow> gextends_by P tr (tr @ [(c, r)])"
  by (simp add: gextends_by_def)

lemma gextends_then_try [intro]:
  assumes "gextends_by P tr (snd m)" and "\<And>a s. m = (Ok a, s) \<Longrightarrow> gextends_by P s (snd (k a s))"
  shows "gextends_by P tr (snd (then_try m k))"
  using assms by (cases "(m, k)" rule: then_try.cases) (auto dest: gextends_trans)

lemma gextends_gio [intro]: "P c \<Longrightarrow> gextends_by P tr (snd (gio env e c tr))"
  by auto

text \<open>The calls that put bytes on the wire; a history that grows by others is silent.\<close>

fun writes_wire :: "guest_call \<Rightarrow> bool" where
  "writes_wire (VsockSend _) = True"
| "writes_wire RecvExit = True"
| "writes_wire JoinPipe = True"
| "writes_wire WaitThread = True"
| "writes_wire _ = False"

abbreviation silent :: "gevent list \<Rightarrow> gevent list \<Rightarrow> bool" where
  "silent \<equiv> gextends_by (\<lambda>c. \<not> writes_wire c)"

lemma event_bytes_silent: "\<not> writes_wire (fst e) \<Longrightarrow> event_bytes f e = []"
  by (cases e; cases "fst e"; cases "snd e") auto

lemma silent_wire: "silent tr tr' \<Longrightarrow> wire f tr' = wire f tr"
  unfolding gextends_by_def wire_def list_all_iff using event_bytes_silent by fastforce

end
