(* ===== verification/Guest_Comm.thy ===== *)
theory Guest_Comm
  imports Guest_Calls
begin

text \<open>
  \<open>instance/src/host.rs\<close>: the guest's end of the connection. Packets are written as frames on
  the vsock; commands of the host are read from it; the output of the container is cut into
  lines and sent as log packets.
\<close>

section \<open>Writing\<close>

definition BUFFER_SIZE :: nat where
  "BUFFER_SIZE = 2 * 1024"

datatype CommErrors = UnableToConnect | CommIoError | HostDeserializationError

definition HostCommunication_new :: "genv \<Rightarrow> u32 \<Rightarrow> gevent list \<Rightarrow> (CommErrors, unit) res \<times> gevent list" where
  "HostCommunication_new env port tr =
     then_try (gio env UnableToConnect (VsockConnect port) tr) (\<lambda>_ tr.
     then_try (gio env CommIoError SetReadTimeout tr) (\<lambda>_ tr.
     then_try (gio env CommIoError SetWriteTimeout tr) (\<lambda>_ tr. (Ok (), tr))))"

definition write_without_flush ::
  "genv \<Rightarrow> GuestPacket codec \<Rightarrow> GuestPacket \<Rightarrow> gevent list \<Rightarrow> (CommErrors, unit) res \<times> gevent list" where
  "write_without_flush env bitcode packet tr =
     (let data = serialize_guest_packet bitcode packet in
      then_try (gio env CommIoError (VsockSend (u32_to_be_bytes (of_nat (length data)))) tr) (\<lambda>_ tr.
      then_try (gio env CommIoError (VsockSend data) tr) (\<lambda>_ tr. (Ok (), tr))))"

definition flush_stream :: "genv \<Rightarrow> gevent list \<Rightarrow> (CommErrors, unit) res \<times> gevent list" where
  "flush_stream env tr = then_try (gio env CommIoError FlushStream tr) (\<lambda>_ tr. (Ok (), tr))"

definition write_packet ::
  "genv \<Rightarrow> GuestPacket codec \<Rightarrow> GuestPacket \<Rightarrow> gevent list \<Rightarrow> (CommErrors, unit) res \<times> gevent list" where
  "write_packet env bitcode packet tr =
     then_try (write_without_flush env bitcode packet tr) (\<lambda>_ tr.
     then_try (flush_stream env tr) (\<lambda>_ tr. (Ok (), tr)))"

text \<open>The clock that stamps a packet.\<close>

definition read_clock :: "genv \<Rightarrow> gevent list \<Rightarrow> nat option \<times> gevent list" where
  "read_clock env tr =
     (case gperform env NowMillis tr of (GClock t, tr') \<Rightarrow> (t, tr') | (_, tr') \<Rightarrow> (None, tr'))"

definition log_system_message ::
  "genv \<Rightarrow> GuestPacket codec \<Rightarrow> string \<Rightarrow> gevent list \<Rightarrow> ('e, unit) res \<times> gevent list" where
  "log_system_message env bitcode message tr =
     (case read_clock env tr of
        (clock, tr) \<Rightarrow> or_panic (write_packet env bitcode (Log (LogMessage_system clock message)) tr))"

text \<open>The optional message that follows a state change or an exit.\<close>

definition write_message ::
  "genv \<Rightarrow> GuestPacket codec \<Rightarrow> string option \<Rightarrow> gevent list \<Rightarrow> ('e, unit) res \<times> gevent list" where
  "write_message env bitcode message tr =
     (case message of
        None \<Rightarrow> (Ok (), tr)
      | Some m \<Rightarrow>
          (case read_clock env tr of
             (clock, tr) \<Rightarrow> or_panic (write_without_flush env bitcode (Log (LogMessage_system clock m)) tr)))"

definition state_change ::
  "genv \<Rightarrow> GuestPacket codec \<Rightarrow> InitVmState \<Rightarrow> string option \<Rightarrow> gevent list \<Rightarrow> ('e, unit) res \<times> gevent list"
  where
  "state_change env bitcode state message tr =
     (case read_clock env tr of
        (clock, tr) \<Rightarrow>
          then_try (or_panic (write_without_flush env bitcode (VmState (state, get_timestamp_ms clock)) tr)) (\<lambda>_ tr.
          then_try (write_message env bitcode message tr) (\<lambda>_ tr.
          or_panic (flush_stream env tr))))"

definition send_exit ::
  "genv \<Rightarrow> GuestPacket codec \<Rightarrow> GuestExitCode \<Rightarrow> string option \<Rightarrow> gevent list \<Rightarrow> ('e, unit) res \<times> gevent list"
  where
  "send_exit env bitcode exit_code message tr =
     then_try (or_panic (write_without_flush env bitcode (Exited exit_code) tr)) (\<lambda>_ tr.
     then_try (write_message env bitcode message tr) (\<lambda>_ tr.
     or_panic (flush_stream env tr)))"

definition clone_stream :: "genv \<Rightarrow> gevent list \<Rightarrow> (CommErrors, unit) res \<times> gevent list" where
  "clone_stream env tr = gio env CommIoError CloneStream tr"

section \<open>Reading\<close>

definition read_packet ::
  "HostPacket codec \<Rightarrow> byte list \<Rightarrow> (CommErrors, HostPacket \<times> byte list) res" where
  "read_packet bitcode inp =
     (case read_exact 4 inp of
        None \<Rightarrow> Err CommIoError
      | Some (len_buf, inp) \<Rightarrow>
          (let len = unat (u32_from_be_bytes len_buf) in
           if len > BUFFER_SIZE then Err HostDeserializationError
           else
             (case read_exact len inp of
                None \<Rightarrow> Err CommIoError
              | Some (data, inp) \<Rightarrow>
                  (case deserialize_host_packet bitcode data of
                     None \<Rightarrow> Err HostDeserializationError
                   | Some packet \<Rightarrow> Ok (packet, inp)))))"

definition host_frame :: "HostPacket codec \<Rightarrow> HostPacket \<Rightarrow> byte list" where
  "host_frame bitcode p = length_prefixed (serialize_host_packet bitcode p)"

definition host_packet_sound :: "HostPacket codec \<Rightarrow> HostPacket \<Rightarrow> bool" where
  "host_packet_sound bitcode p \<longleftrightarrow>
     decode bitcode (encode bitcode p) = Some p \<and> length (encode bitcode p) \<le> BUFFER_SIZE"

definition next_host_packet :: "HostPacket codec \<Rightarrow> byte list \<Rightarrow> (HostPacket \<times> byte list) option" where
  "next_host_packet bitcode inp = (case read_packet bitcode inp of Ok x \<Rightarrow> Some x | _ \<Rightarrow> None)"

lemma read_packet_frame:
  assumes "host_packet_sound bitcode p"
  shows "read_packet bitcode (host_frame bitcode p @ rest) = Ok (p, rest)"
proof -
  let ?d = "encode bitcode p"
  have len: "length ?d \<le> 2 * 1024" and dec: "decode bitcode ?d = Some p"
    using assms by (auto simp: host_packet_sound_def BUFFER_SIZE_def)
  then have "unat (of_nat (length ?d) :: u32) = length ?d" by (intro unat_length_u32) simp
  then show ?thesis
    using len dec
    by (simp add: read_packet_def host_frame_def length_prefixed_def serialize_host_packet_def
        deserialize_host_packet_def BUFFER_SIZE_def)
qed

lemma next_host_packet_shrinks:
  "next_host_packet bitcode inp = Some (p, rest) \<Longrightarrow> length rest < length inp"
  by (auto simp: next_host_packet_def read_packet_def Let_def
      split: option.splits if_splits res.splits dest!: read_exact_length)

interpretation host_stream:
  packet_channel "host_frame bitcode" "next_host_packet bitcode" "host_packet_sound bitcode" for bitcode
  by unfold_locales (auto simp: next_host_packet_def read_packet_frame dest: next_host_packet_shrinks
      [unfolded next_host_packet_def])

section \<open>What a write puts on the wire\<close>

definition frame_of :: "GuestPacket codec \<Rightarrow> GuestPacket \<Rightarrow> byte list" where
  "frame_of bitcode p = length_prefixed (serialize_guest_packet bitcode p)"

lemma write_without_flush_wire:
  assumes "write_without_flush env bitcode p tr = (Ok u, tr')"
  shows "wire f tr' = wire f tr @ frame_of bitcode p"
  using assms by (auto simp: write_without_flush_def Let_def res_simps frame_of_def length_prefixed_def)

lemma flush_stream_wire: "flush_stream env tr = (Ok u, tr') \<Longrightarrow> wire f tr' = wire f tr"
  by (auto simp: flush_stream_def res_simps)

lemma read_clock_wire: "read_clock env tr = (t, tr') \<Longrightarrow> wire f tr' = wire f tr"
  by (cases "env tr NowMillis") (auto simp: read_clock_def gperform_def)

lemma write_message_wire:
  assumes "write_message env bitcode message tr = (Ok u, tr')"
  shows "\<exists>logs. wire f tr' = wire f tr @ concat (map (\<lambda>l. frame_of bitcode (Log l)) logs) \<and>
    map log_text logs = (case message of None \<Rightarrow> [] | Some m \<Rightarrow> [m])"
proof (cases message)
  case (Some m)
  obtain clock tr1 where c: "read_clock env tr = (clock, tr1)" by (metis surj_pair)
  have "write_without_flush env bitcode (Log (LogMessage_system clock m)) tr1 = (Ok u, tr')"
    using assms by (simp add: write_message_def Some c or_panic_Ok)
  from write_without_flush_wire [OF this] read_clock_wire [OF c] Some show ?thesis
    by (intro exI [of _ "[LogMessage_system clock m]"]) (simp add: LogMessage_system_def LogMessage_new_def)
qed (use assms in \<open>auto simp: write_message_def intro: exI [of _ "[]"]\<close>)

lemma log_system_message_wire:
  assumes "log_system_message env bitcode m tr = (Ok u, tr')"
  shows "\<exists>l. wire f tr' = wire f tr @ frame_of bitcode (Log l) \<and> log_text l = m"
proof -
  obtain clock tr1 where c: "read_clock env tr = (clock, tr1)" by (metis surj_pair)
  obtain tr2 where w: "write_without_flush env bitcode (Log (LogMessage_system clock m)) tr1 = (Ok (), tr2)"
    and "wire f tr' = wire f tr2"
    using assms flush_stream_wire by (auto simp: log_system_message_def c res_simps write_packet_def)
  with write_without_flush_wire [OF w] read_clock_wire [OF c] show ?thesis
    by (intro exI [of _ "LogMessage_system clock m"]) (simp add: LogMessage_system_def LogMessage_new_def)
qed

lemma state_change_wire:
  assumes "state_change env bitcode s message tr = (Ok u, tr')"
  shows "\<exists>t logs. wire f tr' = wire f tr @ frame_of bitcode (VmState (s, t)) @
      concat (map (\<lambda>l. frame_of bitcode (Log l)) logs) \<and>
    map log_text logs = (case message of None \<Rightarrow> [] | Some m \<Rightarrow> [m])"
proof -
  obtain clock tr1 where c: "read_clock env tr = (clock, tr1)" by (metis surj_pair)
  obtain tr2 tr3 where w: "write_without_flush env bitcode (VmState (s, get_timestamp_ms clock)) tr1 = (Ok (), tr2)"
    and m: "(write_message env bitcode message tr2 :: ('a, unit) res \<times> gevent list) = (Ok (), tr3)"
    and fl: "flush_stream env tr3 = (Ok u, tr')"
    using assms by (auto simp: state_change_def c res_simps)
  from write_message_wire [OF m, of f] write_without_flush_wire [OF w, of f] read_clock_wire [OF c, of f]
    flush_stream_wire [OF fl, of f]
  show ?thesis by auto
qed

lemma send_exit_wire:
  assumes "send_exit env bitcode code message tr = (Ok u, tr')"
  shows "\<exists>logs. wire f tr' = wire f tr @ frame_of bitcode (Exited code) @
      concat (map (\<lambda>l. frame_of bitcode (Log l)) logs) \<and>
    map log_text logs = (case message of None \<Rightarrow> [] | Some m \<Rightarrow> [m])"
proof -
  obtain tr2 tr3 where w: "write_without_flush env bitcode (Exited code) tr = (Ok (), tr2)"
    and m: "(write_message env bitcode message tr2 :: ('a, unit) res \<times> gevent list) = (Ok (), tr3)"
    and fl: "flush_stream env tr3 = (Ok u, tr')"
    using assms by (auto simp: send_exit_def res_simps)
  from write_message_wire [OF m, of f] write_without_flush_wire [OF w, of f] flush_stream_wire [OF fl, of f]
  show ?thesis by auto
qed

section \<open>The calls of the writers\<close>

fun comm_call :: "guest_call \<Rightarrow> bool" where
  "comm_call NowMillis = True"
| "comm_call (VsockSend _) = True"
| "comm_call FlushStream = True"
| "comm_call _ = False"

lemma read_clock_calls: "read_clock env tr = (t, tr') \<Longrightarrow> gextends_by comm_call tr tr'"
  by (cases "env tr NowMillis") (auto simp: read_clock_def gperform_def)

lemma write_calls: "gextends_by comm_call tr (snd (write_without_flush env bitcode p tr))"
  unfolding write_without_flush_def Let_def by (intro gextends_then_try gextends_gio) simp_all

lemma flush_calls: "gextends_by comm_call tr (snd (flush_stream env tr))"
  unfolding flush_stream_def by (intro gextends_then_try gextends_gio) simp_all

lemma log_system_message_calls: "gextends_by comm_call tr (snd (log_system_message env bitcode m tr))"
proof -
  obtain t tr' where c: "read_clock env tr = (t, tr')" by (metis surj_pair)
  have "gextends_by comm_call tr' (snd (log_system_message env bitcode m tr))"
    unfolding log_system_message_def c prod.case write_packet_def snd_or_panic
    by (intro gextends_then_try write_calls flush_calls) simp_all
  with read_clock_calls [OF c] show ?thesis by (rule gextends_trans)
qed

lemma write_message_calls: "gextends_by comm_call tr (snd (write_message env bitcode m tr))"
proof (cases m)
  case (Some t)
  obtain t' tr' where c: "read_clock env tr = (t', tr')" by (metis surj_pair)
  have "gextends_by comm_call tr' (snd (write_message env bitcode m tr))"
    unfolding write_message_def Some option.case c prod.case snd_or_panic by (rule write_calls)
  with read_clock_calls [OF c] show ?thesis by (rule gextends_trans)
qed (simp add: write_message_def)

lemma state_change_calls: "gextends_by comm_call tr (snd (state_change env bitcode s m tr))"
proof -
  obtain t tr' where c: "read_clock env tr = (t, tr')" by (metis surj_pair)
  have "gextends_by comm_call tr' (snd (state_change env bitcode s m tr))"
    unfolding state_change_def c prod.case
    by (intro gextends_then_try) (simp_all add: write_calls write_message_calls flush_calls)
  with read_clock_calls [OF c] show ?thesis by (rule gextends_trans)
qed

lemma send_exit_calls: "gextends_by comm_call tr (snd (send_exit env bitcode code m tr))"
  unfolding send_exit_def
  by (intro gextends_then_try) (simp_all add: write_calls write_message_calls flush_calls)

section \<open>Code that only logs\<close>

text \<open>
  Unless it panics, such code adds whole log packets to the stream. Between the fixed packets
  of the protocol, this is all the guest does.
\<close>

abbreviation frames :: "GuestPacket codec \<Rightarrow> GuestPacket list \<Rightarrow> byte list" where
  "frames bitcode ps \<equiv> concat (map (frame_of bitcode) ps)"

definition logs_to :: "GuestPacket codec \<Rightarrow> gevent list \<Rightarrow> ('e, 'a) res \<times> gevent list \<Rightarrow> bool" where
  "logs_to bitcode tr m \<longleftrightarrow>
     (fst m \<noteq> Panic \<longrightarrow>
        (\<exists>logs. wire (frame_of bitcode) (snd m) = wire (frame_of bitcode) tr @ frames bitcode (map Log logs)))"

lemma logs_to_silent: "silent tr (snd m) \<Longrightarrow> logs_to bitcode tr m"
  by (auto simp: logs_to_def silent_wire intro!: exI [of _ "[]"])

lemma logs_to_after:
  assumes "wire (frame_of bitcode) s = wire (frame_of bitcode) tr @ frames bitcode (map Log logs)"
    and "logs_to bitcode s m"
  shows "logs_to bitcode tr m"
  unfolding logs_to_def
proof (intro impI)
  assume "fst m \<noteq> Panic"
  then obtain l2 where "wire (frame_of bitcode) (snd m) = wire (frame_of bitcode) s @ frames bitcode (map Log l2)"
    using assms(2) by (auto simp: logs_to_def)
  with assms(1) show "\<exists>logs. wire (frame_of bitcode) (snd m) =
      wire (frame_of bitcode) tr @ frames bitcode (map Log logs)"
    by (intro exI [of _ "logs @ l2"]) simp
qed

lemma logs_to_then_try [intro]:
  assumes "logs_to bitcode tr m" and "\<And>a s. m = (Ok a, s) \<Longrightarrow> logs_to bitcode s (k a s)"
  shows "logs_to bitcode tr (then_try m k)"
proof (cases "(m, k)" rule: then_try.cases)
  case (1 a s k')
  with assms(1) obtain l1 where
    "wire (frame_of bitcode) s = wire (frame_of bitcode) tr @ frames bitcode (map Log l1)"
    by (auto simp: logs_to_def)
  from logs_to_after [OF this assms(2) [of a s]] 1 show ?thesis by simp
qed (use assms(1) in \<open>auto simp: logs_to_def\<close>)

lemma logs_to_or_panic: "logs_to bitcode tr m \<Longrightarrow> logs_to bitcode tr (or_panic m)"
  by (cases m; cases "fst m") (auto simp: logs_to_def or_panic_def)

lemma logs_to_gio [intro]: "\<not> writes_wire c \<Longrightarrow> logs_to bitcode tr (gio env e c tr)"
  by (intro logs_to_silent gextends_gio)

lemma logs_to_pure [intro]: "logs_to bitcode tr (r, tr)"
  by (intro logs_to_silent) simp

lemma log_system_message_logs [intro]:
  "logs_to bitcode tr (log_system_message env bitcode m tr)"
proof -
  obtain r tr' where l: "log_system_message env bitcode m tr = ((r, tr') :: ('a, unit) res \<times> gevent list)"
    by (metis surj_pair)
  show ?thesis
  proof (cases r)
    case (Ok u)
    from log_system_message_wire [OF l [unfolded Ok], of "frame_of bitcode"] obtain x where
      "wire (frame_of bitcode) tr' = wire (frame_of bitcode) tr @ frame_of bitcode (Log x)" by blast
    then show ?thesis unfolding l logs_to_def by (intro impI exI [of _ "[x]"]) simp
  next
    case (Err e)
    then show ?thesis
      using l by (auto simp: log_system_message_def or_panic_def split: prod.splits res.splits)
  qed (simp add: l logs_to_def)
qed

text \<open>These writers panic where they fail, so they never return an error.\<close>

definition no_err :: "('e, 'a) res \<times> 's \<Rightarrow> bool" where
  "no_err m \<longleftrightarrow> (\<forall>e. fst m \<noteq> Err e)"

lemma no_err_then_try [intro]: "no_err m \<Longrightarrow> (\<And>a s. no_err (k a s)) \<Longrightarrow> no_err (then_try m k)"
  by (cases "(m, k)" rule: then_try.cases) (auto simp: no_err_def)

lemma no_err_or_panic [intro]: "no_err (or_panic m)"
  by (auto simp: no_err_def fst_or_panic split: res.split)

lemma no_err_write_message [intro]: "no_err (write_message env bitcode m tr)"
  by (cases m) (auto simp: write_message_def no_err_def fst_or_panic case_prod_unfold split: res.split)

lemma no_err_state_change: "no_err (state_change env bitcode s m tr)"
  unfolding state_change_def case_prod_unfold by (intro no_err_then_try no_err_or_panic no_err_write_message)

lemma no_err_send_exit: "no_err (send_exit env bitcode c m tr)"
  unfolding send_exit_def by (intro no_err_then_try no_err_or_panic no_err_write_message)

lemma no_err_log_system_message: "no_err (log_system_message env bitcode m tr)"
  unfolding log_system_message_def case_prod_unfold by (rule no_err_or_panic)

end
