(* ===== verification/Guest_Boot.thy ===== *)
theory Guest_Boot
  imports Guest_Calls "HOL-Library.Sublist"
begin

text \<open>
  What the guest does before it talks to the node manager: \<open>instance/src/sh.rs\<close> and
  \<open>init.rs\<close> (mounting and setting up the root file system with busybox) and \<open>mmds.rs\<close> (the
  client of Firecracker's metadata service, with its session token). Parsing a response
  (\<open>serde_json\<close>) is a parameter.
\<close>

section \<open>Commands (sh.rs) and set-up (init.rs)\<close>

definition run_or_panic :: "genv \<Rightarrow> string \<Rightarrow> string list \<Rightarrow> gevent list \<Rightarrow> ('e, unit) res \<times> gevent list" where
  "run_or_panic env prog args tr =
     (case gperform env (RunProgram prog args) tr of
        (GFlag True, tr') \<Rightarrow> (Ok (), tr')
      | (_, tr') \<Rightarrow> (Panic, tr'))"

definition sh_cmd :: "genv \<Rightarrow> string list \<Rightarrow> gevent list \<Rightarrow> ('e, unit) res \<times> gevent list" where
  "sh_cmd env args tr = run_or_panic env ''/sbin/busybox'' args tr"

definition mke2fs :: "genv \<Rightarrow> string list \<Rightarrow> gevent list \<Rightarrow> ('e, unit) res \<times> gevent list" where
  "mke2fs env args tr = run_or_panic env ''/sbin/mke2fs'' args tr"

definition guest_init :: "genv \<Rightarrow> gevent list \<Rightarrow> ('e, unit) res \<times> gevent list" where
  "guest_init env tr =
     then_try (sh_cmd env [''mount'', ''-t'', ''proc'', ''proc'', ''/proc''] tr) (\<lambda>_ tr.
     then_try (sh_cmd env [''mount'', ''-t'', ''sysfs'', ''sysfs'', ''/sys''] tr) (\<lambda>_ tr.
     then_try (sh_cmd env [''mount'', ''-t'', ''tmpfs'', ''tmpfs'', ''/run''] tr) (\<lambda>_ tr.
     then_try (sh_cmd env [''mount'', ''-t'', ''tmpfs'', ''tmpfs'', ''/var/run''] tr) (\<lambda>_ tr.
     then_try (sh_cmd env [''mkdir'', ''-p'', ''/dev/pts''] tr) (\<lambda>_ tr.
     then_try (sh_cmd env [''mount'', ''-t'', ''devpts'', ''devpts'', ''/dev/pts''] tr) (\<lambda>_ tr.
     then_try (sh_cmd env [''mount'', ''-t'', ''cgroup2'', ''cgroup2'', ''/sys/fs/cgroup''] tr) (\<lambda>_ tr.
     then_try (mke2fs env [''-t'', ''ext4'', ''-O'', ''^has_journal'', ''/dev/vdb''] tr) (\<lambda>_ tr.
     then_try (sh_cmd env [''mount'', ''/dev/vdb'', ''/mnt''] tr) (\<lambda>_ tr.
     (case gperform env Setsid tr of (_, tr) \<Rightarrow>
     then_try (sh_cmd env [''sysctl'', ''-w'', ''net.ipv4.ip_unprivileged_port_start=0''] tr) (\<lambda>_ tr.
     sh_cmd env [''sysctl'', ''-w'', ''net.ipv4.ip_forward=1''] tr)))))))))))"

section \<open>The metadata client (mmds.rs)\<close>

text \<open>\<open>str::trim\<close>: the UTF-8 encodings of Unicode white space are stripped from both ends.\<close>

definition white_spaces :: "byte list list" where
  "white_spaces =
     map (\<lambda>b. [b]) [9, 10, 11, 12, 13, 32] @ [[0xC2, 0x85], [0xC2, 0xA0], [0xE1, 0x9A, 0x80]] @
     map (\<lambda>b. [0xE2, 0x80, b]) [0x80, 0x81, 0x82, 0x83, 0x84, 0x85, 0x86, 0x87, 0x88, 0x89, 0x8A, 0xA8, 0xA9, 0xAF] @
     [[0xE2, 0x81, 0x9F], [0xE3, 0x80, 0x80]]"

function strip_prefixes :: "byte list list \<Rightarrow> byte list \<Rightarrow> byte list" where
  "strip_prefixes ws bs =
     (case find (\<lambda>w. w \<noteq> [] \<and> prefix w bs) ws of
        None \<Rightarrow> bs
      | Some w \<Rightarrow> strip_prefixes ws (drop (length w) bs))"
  by pat_completeness auto

termination strip_prefixes
  by (relation "measure (\<lambda>(_, bs). length bs)") (auto simp: find_Some_iff prefix_def)

declare strip_prefixes.simps [simp del]

definition trim :: "byte list \<Rightarrow> byte list" where
  "trim bs = rev (strip_prefixes (map rev white_spaces) (rev (strip_prefixes white_spaces bs)))"

record MMDSClient =
  mmds_token :: "byte list"
  token_expiry :: int

datatype MMDSClientError = RequestError | ResponseSchemaParseError

text \<open>Points in time and durations (\<open>Duration::from_secs\<close>) are in nanoseconds.\<close>

definition secs :: "int \<Rightarrow> int" where
  "secs n = n * 1000000000"

definition now_nanos :: "genv \<Rightarrow> gevent list \<Rightarrow> int \<times> gevent list" where
  "now_nanos env tr = (case gperform env NowNanos tr of (GNat n, tr') \<Rightarrow> (int n, tr') | (_, tr') \<Rightarrow> (0, tr'))"

text \<open>
  The response to a request is a status and the text of its body; a body that cannot be read
  as text is answered by \<open>GFailed\<close>, like a request that cannot be sent.
\<close>

definition rotate_token ::
  "genv \<Rightarrow> MMDSClient \<times> gevent list \<Rightarrow> (MMDSClientError, unit) res \<times> (MMDSClient \<times> gevent list)" where
  "rotate_token env = (\<lambda>(c, tr).
     (case now_nanos env tr of
        (now, tr) \<Rightarrow>
          if now \<ge> token_expiry c - secs 60 then
            (case now_nanos env tr of
               (now, tr) \<Rightarrow>
                 (let expiry = now + secs 14400 in
                  case gperform env (MmdsPut ''http://169.254.169.254/latest/api/token'' 14400) tr of
                    (GResponse status body, tr) \<Rightarrow>
                      if status \<noteq> 200 then (Err RequestError, (c, tr))
                      else if body = [] then (Err ResponseSchemaParseError, (c, tr))
                      else (Ok (), (c\<lparr>mmds_token := trim body, token_expiry := expiry\<rparr>, tr))
                  | (_, tr) \<Rightarrow> (Err RequestError, (c, tr))))
          else (Ok (), (c, tr))))"

definition mmds_connect :: "genv \<Rightarrow> gevent list \<Rightarrow> (MMDSClientError, MMDSClient) res \<times> gevent list" where
  "mmds_connect env tr =
     (case now_nanos env tr of
        (now, tr) \<Rightarrow>
          (case rotate_token env (\<lparr>mmds_token = [], token_expiry = now - secs (60 * 60)\<rparr>, tr) of
             (Ok _, (c, tr)) \<Rightarrow> (Ok c, tr)
           | (Err e, (c, tr)) \<Rightarrow> (Err e, tr)
           | (Panic, (c, tr)) \<Rightarrow> (Panic, tr)))"

definition mmds_get ::
  "genv \<Rightarrow> (byte list \<Rightarrow> 't option) \<Rightarrow> string \<Rightarrow> MMDSClient \<times> gevent list
     \<Rightarrow> (MMDSClientError, 't) res \<times> (MMDSClient \<times> gevent list)" where
  "mmds_get env from_json resource_path s =
     then_try (rotate_token env s) (\<lambda>_ (c, tr).
       (case gperform env (MmdsGet (''http://169.254.169.254'' @ resource_path)
               (map (\<lambda>b. char_of (unat b)) (mmds_token c))) tr of
          (GResponse status body, tr) \<Rightarrow>
            if status \<noteq> 200 then (Err RequestError, (c, tr))
            else
              (case from_json body of
                 Some out \<Rightarrow> (Ok out, (c, tr))
               | None \<Rightarrow> (Err ResponseSchemaParseError, (c, tr)))
        | (_, tr) \<Rightarrow> (Err RequestError, (c, tr))))"

section \<open>The calls of the set-up\<close>

fun setup_call :: "guest_call \<Rightarrow> bool" where
  "setup_call (RunProgram _ _) = True"
| "setup_call Setsid = True"
| "setup_call NowNanos = True"
| "setup_call (MmdsPut _ _) = True"
| "setup_call (MmdsGet _ _) = True"
| "setup_call _ = False"

abbreviation sets_up :: "gevent list \<Rightarrow> gevent list \<Rightarrow> bool" where
  "sets_up \<equiv> gextends_by setup_call"

lemma snd_run_or_panic [simp]:
  "snd (run_or_panic env prog args tr) = tr @ [(RunProgram prog args, env tr (RunProgram prog args))]"
  by (simp add: run_or_panic_def gperform_def split: guest_reply.split bool.split)

lemma sets_up_run [intro]: "sets_up tr (snd (run_or_panic env prog args tr))"
  by auto

lemma silent_run [intro]: "silent tr (snd (run_or_panic env prog args tr))"
  by auto

lemma guest_init_calls: "sets_up tr (snd (guest_init env tr))"
proof -
  have s: "sets_up (tr @ [(Setsid, env tr Setsid)]) t \<Longrightarrow> sets_up tr t" for tr t
    by (erule gextends_trans [rotated]) auto
  show ?thesis
    unfolding guest_init_def sh_cmd_def mke2fs_def gperform_def prod.case
    by (intro gextends_then_try sets_up_run, rule s) (intro gextends_then_try sets_up_run)
qed

lemma now_nanos_snd [simp]: "snd (now_nanos env tr) = tr @ [(NowNanos, env tr NowNanos)]"
  by (cases "env tr NowNanos") (simp_all add: now_nanos_def gperform_def)

lemma rotate_token_calls: "sets_up (snd s) (snd (snd (rotate_token env s)))"
proof -
  obtain c tr where s: "s = (c, tr)" by (cases s)
  let ?tr1 = "tr @ [(NowNanos, env tr NowNanos)]"
  let ?tr2 = "?tr1 @ [(NowNanos, env ?tr1 NowNanos)]"
  let ?put = "MmdsPut ''http://169.254.169.254/latest/api/token'' 14400"
  obtain n1 n2 where n: "now_nanos env tr = (n1, ?tr1)" "now_nanos env ?tr1 = (n2, ?tr2)"
    by (metis prod.collapse now_nanos_snd)
  have "snd (snd (rotate_token env s)) = ?tr1 \<or> snd (snd (rotate_token env s)) = ?tr2 @ [(?put, env ?tr2 ?put)]"
    by (cases "env ?tr2 ?put") (simp_all add: s rotate_token_def n gperform_def)
  then show ?thesis by (auto simp: s gextends_by_def)
qed

lemma mmds_connect_calls: "sets_up tr (snd (mmds_connect env tr))"
proof -
  obtain now where n: "now_nanos env tr = (now, tr @ [(NowNanos, env tr NowNanos)])"
    by (metis prod.collapse now_nanos_snd)
  obtain r c tr' where r: "rotate_token env (\<lparr>mmds_token = [], token_expiry = now - secs (60 * 60)\<rparr>,
      tr @ [(NowNanos, env tr NowNanos)]) = (r, (c, tr'))" by (metis surj_pair)
  have "snd (mmds_connect env tr) = tr'" 
    unfolding mmds_connect_def n prod.case r by (cases r) simp_all
  moreover have "sets_up (tr @ [(NowNanos, env tr NowNanos)]) tr'"
    using rotate_token_calls [of "(\<lparr>mmds_token = [], token_expiry = now - secs (60 * 60)\<rparr>,
      tr @ [(NowNanos, env tr NowNanos)])" env] r by simp
  moreover have "sets_up tr (tr @ [(NowNanos, env tr NowNanos)])" by auto
  ultimately show ?thesis by (metis gextends_trans)
qed

lemma mmds_get_calls: "sets_up (snd s) (snd (snd (mmds_get env js path s)))"
proof -
  obtain r c tr where r: "rotate_token env s = (r, (c, tr))" by (metis surj_pair)
  have 1: "sets_up (snd s) tr" using rotate_token_calls [of s env] r by simp
  let ?g = "MmdsGet (''http://169.254.169.254'' @ path) (map (\<lambda>b. char_of (unat b)) (mmds_token c))"
  have 2: "sets_up tr (tr @ [(?g, env tr ?g)])" by auto
  have "snd (snd (mmds_get env js path s)) \<in> {tr, tr @ [(?g, env tr ?g)]}"
    by (cases r; cases "env tr ?g") (auto simp: mmds_get_def r gperform_def split: option.split)
  with 1 gextends_trans [OF 1 2] show ?thesis by auto
qed

section \<open>Properties\<close>

text \<open>
  C33. The metadata client never uses a session token in the last minute of its life, and
  asks for a new one only then. If the token is good for more than 60 seconds at the moment
  of the check, \<open>rotate_token\<close> keeps it and makes no request. Otherwise it makes exactly one
  request for a token of four hours, stores the answer without surrounding white space, and
  counts its life from a moment before the request. Either way the token it leaves is good
  for more than 60 seconds from the check.
\<close>

theorem mmds_token_is_fresh:
  assumes "env tr NowNanos = GNat n1" and "env (tr @ [(NowNanos, GNat n1)]) NowNanos = GNat n2" and "n1 \<le> n2"
    and "rotate_token env (c, tr) = (Ok (), (c', tr'))"
  shows "int n1 + secs 60 < token_expiry c' \<and>
    (if int n1 + secs 60 < token_expiry c then c' = c \<and> tr' = tr @ [(NowNanos, GNat n1)]
     else \<exists>body. body \<noteq> [] \<and>
       tr' = tr @ [(NowNanos, GNat n1), (NowNanos, GNat n2),
         (MmdsPut ''http://169.254.169.254/latest/api/token'' 14400, GResponse 200 body)] \<and>
       mmds_token c' = trim body \<and> token_expiry c' = int n2 + secs (4 * 60 * 60))"
proof -
  have n: "now_nanos env tr = (int n1, tr @ [(NowNanos, GNat n1)])"
    "now_nanos env (tr @ [(NowNanos, GNat n1)]) = (int n2, tr @ [(NowNanos, GNat n1), (NowNanos, GNat n2)])"
    using assms(1,2) by (simp_all add: now_nanos_def gperform_def)
  let ?tr2 = "tr @ [(NowNanos, GNat n1), (NowNanos, GNat n2)]"
  let ?put = "MmdsPut ''http://169.254.169.254/latest/api/token'' 14400"
  show ?thesis
    using assms(3,4)
    by (cases "env ?tr2 ?put") (auto simp: rotate_token_def n gperform_def secs_def split: if_splits)
qed

definition sample_guest :: genv where
  "sample_guest tr c =
     (case c of NowNanos \<Rightarrow> GNat 1000000 | MmdsPut _ _ \<Rightarrow> GResponse 200 [116, 10] | _ \<Rightarrow> GDone)"

theorem mmds_token_is_fresh_witness:
  "(\<exists>c' tr'. rotate_token sample_guest (\<lparr>mmds_token = [], token_expiry = 0\<rparr>, []) = (Ok (), (c', tr')) \<and>
     mmds_token c' = trim [116, 10] \<and> token_expiry c' = 14400001000000) \<and>
   (\<exists>tr'. rotate_token sample_guest (\<lparr>mmds_token = [116], token_expiry = 60001000001\<rparr>, []) =
     (Ok (), (\<lparr>mmds_token = [116], token_expiry = 60001000001\<rparr>, tr')) \<and> length tr' = 1)"
proof -
  have clock: "sample_guest [] NowNanos = GNat 1000000"
    "sample_guest ([] @ [(NowNanos, GNat 1000000)]) NowNanos = GNat 1000000"
    by (simp_all add: sample_guest_def)
  obtain c1 tr1 where r1: "rotate_token sample_guest (\<lparr>mmds_token = [], token_expiry = 0\<rparr>, []) = (Ok (), (c1, tr1))"
    by (simp add: rotate_token_def now_nanos_def gperform_def sample_guest_def secs_def)
  obtain c2 tr2 where r2: "rotate_token sample_guest (\<lparr>mmds_token = [116], token_expiry = 60001000001\<rparr>, []) =
      (Ok (), (c2, tr2))"
    by (simp add: rotate_token_def now_nanos_def gperform_def sample_guest_def secs_def)
  obtain body where "tr1 = [(NowNanos, GNat 1000000), (NowNanos, GNat 1000000),
      (MmdsPut ''http://169.254.169.254/latest/api/token'' 14400, GResponse 200 body)]"
    and c1: "mmds_token c1 = trim body" "token_expiry c1 = 1000000 + secs (4 * 60 * 60)"
    using mmds_token_is_fresh [OF clock _ r1] by (auto simp: secs_def)
  moreover have "last tr1 = (MmdsPut ''http://169.254.169.254/latest/api/token'' 14400, GResponse 200 [116, 10])"
    using r1 by (auto simp: rotate_token_def now_nanos_def gperform_def sample_guest_def secs_def)
  ultimately have "mmds_token c1 = trim [116, 10] \<and> token_expiry c1 = 14400001000000" by (simp add: secs_def)
  moreover have "c2 = \<lparr>mmds_token = [116], token_expiry = 60001000001\<rparr> \<and> length tr2 = 1"
    using mmds_token_is_fresh [OF clock _ r2] by (simp add: secs_def)
  ultimately show ?thesis using r1 r2 by blast
qed

end
