(* ===== verification/Guest_Runtime.thy ===== *)
theory Guest_Runtime
  imports Btree_Map
begin

text \<open>
  \<open>instance/src/containers/rt.rs\<close>: the runtime specification of the container, computed from
  the image's configuration and the overrides of the provision request. The builders of the
  \<open>oci_spec\<close> package are parameters (\<open>oci\<close>): the specification they build from the fields
  the code sets, unless one of them refuses, and the default specification.
\<close>

section \<open>Data\<close>

datatype Capability =
    AuditWrite | Chown | DacOverride | Fowner | Fsetid | Kill | Mknod | NetBindService | NetRaw
  | Setfcap | Setgid | Setpcap | Setuid | SysChroot

datatype LinuxNamespaceType = NsUser | NsMount | NsPid | NsIpc | NsUts | NsCgroup

definition DEFAULT_CAPS :: "Capability list" where
  "DEFAULT_CAPS = [AuditWrite, Chown, DacOverride, Fowner, Fsetid, Kill, Mknod, NetBindService, NetRaw,
     Setfcap, Setgid, Setfcap, Setuid, SysChroot]"

definition DEFAULT_NAMESPACES :: "LinuxNamespaceType list" where
  "DEFAULT_NAMESPACES = [NsUser, NsMount, NsPid, NsIpc, NsUts, NsCgroup]"

record RuntimeOverrides =
  additional_args :: "string list option"
  additional_env :: "(string, string) btree option"
  terminal :: bool

text \<open>The part of \<open>oci_spec::image::Config\<close> that the code reads.\<close>

record ImageConfig =
  image_entrypoint :: "string list option"
  image_cmd :: "string list option"
  image_env :: "string list option"

record LinuxIdMapping =
  container_id :: u32
  host_id :: u32
  mapping_size :: u32

text \<open>What the code sets in the builders.\<close>

record SpecFields =
  process_terminal :: bool
  process_env :: "string list"
  process_caps :: "Capability set"
  process_no_new_privileges :: bool
  process_args :: "string list"
  root_fs_path :: string
  root_fs_readonly :: bool
  spec_hostname :: string
  linux_namespaces :: "LinuxNamespaceType list"
  linux_uid_mappings :: "LinuxIdMapping list"
  linux_gid_mappings :: "LinuxIdMapping list"
  spec_uid_mappings :: "LinuxIdMapping list"
  spec_gid_mappings :: "LinuxIdMapping list"

record 'spec oci =
  spec_default :: 'spec
  spec_build :: "SpecFields \<Rightarrow> 'spec option"

datatype OciSpecError = BuilderError

section \<open>Operations\<close>

definition container_args :: "ImageConfig \<Rightarrow> RuntimeOverrides \<Rightarrow> string list" where
  "container_args config overrides =
     (case additional_args overrides of
        Some override_args \<Rightarrow>
          (case image_entrypoint config of
             Some entry_args \<Rightarrow> entry_args @ override_args
           | None \<Rightarrow> override_args)
      | None \<Rightarrow>
          (case image_cmd config of
             Some cmd_args \<Rightarrow>
               (case image_entrypoint config of
                  Some entry_args \<Rightarrow> entry_args @ cmd_args
                | None \<Rightarrow> cmd_args)
           | None \<Rightarrow>
               (case image_entrypoint config of
                  Some entry_args \<Rightarrow> entry_args
                | None \<Rightarrow> [''/bin/sh''])))"

definition container_env :: "ImageConfig \<Rightarrow> RuntimeOverrides \<Rightarrow> string list" where
  "container_env config overrides =
     (let env = (case image_env config of
                   Some env \<Rightarrow> env
                 | None \<Rightarrow> [''PATH=/usr/local/sbin:/usr/local/bin:/usr/sbin:/usr/bin:/sbin:/bin'']);
          env = (case additional_env overrides of
                   Some add \<Rightarrow> env @ map (\<lambda>(key, value). key @ ''='' @ value) add
                 | None \<Rightarrow> env)
      in if terminal overrides then env @ [''TERM=xterm''] else env)"

definition id_mapping :: LinuxIdMapping where
  "id_mapping = \<lparr>container_id = 0, host_id = 0, mapping_size = 65536\<rparr>"

definition create_runtime_spec ::
  "'spec oci \<Rightarrow> ImageConfig option \<Rightarrow> RuntimeOverrides \<Rightarrow> (OciSpecError, 'spec) res" where
  "create_runtime_spec oci config overrides =
     (case config of
        None \<Rightarrow> Ok (spec_default oci)
      | Some config \<Rightarrow>
          (case spec_build oci
                  \<lparr>process_terminal = terminal overrides, process_env = container_env config overrides,
                   process_caps = set DEFAULT_CAPS, process_no_new_privileges = False,
                   process_args = container_args config overrides,
                   root_fs_path = ''rootfs'', root_fs_readonly = False, spec_hostname = ''node'',
                   linux_namespaces = DEFAULT_NAMESPACES,
                   linux_uid_mappings = [id_mapping], linux_gid_mappings = [id_mapping],
                   spec_uid_mappings = [id_mapping], spec_gid_mappings = [id_mapping]\<rparr> of
             Some spec \<Rightarrow> Ok spec
           | None \<Rightarrow> Err BuilderError))"

section \<open>The reference\<close>

text \<open>
  The convention of container runtimes: the arguments of the request, or those of the image
  if the request has none, follow the image's entry point; with neither, a shell runs.
\<close>

definition reference_args ::
  "string list option \<Rightarrow> string list option \<Rightarrow> string list option \<Rightarrow> string list" where
  "reference_args entry cmd override =
     (if entry = None \<and> cmd = None \<and> override = None then [''/bin/sh'']
      else concat (map (\<lambda>x. case x of Some a \<Rightarrow> a | None \<Rightarrow> [])
             [entry, (case override of Some a \<Rightarrow> Some a | None \<Rightarrow> cmd)]))"

lemma container_args_reference:
  "container_args config overrides =
     reference_args (image_entrypoint config) (image_cmd config) (additional_args overrides)"
  by (simp add: container_args_def reference_args_def split: option.split)

section \<open>Properties\<close>

text \<open>
  C29. The runtime specification of an image with a configuration runs the conventional
  command line; its environment is the image's (or the default path) followed by the
  request's variables in key order; it has the 13 distinct default capabilities, without
  \<open>CAP_SETPCAP\<close>.
\<close>

theorem runtime_spec_process:
  assumes "create_runtime_spec oci (Some config) overrides = Ok spec" and "\<not> terminal overrides"
    and "additional_env overrides = Some (btree_collect vars)"
  shows "\<exists>fields. spec_build oci fields = Some spec \<and>
    process_args fields =
      reference_args (image_entrypoint config) (image_cmd config) (additional_args overrides) \<and>
    (\<exists>base. process_env fields = base @ map (\<lambda>(k, v). k @ ''='' @ v) (btree_collect vars) \<and>
       (image_env config = Some base \<or>
        image_env config = None \<and> base = [''PATH=/usr/local/sbin:/usr/local/bin:/usr/sbin:/usr/bin:/sbin:/bin''])) \<and>
    map_of (btree_collect vars) = map_of (rev vars) \<and> sorted_wrt (<) (map fst (btree_collect vars)) \<and>
    card (process_caps fields) = 13 \<and> Setpcap \<notin> process_caps fields"
proof -
  have caps: "card (set DEFAULT_CAPS) = 13" "Setpcap \<notin> set DEFAULT_CAPS"
    by code_simp+
  have "btree_ok (btree_collect vars)" "map_of (btree_collect vars) = map_of (rev vars)"
    using btree_collect_ok_lookup by blast+
  with assms caps show ?thesis
    by (auto simp: create_runtime_spec_def container_args_reference container_env_def btree_ok_def
        split: option.splits)
qed

definition echo_oci :: "SpecFields option oci" where
  "echo_oci = \<lparr>spec_default = None, spec_build = (\<lambda>f. Some (Some f))\<rparr>"

theorem runtime_spec_process_witness:
  "\<exists>fields. create_runtime_spec echo_oci
       (Some \<lparr>image_entrypoint = Some [''/app''], image_cmd = Some [''-h''], image_env = None\<rparr>)
       \<lparr>additional_args = Some [''-v''], additional_env = Some (btree_collect [(''B'', ''2''), (''A'', ''1'')]),
        terminal = False\<rparr> = Ok (Some fields) \<and>
     process_args fields = [''/app'', ''-v''] \<and> card (process_caps fields) = 13"
proof -
  let ?c = "\<lparr>image_entrypoint = Some [''/app''], image_cmd = Some [''-h''], image_env = None\<rparr>"
  let ?o = "\<lparr>additional_args = Some [''-v''], additional_env = Some (btree_collect [(''B'', ''2''), (''A'', ''1'')]),
    terminal = False\<rparr>"
  obtain fields where f: "create_runtime_spec echo_oci (Some ?c) ?o = Ok (Some fields)"
    by (simp add: create_runtime_spec_def echo_oci_def)
  from runtime_spec_process [OF f, of "[(''B'', ''2''), (''A'', ''1'')]"] f show ?thesis
    by (auto simp: echo_oci_def reference_args_def)
qed

end
