(* ===== verification/Guest_Pull.thy ===== *)
theory Guest_Pull
  imports Guest_Comm Guest_Boot Guest_Runtime Paths
begin

text \<open>
  \<open>instance/src/containers\<close>: \<open>registry.rs\<close> (the registry client), \<open>fs.rs\<close> (the overlay and
  the generated files) and \<open>mod.rs\<close> (pulling an image with a pool of worker threads). The
  packages \<open>oci_spec\<close>, \<open>serde_json\<close>, \<open>number_prefix\<close> and \<open>backoff\<close> are parameters,
  bundled in \<open>image_lib\<close>; \<open>retries\<close> is how often \<open>backoff\<close> lets one request be repeated
  (its policy stops after 20 seconds).
\<close>

section \<open>Data\<close>

record Reference =
  ref_registry :: string
  ref_resolve_registry :: string
  ref_repository :: string
  ref_tag :: "string option"

datatype RegistryErrors =
    NetworkError | RegistryResponseError | NoCompatibleImageAvailable | UnsupportedRegistryImageFormat
  | UnableToParseImageIndex | UnableToParseImageManifest | UnableToParseImageConfiguration
  | UnableToConstructRuntimeConfig | AuthenticationError | IOErr | ExtractIOError

datatype MediaType = ImageLayerGzip | ImageLayerZstd | ImageLayer | OtherMediaType

record Platform =
  is_amd64 :: bool
  is_linux :: bool

record ManifestDescriptor =
  manifest_platform :: "Platform option"
  manifest_digest :: string

record Layer =
  layer_digest :: string
  layer_media_type :: MediaType

record ImageManifest =
  manifest_config_digest :: string
  manifest_layers :: "Layer list"

record ('json, 'spec) image_lib =
  json_parse :: "byte list \<Rightarrow> 'json option"
  json_schema_version :: "'json \<Rightarrow> u64 option"
  json_index :: "'json \<Rightarrow> ManifestDescriptor list option"
  parse_manifest :: "byte list \<Rightarrow> ImageManifest option"
  parse_config :: "byte list \<Rightarrow> ImageConfig option option"
  parse_token :: "byte list \<Rightarrow> string option"
  show_size :: "nat \<Rightarrow> string"
  oci_lib :: "'spec oci"
  image_config_json :: "ImageConfig option \<Rightarrow> byte list"
  spec_json :: "'spec \<Rightarrow> byte list"
  manifest_json :: "ImageManifest \<Rightarrow> byte list"
  retries :: nat

section \<open>The registry (registry.rs)\<close>

definition http_get ::
  "genv \<Rightarrow> string \<Rightarrow> string option \<Rightarrow> gevent list \<Rightarrow> (RegistryErrors, byte list) res \<times> gevent list" where
  "http_get env url auth_token tr =
     (case gperform env (HttpGet url auth_token) tr of
        (GResponse status body, tr') \<Rightarrow>
          (if 200 \<le> status \<and> status < 300 then (Ok body, tr') else (Err RegistryResponseError, tr'))
      | (_, tr') \<Rightarrow> (Err NetworkError, tr'))"

fun get_with_backoff ::
  "genv \<Rightarrow> nat \<Rightarrow> string \<Rightarrow> string option \<Rightarrow> gevent list \<Rightarrow> (RegistryErrors, byte list) res \<times> gevent list" where
  "get_with_backoff env n url auth_token tr =
     (case http_get env url auth_token tr of
        (Err NetworkError, tr') \<Rightarrow>
          (case n of
             0 \<Rightarrow> (Err NetworkError, tr')
           | Suc m \<Rightarrow> get_with_backoff env m url auth_token tr')
      | other \<Rightarrow> other)"

declare get_with_backoff.simps [simp del]

definition registry_url :: "Reference \<Rightarrow> string \<Rightarrow> string \<Rightarrow> string" where
  "registry_url ref what which =
     ''https://'' @ ref_resolve_registry ref @ ''/v2/'' @ ref_repository ref @ ''/'' @ what @ ''/'' @ which"

definition lift_option :: "'e \<Rightarrow> 'a option \<Rightarrow> ('e, 'a) res" where
  "lift_option e x = (case x of Some a \<Rightarrow> Ok a | None \<Rightarrow> Err e)"

definition compatible :: "ManifestDescriptor \<Rightarrow> bool" where
  "compatible d = (case manifest_platform d of None \<Rightarrow> False | Some p \<Rightarrow> is_amd64 p \<and> is_linux p)"

definition get_manifest_and_config ::
  "('json, 'spec) image_lib \<Rightarrow> genv \<Rightarrow> Reference \<Rightarrow> string option \<Rightarrow> gevent list
     \<Rightarrow> (RegistryErrors, ImageManifest \<times> ImageConfig option) res \<times> gevent list" where
  "get_manifest_and_config lib env reference auth_token tr =
     then_try (get_with_backoff env (retries lib)
         (registry_url reference ''manifests'' (case ref_tag reference of Some t \<Rightarrow> t | None \<Rightarrow> ''latest''))
         auth_token tr) (\<lambda>body tr.
     then_try (lift_option UnableToParseImageIndex (json_parse lib body), tr) (\<lambda>index_data tr.
     then_try
       (case map_option (ucast :: u64 \<Rightarrow> u32) (json_schema_version lib index_data) of
          None \<Rightarrow> (Err UnableToParseImageIndex, tr)
        | Some v \<Rightarrow>
            (if v = 2 then
               then_try (lift_option UnableToParseImageIndex (json_index lib index_data), tr) (\<lambda>manifests tr.
               then_try (lift_option NoCompatibleImageAvailable (find compatible manifests), tr)
                 (\<lambda>compatible_manifest tr.
               then_try (http_get env (registry_url reference ''manifests'' (manifest_digest compatible_manifest))
                   auth_token tr) (\<lambda>body tr.
                 (lift_option UnableToParseImageManifest (parse_manifest lib body), tr))))
             else (Err UnsupportedRegistryImageFormat, tr))) (\<lambda>manifest tr.
     then_try (http_get env (registry_url reference ''blobs'' (manifest_config_digest manifest)) auth_token tr)
       (\<lambda>body tr.
     then_try (lift_option UnableToParseImageConfiguration (parse_config lib body), tr) (\<lambda>config tr.
       (Ok (manifest, config), tr))))))"

definition layer_decoder :: "MediaType \<Rightarrow> string option" where
  "layer_decoder media_type =
     (case media_type of
        ImageLayerGzip \<Rightarrow> Some ''GzDecoder''
      | ImageLayerZstd \<Rightarrow> Some ''ZlibDecoder''
      | ImageLayer \<Rightarrow> Some ''''
      | OtherMediaType \<Rightarrow> None)"

definition extract_layer ::
  "genv \<Rightarrow> byte list \<Rightarrow> string \<Rightarrow> MediaType \<Rightarrow> gevent list \<Rightarrow> (RegistryErrors, unit) res \<times> gevent list" where
  "extract_layer env blob output_folder media_type tr =
     (case layer_decoder media_type of
        None \<Rightarrow> (Err IOErr, tr)
      | Some decoder \<Rightarrow> gio env ExtractIOError (Unpack decoder blob output_folder) tr)"

text \<open>\<open>blob_resp.content_length().unwrap_or(0)\<close>: the header of the response, not the length of the body.\<close>

definition content_length :: "genv \<Rightarrow> gevent list \<Rightarrow> ('e, nat) res \<times> gevent list" where
  "content_length env tr =
     (case gperform env ContentLength tr of (GLength (Some n), tr') \<Rightarrow> (Ok n, tr') | (_, tr') \<Rightarrow> (Ok 0, tr'))"

definition pull_and_extract_layer ::
  "('json, 'spec) image_lib \<Rightarrow> genv \<Rightarrow> Reference \<Rightarrow> Layer \<Rightarrow> string \<Rightarrow> string option \<Rightarrow> gevent list
     \<Rightarrow> (RegistryErrors, nat) res \<times> gevent list" where
  "pull_and_extract_layer lib env reference layer output_folder auth_token tr =
     then_try (get_with_backoff env (retries lib) (registry_url reference ''blobs'' (layer_digest layer)) auth_token tr)
       (\<lambda>blob tr.
     then_try (content_length env tr) (\<lambda>blob_resp_size tr.
     then_try (extract_layer env blob output_folder (layer_media_type layer) tr) (\<lambda>_ tr.
       (Ok blob_resp_size, tr))))"

text \<open>The token request does not look at the status; every error is reported as one.\<close>

definition docker_io_oauth ::
  "('json, 'spec) image_lib \<Rightarrow> genv \<Rightarrow> string \<Rightarrow> string \<Rightarrow> string list \<Rightarrow> gevent list
     \<Rightarrow> (unit, string) res \<times> gevent list" where
  "docker_io_oauth lib env scope_type resource_name actions tr =
     (let url = ''https://auth.docker.io/token?service=registry.docker.io&scope='' @ scope_type @ '':'' @
                resource_name @ '':'' @ join_strings '','' actions
      in case gperform env (HttpGet url None) tr of
           (GResponse _ body, tr') \<Rightarrow> (lift_option () (parse_token lib body), tr')
         | (_, tr') \<Rightarrow> (Err (), tr'))"

section \<open>Files (fs.rs)\<close>

definition prepare_fs :: "genv \<Rightarrow> string \<Rightarrow> gevent list \<Rightarrow> (unit, unit) res \<times> gevent list" where
  "prepare_fs env merged_path tr =
     (let etc = path_join merged_path ''etc''; bytes = map (\<lambda>c. of_char c) in
      case gperform env (FileExists etc) tr of
        (GFlag True, tr) \<Rightarrow>
          then_try (gio env () (SaveFile (path_join etc ''resolv.conf'')
              (bytes (''# Generated by the user agent'' @ [CHR 10] @ ''nameserver 8.8.8.8'' @ [CHR 10]))) tr) (\<lambda>_ tr.
          then_try (gio env () (SaveFile (path_join etc ''hostname'') (bytes (''node'' @ [CHR 10]))) tr) (\<lambda>_ tr.
          then_try (gio env () (SaveFile (path_join etc ''hosts'')
              (bytes (''# Generated by the user agent'' @ [CHR 10] @ ''127.0.0.1 localhost'' @ [CHR 10] @
                      ''127.0.1.1 node''))) tr) (\<lambda>_ tr. (Ok (), tr))))
      | (_, tr) \<Rightarrow> (Ok (), tr))"

definition overlay_args :: "string \<Rightarrow> string \<Rightarrow> string list \<Rightarrow> string list" where
  "overlay_args merged_path work_path layers =
     [''mount'', ''-t'', ''overlay'', ''overlay'', ''-o'',
      ''lowerdir='' @ join_strings '':'' (rev layers) @ '',upperdir='' @ merged_path @ '',workdir='' @ work_path,
      merged_path]"

definition create_overlay_fs ::
  "genv \<Rightarrow> string \<Rightarrow> string \<Rightarrow> string list \<Rightarrow> gevent list \<Rightarrow> ('e, unit) res \<times> gevent list" where
  "create_overlay_fs env merged_path work_path layers tr = sh_cmd env (overlay_args merged_path work_path layers) tr"

section \<open>Pulling an image (mod.rs)\<close>

definition CONCURRENT_LAYER_DOWNLOADS :: nat where
  "CONCURRENT_LAYER_DOWNLOADS = 5"

definition layer_folder :: "Layer \<Rightarrow> string" where
  "layer_folder layer = path_join ''/mnt/layers'' (filter (\<lambda>c. c \<noteq> CHR '':'') (layer_digest layer))"

text \<open>What a worker does with one layer, after it took it from the queue.\<close>

definition pull_layer ::
  "('json, 'spec) image_lib \<Rightarrow> genv \<Rightarrow> GuestPacket codec \<Rightarrow> Reference \<Rightarrow> string option \<Rightarrow> nat \<Rightarrow> i32 \<Rightarrow> Layer
     \<Rightarrow> gevent list \<Rightarrow> (RegistryErrors, unit) res \<times> gevent list" where
  "pull_layer lib env bitcode reference auth layer_count i layer tr =
     then_try (gio env IOErr (CreateDir (layer_folder layer)) tr) (\<lambda>_ tr.
     then_try (pull_and_extract_layer lib env reference layer (layer_folder layer) auth tr) (\<lambda>size tr.
       log_system_message env bitcode
         (''Pulled and extracted layer '' @ i32_string (i + 1) @ '' of '' @ dec_string layer_count @ '' - '' @
          layer_digest layer @ '' ('' @ show_size lib size @ '')'') tr))"

datatype worker = Waiting | Working Layer | Finished "(RegistryErrors, unit) res"

record pool =
  pool_queue :: "Layer list"
  pool_workers :: "worker list"
  pool_progress :: i32
  pool_history :: "gevent list"

text \<open>
  A step of worker \<open>i\<close>: it takes a layer from the queue (under the queue's lock), or pulls the
  one it holds; it ends when the queue is empty or the pull fails. Pulling a layer is one
  step: workers share nothing but the queue, the progress counter and the connection, and the
  last two are used together, under the connection's lock, at the end of the step.
\<close>

definition pool_step ::
  "('json, 'spec) image_lib \<Rightarrow> genv \<Rightarrow> GuestPacket codec \<Rightarrow> Reference \<Rightarrow> string option \<Rightarrow> nat \<Rightarrow> nat \<Rightarrow> pool \<Rightarrow> pool"
  where
  "pool_step lib env bitcode reference auth layer_count i p =
     (if i < length (pool_workers p) then
        (case pool_workers p ! i of
           Waiting \<Rightarrow>
             (case pool_queue p of
                [] \<Rightarrow> p\<lparr>pool_workers := (pool_workers p)[i := Finished (Ok ())]\<rparr>
              | layer # q \<Rightarrow> p\<lparr>pool_queue := q, pool_workers := (pool_workers p)[i := Working layer]\<rparr>)
         | Working layer \<Rightarrow>
             (case pull_layer lib env bitcode reference auth layer_count (pool_progress p) layer (pool_history p) of
                (Ok _, tr) \<Rightarrow>
                  p\<lparr>pool_workers := (pool_workers p)[i := Waiting], pool_progress := pool_progress p + 1,
                    pool_history := tr\<rparr>
              | (r, tr) \<Rightarrow> p\<lparr>pool_workers := (pool_workers p)[i := Finished r], pool_history := tr\<rparr>)
         | Finished _ \<Rightarrow> p)
      else p)"

definition start_pool :: "Layer list \<Rightarrow> gevent list \<Rightarrow> pool" where
  "start_pool layers tr =
     \<lparr>pool_queue = layers, pool_workers = replicate (min CONCURRENT_LAYER_DOWNLOADS (length layers)) Waiting,
      pool_progress = 0, pool_history = tr\<rparr>"

text \<open>
  \<open>jh.join().map_err(..)??\<close>, worker after worker: a join lets its worker run to its end, for
  which \<open>2 * length (pool_queue p) + 2\<close> steps are enough, and the first error is returned
  without waiting for the workers behind it. A worker that panics takes the program down: the
  panic hook of \<open>main.rs\<close> restarts the machine.
\<close>

fun join_workers ::
  "('json, 'spec) image_lib \<Rightarrow> genv \<Rightarrow> GuestPacket codec \<Rightarrow> Reference \<Rightarrow> string option \<Rightarrow> nat \<Rightarrow> nat list \<Rightarrow> pool
     \<Rightarrow> (RegistryErrors, unit) res \<times> pool" where
  "join_workers lib env bitcode reference auth layer_count [] p = (Ok (), p)"
| "join_workers lib env bitcode reference auth layer_count (i # js) p =
     (let p' = (pool_step lib env bitcode reference auth layer_count i ^^ (2 * length (pool_queue p) + 2)) p in
      if Finished Panic \<in> set (pool_workers p') then (Panic, p')
      else case pool_workers p' ! i of
             Finished (Ok _) \<Rightarrow> join_workers lib env bitcode reference auth layer_count js p'
           | Finished r \<Rightarrow> (r, p')
           | _ \<Rightarrow> (Panic, p'))"

text \<open>
  The threads run in any interleaving, given by \<open>schedule\<close>, before the main thread gets to
  the joins.
\<close>

definition run_pool ::
  "('json, 'spec) image_lib \<Rightarrow> genv \<Rightarrow> GuestPacket codec \<Rightarrow> Reference \<Rightarrow> string option \<Rightarrow> nat list \<Rightarrow> Layer list
     \<Rightarrow> gevent list \<Rightarrow> (RegistryErrors, unit) res \<times> pool" where
  "run_pool lib env bitcode reference auth schedule layers tr =
     join_workers lib env bitcode reference auth (length layers)
       [0..<min CONCURRENT_LAYER_DOWNLOADS (length layers)]
       (fold (pool_step lib env bitcode reference auth (length layers)) schedule (start_pool layers tr))"

fun create_layer_folders :: "genv \<Rightarrow> Layer list \<Rightarrow> gevent list \<Rightarrow> (RegistryErrors, string list) res \<times> gevent list" where
  "create_layer_folders env [] tr = (Ok [], tr)"
| "create_layer_folders env (l # ls) tr =
     then_try (gio env IOErr (CreateDir (layer_folder l)) tr) (\<lambda>_ tr.
     then_try (create_layer_folders env ls tr) (\<lambda>fs tr. (Ok (layer_folder l # fs), tr)))"

definition docker_auth ::
  "('json, 'spec) image_lib \<Rightarrow> genv \<Rightarrow> Reference \<Rightarrow> gevent list \<Rightarrow> (RegistryErrors, string option) res \<times> gevent list"
  where
  "docker_auth lib env reference tr =
     (if ref_registry reference = ''docker.io'' then
        (case docker_io_oauth lib env ''repository'' (ref_repository reference) [''pull''] tr of
           (Ok token, tr) \<Rightarrow> (Ok (Some token), tr)
         | (_, tr) \<Rightarrow> (Err AuthenticationError, tr))
      else (Ok None, tr))"

definition pull_and_prepare_image ::
  "('json, 'spec) image_lib \<Rightarrow> genv \<Rightarrow> GuestPacket codec \<Rightarrow> nat list \<Rightarrow> Reference \<Rightarrow> RuntimeOverrides \<Rightarrow> gevent list
     \<Rightarrow> (RegistryErrors, 'spec) res \<times> gevent list" where
  "pull_and_prepare_image lib env bitcode schedule reference overrides tr =
     then_try (state_change env bitcode PullingContainerImage (Some ''Starting to pull container image.'') tr) (\<lambda>_ tr.
     then_try (docker_auth lib env reference tr) (\<lambda>auth tr.
     then_try (get_manifest_and_config lib env reference auth tr) (\<lambda>(manifest, config) tr.
     then_try (gio env IOErr (CreateDir ''/mnt/layers'') tr) (\<lambda>_ tr.
     then_try (log_system_message env bitcode
         (''Image manifest fetched. Pulling '' @ dec_string (length (manifest_layers manifest)) @ '' layers... '') tr) (\<lambda>_ tr.
     then_try (create_layer_folders env (manifest_layers manifest) tr) (\<lambda>layer_folders tr.
     then_try (map_prod id pool_history
         (run_pool lib env bitcode reference auth schedule (manifest_layers manifest) tr)) (\<lambda>_ tr.
     then_try (or_panic (gio env () (SaveFile ''/mnt/image_config.json'' (image_config_json lib config)) tr)) (\<lambda>_ tr.
     then_try (map_err (\<lambda>_. UnableToConstructRuntimeConfig)
         (create_runtime_spec (oci_lib lib) config overrides), tr) (\<lambda>spec tr.
     then_try (or_panic (gio env () (SaveFile ''/mnt/config.json'' (spec_json lib spec)) tr)) (\<lambda>_ tr.
     then_try (or_panic (gio env () (SaveFile ''/mnt/manifest.json'' (manifest_json lib manifest)) tr)) (\<lambda>_ tr.
     then_try (gio env IOErr (CreateDir ''/mnt/rootfs'') tr) (\<lambda>_ tr.
     then_try (gio env IOErr (CreateDir ''/mnt/work'') tr) (\<lambda>_ tr.
     then_try (create_overlay_fs env ''/mnt/rootfs'' ''/mnt/work'' layer_folders tr) (\<lambda>_ tr.
     then_try (or_panic (prepare_fs env ''/mnt/rootfs'' tr)) (\<lambda>_ tr. (Ok spec, tr))))))))))))))))"

end
