(* ===== verification/Guest_Pool.thy ===== *)
theory Guest_Pool
  imports Guest_Pull
begin

text \<open>
  What pulling an image guarantees: the worker pool ends, in every interleaving, and when it
  ends without an error every layer of the manifest has been unpacked exactly once into its
  own folder.
\<close>

section \<open>Unpacked archives\<close>

fun unpack_event :: "gevent \<Rightarrow> string multiset" where
  "unpack_event (Unpack _ _ folder, GDone) = {#folder#}"
| "unpack_event _ = {#}"

definition unpacked :: "gevent list \<Rightarrow> string multiset" where
  "unpacked tr = sum_list (map unpack_event tr)"

lemma unpacked_append [simp]: "unpacked (a @ b) = unpacked a + unpacked b"
  by (simp add: unpacked_def)

lemma unpacked_simps [simp]: "unpacked [] = {#}" "unpacked (e # tr) = unpack_event e + unpacked tr"
  by (simp_all add: unpacked_def)

fun unpacks :: "guest_call \<Rightarrow> bool" where
  "unpacks (Unpack _ _ _) = True"
| "unpacks _ = False"

lemma unpack_event_other: "\<not> unpacks (fst e) \<Longrightarrow> unpack_event e = {#}"
  by (cases e; cases "fst e"; cases "snd e") auto

abbreviation no_unpack :: "gevent list \<Rightarrow> gevent list \<Rightarrow> bool" where
  "no_unpack \<equiv> gextends_by (\<lambda>c. \<not> unpacks c)"

lemma no_unpack_unpacked:
  assumes "no_unpack tr tr'"
  shows "unpacked tr' = unpacked tr"
proof -
  obtain evs where tr': "tr' = tr @ evs" and q: "list_all (\<lambda>e. \<not> unpacks (fst e)) evs"
    using assms by (auto simp: gextends_by_def)
  have "unpacked evs = {#}" using q by (induction evs) (auto simp: unpack_event_other)
  then show ?thesis by (simp add: tr')
qed

lemma no_unpack_comm: "gextends_by comm_call tr tr' \<Longrightarrow> no_unpack tr tr'"
proof (erule gextends_mono)
  show "comm_call c \<Longrightarrow> \<not> unpacks c" for c by (cases c) simp_all
qed

lemma snd_http_get [simp]:
  "snd (http_get env url auth tr) = tr @ [(HttpGet url auth, env tr (HttpGet url auth))]"
  by (cases "env tr (HttpGet url auth)") (simp_all add: http_get_def gperform_def)

lemma get_with_backoff_extends:
  assumes "\<And>u a. P (HttpGet u a)"
  shows "gextends_by P tr (snd (get_with_backoff env n url auth tr))"
proof (induction n arbitrary: tr)
  case 0
  obtain r tr' where h: "http_get env url auth tr = (r, tr')" by (metis surj_pair)
  then have "gextends_by P tr tr'" using snd_http_get [of env url auth tr] assms by auto
  with h show ?case
    by (subst get_with_backoff.simps) (auto split: res.split RegistryErrors.split)
next
  case (Suc n)
  obtain r tr' where h: "http_get env url auth tr = (r, tr')" by (metis surj_pair)
  then have "gextends_by P tr tr'" using snd_http_get [of env url auth tr] assms by auto
  with h Suc.IH [of tr'] show ?case
    by (subst get_with_backoff.simps) (auto split: res.split RegistryErrors.split dest: gextends_trans)
qed

lemma http_get_extends: "P (HttpGet url auth) \<Longrightarrow> gextends_by P tr (snd (http_get env url auth tr))"
  by auto

lemma get_manifest_and_config_extends:
  assumes "\<And>u a. P (HttpGet u a)"
  shows "gextends_by P tr (snd (get_manifest_and_config lib env ref auth tr))"
proof -
  have pure: "gextends_by P t (snd (x, t))" for t and x :: "('e, 'a) res" by simp
  show ?thesis
    unfolding get_manifest_and_config_def
    apply (intro gextends_then_try get_with_backoff_extends assms pure)
    subgoal for body s index_data s'
      by (cases "map_option ucast (json_schema_version lib index_data) :: u32 option")
        (auto intro!: gextends_then_try http_get_extends assms)
    by (auto intro!: gextends_then_try http_get_extends assms)
qed

lemma docker_auth_extends:
  assumes "\<And>u a. P (HttpGet u a)"
  shows "gextends_by P tr (snd (docker_auth lib env ref tr))"
proof -
  let ?url = "''https://auth.docker.io/token?service=registry.docker.io&scope=repository:'' @
    ref_repository ref @ '':pull''"
  have "snd (docker_io_oauth lib env ''repository'' (ref_repository ref) [''pull''] tr) =
      tr @ [(HttpGet ?url None, env tr (HttpGet ?url None))]"
    by (cases "env tr (HttpGet ?url None)") (simp_all add: docker_io_oauth_def gperform_def)
  then have "gextends_by P tr (snd (docker_io_oauth lib env ''repository'' (ref_repository ref) [''pull''] tr))"
    using assms by auto
  then show ?thesis
    by (auto simp: docker_auth_def split: prod.split res.split)
qed

lemma create_layer_folders_extends:
  assumes "\<And>d. P (CreateDir d)"
  shows "gextends_by P tr (snd (create_layer_folders env ls tr))"
proof (induction ls arbitrary: tr)
  case (Cons l ls)
  show ?case by (auto intro!: gextends_then_try gextends_gio assms Cons.IH)
qed simp

lemma snd_content_length [simp]: "snd (content_length env tr) = tr @ [(ContentLength, env tr ContentLength)]"
  by (simp add: content_length_def gperform_def split: guest_reply.split option.split)

lemma content_length_Ok: "content_length env tr = (r, tr') \<Longrightarrow> tr' = tr @ [(ContentLength, env tr ContentLength)]"
  by (metis snd_content_length snd_conv)

lemma content_length_extends: "P ContentLength \<Longrightarrow> gextends_by P tr (snd (content_length env tr))"
  by auto

lemma pull_layer_Ok:
  assumes "pull_layer lib env bitcode ref auth n i layer tr = (Ok u, tr')"
  shows "unpacked tr' = add_mset (layer_folder layer) (unpacked tr)"
proof -
  let ?f = "layer_folder layer"
  obtain size tr2 where
    p: "pull_and_extract_layer lib env ref layer ?f auth (tr @ [(CreateDir ?f, GDone)]) = (Ok size, tr2)"
    and l: "log_system_message env bitcode (''Pulled and extracted layer '' @ i32_string (i + 1) @ '' of '' @
        dec_string n @ '' - '' @ layer_digest layer @ '' ('' @ show_size lib size @ '')'') tr2 =
        ((Ok u, tr') :: (RegistryErrors, unit) res \<times> gevent list)"
    using assms by (auto simp: pull_layer_def res_simps)
  obtain blob tr1 where
    g: "get_with_backoff env (retries lib) (registry_url ref ''blobs'' (layer_digest layer)) auth
        (tr @ [(CreateDir ?f, GDone)]) = (Ok blob, tr1)"
    and e: "extract_layer env blob ?f (layer_media_type layer) (tr1 @ [(ContentLength, env tr1 ContentLength)]) = (Ok (), tr2)"
    using p by (auto simp: pull_and_extract_layer_def res_simps dest!: content_length_Ok)
  have "no_unpack (tr @ [(CreateDir ?f, GDone)]) tr1"
    using get_with_backoff_extends [where P = "\<lambda>c. \<not> unpacks c" and tr = "tr @ [(CreateDir ?f, GDone)]" and env = env] g
    by (metis snd_conv unpacks.simps(15))
  from no_unpack_unpacked [OF this] have "unpacked tr1 = unpacked tr" by simp
  moreover have "unpacked tr2 = add_mset ?f (unpacked tr1)"
    using e by (auto simp: extract_layer_def res_simps split: option.splits)
  moreover have "no_unpack tr2 tr'" using no_unpack_comm [OF log_system_message_calls] l by (metis snd_conv)
  note no_unpack_unpacked [OF this]
  ultimately show ?thesis by simp
qed

section \<open>The invariant of the pool\<close>

fun held :: "worker \<Rightarrow> Layer multiset" where
  "held (Working layer) = {#layer#}"
| "held _ = {#}"

fun failed :: "worker \<Rightarrow> bool" where
  "failed (Finished r) = (r \<noteq> Ok ())"
| "failed _ = False"

fun finished :: "worker \<Rightarrow> bool" where
  "finished (Finished _) = True"
| "finished _ = False"

lemma sum_list_update:
  fixes f :: "'a \<Rightarrow> 'b multiset"
  shows "i < length xs \<Longrightarrow> sum_list (map f (xs[i := x])) + f (xs ! i) = sum_list (map f xs) + f x"
proof (induction xs arbitrary: i)
  case (Cons y ys)
  then show ?case by (cases i) (auto simp: ac_simps)
qed simp

text \<open>
  As long as no worker failed, the layers of the manifest are in the queue, held by a worker,
  or unpacked; and once a worker has ended, the queue is empty.
\<close>

definition pool_ok :: "Layer list \<Rightarrow> gevent list \<Rightarrow> pool \<Rightarrow> bool" where
  "pool_ok layers tr0 p \<longleftrightarrow>
     ((\<forall>w \<in> set (pool_workers p). \<not> failed w) \<longrightarrow>
        (\<exists>pulled. mset layers = mset (pool_queue p) + sum_list (map held (pool_workers p)) + pulled \<and>
           unpacked (pool_history p) = unpacked tr0 + image_mset layer_folder pulled \<and>
           of_nat (size pulled) = pool_progress p)) \<and>
     (Finished (Ok ()) \<in> set (pool_workers p) \<longrightarrow> pool_queue p = [])"

lemma failed_update: "\<forall>w \<in> set (ws[i := w']). \<not> failed w \<Longrightarrow> i < length ws \<Longrightarrow> \<not> failed (ws ! i) \<Longrightarrow>
    \<forall>w \<in> set ws. \<not> failed w"
  by (metis in_set_conv_nth length_list_update nth_list_update_neq nth_list_update_eq)

lemma pool_step_ok:
  assumes "pool_ok layers tr0 p"
  shows "pool_ok layers tr0 (pool_step lib env bitcode ref auth n i p)"
proof (cases "i < length (pool_workers p)")
  case True
  let ?ws = "pool_workers p"
  note upd = sum_list_update [OF True, of held]
  have mem: "Finished (Ok ()) \<in> set (?ws[i := w]) \<Longrightarrow> w \<noteq> Finished (Ok ()) \<Longrightarrow> Finished (Ok ()) \<in> set ?ws" for w
    by (metis in_set_conv_nth length_list_update nth_list_update_neq nth_list_update_eq)
  show ?thesis
  proof (cases "?ws ! i")
    case Waiting
    show ?thesis
    proof (cases "pool_queue p")
      case Nil
      with Waiting True assms upd [of "Finished (Ok ())"] failed_update [of ?ws i "Finished (Ok ())"] show ?thesis
        by (auto simp: pool_ok_def pool_step_def)
    next
      case (Cons layer q)
      with Waiting True assms upd [of "Working layer"] failed_update [of ?ws i "Working layer"] mem [of "Working layer"]
      show ?thesis by (auto simp: pool_ok_def pool_step_def ac_simps)
    qed
  next
    case (Working layer)
    obtain r tr where l: "pull_layer lib env bitcode ref auth n (pool_progress p) layer (pool_history p) = (r, tr)"
      by (metis surj_pair)
    show ?thesis
    proof (cases "r = Ok ()")
      case ok: True
      have u: "unpacked tr = add_mset (layer_folder layer) (unpacked (pool_history p))"
        using pull_layer_Ok [OF l [unfolded ok]] .
      have st: "pool_step lib env bitcode ref auth n i p = p\<lparr>pool_workers := ?ws[i := Waiting],
          pool_progress := pool_progress p + 1, pool_history := tr\<rparr>"
        using True Working l ok by (simp add: pool_step_def)
      have "\<exists>pulled. mset layers = mset (pool_queue p) + sum_list (map held (?ws[i := Waiting])) + pulled \<and>
          unpacked tr = unpacked tr0 + image_mset layer_folder pulled \<and> of_nat (size pulled) = pool_progress p + 1"
        if "\<forall>w \<in> set (?ws[i := Waiting]). \<not> failed w"
      proof -
        have "\<forall>w \<in> set ?ws. \<not> failed w" using failed_update [OF that True] Working by simp
        then obtain pulled where "mset layers = mset (pool_queue p) + sum_list (map held ?ws) + pulled"
          and "unpacked (pool_history p) = unpacked tr0 + image_mset layer_folder pulled" "of_nat (size pulled) = pool_progress p"
          using assms by (auto simp: pool_ok_def)
        with u upd [of Waiting] Working show ?thesis by (intro exI [of _ "add_mset layer pulled"]) simp
      qed
      with mem [of Waiting] assms show ?thesis by (auto simp: st pool_ok_def)
    next
      case False
      have st: "pool_step lib env bitcode ref auth n i p =
          p\<lparr>pool_workers := ?ws[i := Finished r], pool_history := tr\<rparr>"
        using True Working l False by (cases r) (simp_all add: pool_step_def)
      have "\<exists>w \<in> set (?ws[i := Finished r]). failed w"
        using False set_update_memI [OF True, of "Finished r"] by (intro bexI [of _ "Finished r"]) simp_all
      with mem [of "Finished r"] False assms show ?thesis by (auto simp: st pool_ok_def)
    qed
  qed (use assms True in \<open>simp add: pool_step_def\<close>)
qed (use assms in \<open>simp add: pool_step_def\<close>)

section \<open>Every worker ends\<close>

lemma length_pool_step [simp]: "length (pool_workers (pool_step lib env bitcode ref auth n i p)) = length (pool_workers p)"
  by (auto simp: pool_step_def split: worker.split list.split prod.split res.split)

text \<open>How many steps worker \<open>i\<close> can still take if it runs alone.\<close>

definition steps_left :: "nat \<Rightarrow> pool \<Rightarrow> nat" where
  "steps_left i p =
     (case pool_workers p ! i of
        Waiting \<Rightarrow> 2 * length (pool_queue p) + 1
      | Working _ \<Rightarrow> 2 * length (pool_queue p) + 2
      | Finished _ \<Rightarrow> 0)"

lemma pool_step_decreases:
  assumes "i < length (pool_workers p)"
  shows "steps_left i (pool_step lib env bitcode ref auth n i p) \<le> steps_left i p - 1"
  using assms
  by (auto simp: pool_step_def steps_left_def split: worker.split list.split prod.split res.split)

lemma pool_steps_finish:
  assumes "i < length (pool_workers p)" and "steps_left i p \<le> k"
  shows "finished (pool_workers ((pool_step lib env bitcode ref auth n i ^^ k) p) ! i)"
  using assms
proof (induction k arbitrary: p)
  case 0
  then show ?case by (cases "pool_workers p ! i") (auto simp: steps_left_def)
next
  case (Suc k)
  have "steps_left i (pool_step lib env bitcode ref auth n i p) \<le> k"
    using pool_step_decreases [OF Suc.prems(1), of lib env bitcode ref auth n] Suc.prems(2) by linarith
  with Suc.IH [of "pool_step lib env bitcode ref auth n i p"] Suc.prems(1) show ?case
    by (simp add: funpow_swap1)
qed

lemma pool_steps_keep:
  "pool_ok layers tr0 p \<Longrightarrow> pool_ok layers tr0 ((pool_step lib env bitcode ref auth n i ^^ k) p)"
  "length (pool_workers ((pool_step lib env bitcode ref auth n i ^^ k) p)) = length (pool_workers p)"
  by (induction k) (simp_all add: pool_step_ok)

lemma steps_left_bound: "steps_left i p \<le> 2 * length (pool_queue p) + 2"
  by (simp add: steps_left_def split: worker.split)

lemma fold_steps_keep:
  "pool_ok layers tr0 p \<Longrightarrow> pool_ok layers tr0 (fold (pool_step lib env bitcode ref auth n) schedule p) \<and>
     length (pool_workers (fold (pool_step lib env bitcode ref auth n) schedule p)) = length (pool_workers p)"
  by (induction schedule arbitrary: p) (simp_all add: pool_step_ok)

lemma start_pool_ok: "pool_ok layers tr (start_pool layers tr)"
proof -
  have "sum_list (map held (replicate k Waiting)) = {#}" for k by (induction k) simp_all
  then show ?thesis by (auto simp: pool_ok_def start_pool_def)
qed

text \<open>
  What the joins return says how the workers ended, so the steps granted to a join are
  enough; the workers joined before stay as they are.
\<close>

definition joined :: "pool \<Rightarrow> (RegistryErrors, unit) res \<Rightarrow> bool" where
  "joined p r \<longleftrightarrow> (case r of Ok _ \<Rightarrow> True | _ \<Rightarrow> Finished r \<in> set (pool_workers p))"

lemma pool_step_Finished:
  assumes "j < length (pool_workers p)" and "pool_workers p ! j = Finished r"
  shows "pool_workers (pool_step lib env bitcode ref auth n i p) ! j = Finished r"
  using assms
  by (cases "i = j") (auto simp: pool_step_def nth_list_update split: worker.split list.split prod.split res.split)

lemma pool_steps_Finished:
  assumes "j < length (pool_workers p)" and "pool_workers p ! j = Finished r"
  shows "pool_workers ((pool_step lib env bitcode ref auth n i ^^ k) p) ! j = Finished r"
  using assms by (induction k) (auto intro!: pool_step_Finished simp: pool_steps_keep(2))

lemma join_workers_end:
  assumes "\<forall>i \<in> set js. i < length (pool_workers p)" and "pool_ok layers tr0 p"
    and "join_workers lib env bitcode ref auth n js p = (r, p')"
  shows "pool_ok layers tr0 p' \<and> length (pool_workers p') = length (pool_workers p) \<and> joined p' r \<and>
    (r = Ok () \<longrightarrow> (\<forall>i \<in> set js. pool_workers p' ! i = Finished (Ok ()))) \<and>
    (\<forall>j < length (pool_workers p). \<forall>x. pool_workers p ! j = Finished x \<longrightarrow> pool_workers p' ! j = Finished x)"
  using assms
proof (induction js arbitrary: p)
  case Nil
  then show ?case by (auto simp: joined_def)
next
  case (Cons i js)
  let ?q = "(pool_step lib env bitcode ref auth n i ^^ (2 * length (pool_queue p) + 2)) p"
  have i: "i < length (pool_workers p)" using Cons.prems(1) by simp
  have q: "pool_ok layers tr0 ?q" "length (pool_workers ?q) = length (pool_workers p)"
    using pool_steps_keep Cons.prems(2) by blast+
  have stay: "pool_workers ?q ! j = Finished x" if "j < length (pool_workers p)" "pool_workers p ! j = Finished x" for j x
    using that by (rule pool_steps_Finished)
  have "finished (pool_workers ?q ! i)" by (rule pool_steps_finish [OF i steps_left_bound])
  then obtain x where x: "pool_workers ?q ! i = Finished x" by (cases "pool_workers ?q ! i") auto
  have xin: "Finished x \<in> set (pool_workers ?q)" using x i q(2) by (metis nth_mem)
  have unf: "join_workers lib env bitcode ref auth n (i # js) p =
      (if Finished Panic \<in> set (pool_workers ?q) then (Panic, ?q)
       else case x of Ok _ \<Rightarrow> join_workers lib env bitcode ref auth n js ?q | _ \<Rightarrow> (x, ?q))"
    by (simp only: join_workers.simps Let_def x worker.case) (simp split: res.split)
  show ?case
  proof (cases "Finished Panic \<notin> set (pool_workers ?q) \<and> x = Ok ()")
    case True
    then have "join_workers lib env bitcode ref auth n js ?q = (r, p')" using Cons.prems(3) by (simp only: unf) simp
    from Cons.IH [OF _ q(1) this] Cons.prems(1) q(2) stay i x True show ?thesis by simp
  next
    case False
    then have "p' = ?q" "r \<noteq> Ok ()" "Finished r \<in> set (pool_workers ?q)"
      using Cons.prems(3) xin unfolding unf by (auto split: if_splits res.splits)
    with q stay show ?thesis by (auto simp: joined_def split: res.split)
  qed
qed

section \<open>What a pull writes to the host\<close>

lemma extract_layer_logs: "logs_to bitcode tr (extract_layer env blob folder mt tr)"
  by (cases "layer_decoder mt") (auto simp: extract_layer_def)

lemma pull_layer_logs: "logs_to bitcode tr (pull_layer lib env bitcode ref auth n i layer tr)"
  unfolding pull_layer_def pull_and_extract_layer_def
  by (intro logs_to_then_try logs_to_gio extract_layer_logs log_system_message_logs logs_to_pure
      logs_to_silent [OF get_with_backoff_extends] logs_to_silent [OF content_length_extends]) simp_all

definition pool_logs :: "GuestPacket codec \<Rightarrow> gevent list \<Rightarrow> pool \<Rightarrow> bool" where
  "pool_logs bitcode tr0 p \<longleftrightarrow>
     (Finished Panic \<notin> set (pool_workers p) \<longrightarrow>
        (\<exists>logs. wire (frame_of bitcode) (pool_history p) =
           wire (frame_of bitcode) tr0 @ frames bitcode (map Log logs)))"

lemma pool_step_logs:
  assumes "pool_logs bitcode tr0 p"
  shows "pool_logs bitcode tr0 (pool_step lib env bitcode ref auth n i p)"
proof (cases "i < length (pool_workers p)")
  case True
  let ?ws = "pool_workers p"
  have mem: "Finished Panic \<in> set (?ws[i := w])" if "Finished Panic \<in> set ?ws" "?ws ! i \<noteq> Finished Panic" for w
    using that by (metis in_set_conv_nth length_list_update nth_list_update_neq)
  show ?thesis
  proof (cases "?ws ! i")
    case Waiting
    with True assms mem show ?thesis by (auto simp: pool_logs_def pool_step_def split: list.split)
  next
    case (Working layer)
    obtain r tr where l: "pull_layer lib env bitcode ref auth n (pool_progress p) layer (pool_history p) = (r, tr)"
      by (metis surj_pair)
    let ?w = "if r = Ok () then Waiting else Finished r"
    have st: "pool_workers (pool_step lib env bitcode ref auth n i p) = ?ws[i := ?w]"
      "pool_history (pool_step lib env bitcode ref auth n i p) = tr"
      using True Working l by (cases r; simp add: pool_step_def)+
    show ?thesis
      unfolding pool_logs_def st
    proof (intro impI)
      assume np: "Finished Panic \<notin> set (?ws[i := ?w])"
      then have r: "r \<noteq> Panic" using set_update_memI [OF True, of ?w] by auto
      from np mem [of ?w] Working have "Finished Panic \<notin> set ?ws" by auto
      then obtain l1 where "wire (frame_of bitcode) (pool_history p) =
          wire (frame_of bitcode) tr0 @ frames bitcode (map Log l1)" using assms by (auto simp: pool_logs_def)
      moreover obtain l2 where "wire (frame_of bitcode) tr =
          wire (frame_of bitcode) (pool_history p) @ frames bitcode (map Log l2)"
        using pull_layer_logs [of bitcode "pool_history p" lib env ref auth n "pool_progress p" layer] l r
        by (auto simp: logs_to_def)
      ultimately show "\<exists>logs. wire (frame_of bitcode) tr =
          wire (frame_of bitcode) tr0 @ frames bitcode (map Log logs)"
        by (intro exI [of _ "l1 @ l2"]) simp
    qed
  qed (use assms True in \<open>simp add: pool_step_def\<close>)
qed (use assms in \<open>simp add: pool_step_def\<close>)

lemma pool_logs_steps:
  "pool_logs bitcode tr0 p \<Longrightarrow> pool_logs bitcode tr0 ((pool_step lib env bitcode ref auth n i ^^ k) p)"
  "pool_logs bitcode tr0 p \<Longrightarrow> pool_logs bitcode tr0 (fold (pool_step lib env bitcode ref auth n) schedule p)"
  by (induction k, simp_all add: pool_step_logs) (induction schedule arbitrary: p, simp_all add: pool_step_logs)

lemma join_workers_logs:
  assumes "pool_logs bitcode tr0 p" and "join_workers lib env bitcode ref auth n js p = (r, p')" and "r \<noteq> Panic"
    and "js = [] \<Longrightarrow> Finished Panic \<notin> set (pool_workers p)"
  shows "pool_logs bitcode tr0 p' \<and> Finished Panic \<notin> set (pool_workers p')"
  using assms
proof (induction js arbitrary: p)
  case (Cons i js)
  let ?q = "(pool_step lib env bitcode ref auth n i ^^ (2 * length (pool_queue p) + 2)) p"
  have q: "pool_logs bitcode tr0 ?q" using Cons.prems(1) by (rule pool_logs_steps)
  have np: "Finished Panic \<notin> set (pool_workers ?q)"
    using Cons.prems(2,3) by (auto simp: Let_def simp del: funpow.simps)
  have "p' = ?q \<or> join_workers lib env bitcode ref auth n js ?q = (r, p')"
    using Cons.prems(2,3) np
    by (auto simp: Let_def simp del: funpow.simps split: worker.splits res.splits)
  with Cons.IH [OF q _ Cons.prems(3) np] q np show ?case by blast
qed auto

lemma run_pool_logs:
  "logs_to bitcode tr (map_prod id pool_history (run_pool lib env bitcode ref auth schedule layers tr))"
proof -
  let ?p = "fold (pool_step lib env bitcode ref auth (length layers)) schedule (start_pool layers tr)"
  obtain r p' where r: "run_pool lib env bitcode ref auth schedule layers tr = (r, p')" by (metis surj_pair)
  have "pool_logs bitcode tr (start_pool layers tr)"
    by (auto simp: pool_logs_def start_pool_def intro!: exI [of _ "[]"])
  then have p: "pool_logs bitcode tr ?p" by (rule pool_logs_steps)
  have "[0..<min CONCURRENT_LAYER_DOWNLOADS (length layers)] = [] \<Longrightarrow> pool_workers ?p = []"
    using fold_steps_keep [OF start_pool_ok [of layers tr], of lib env bitcode ref auth "length layers" schedule]
    by (auto simp: start_pool_def)
  then have "r \<noteq> Panic \<Longrightarrow> pool_logs bitcode tr p' \<and> Finished Panic \<notin> set (pool_workers p')"
    by (intro join_workers_logs [OF p r [unfolded run_pool_def]]) auto
  then show ?thesis by (auto simp: r logs_to_def pool_logs_def)
qed

text \<open>Everything after the first state change only logs.\<close>

lemma prepare_fs_calls:
  assumes "\<And>f. P (FileExists f)" and "\<And>f d. P (SaveFile f d)"
  shows "gextends_by P tr (snd (prepare_fs env path tr))"
proof -
  let ?etc = "path_join path ''etc''"
  have first: "gextends_by P tr (tr @ [(FileExists ?etc, env tr (FileExists ?etc))])"
    using assms(1) by auto
  show ?thesis
  proof (cases "env tr (FileExists ?etc) = GFlag True")
    case True
    have rest: "gextends_by P (tr @ [(FileExists ?etc, GFlag True)]) (snd (prepare_fs env path tr))"
      unfolding prepare_fs_def Let_def gperform_def True prod.case guest_reply.case if_True bool.case
      by (intro gextends_then_try gextends_gio assms) simp_all
    show ?thesis using gextends_trans [OF first [unfolded True] rest] .
  next
    case False
    then have "snd (prepare_fs env path tr) = tr @ [(FileExists ?etc, env tr (FileExists ?etc))]"
      by (cases "env tr (FileExists ?etc)") (simp_all add: prepare_fs_def gperform_def)
    with first show ?thesis by simp
  qed
qed

lemma pull_writes:
  assumes "pull_and_prepare_image lib env bitcode schedule ref overrides tr = (r, tr')" and "r \<noteq> Panic"
  shows "\<exists>t logs. wire (frame_of bitcode) tr' =
    wire (frame_of bitcode) tr @ frames bitcode (VmState (PullingContainerImage, t) # map Log logs)"
proof -
  let ?msg = "Some ''Starting to pull container image.''"
  obtain r1 tr1 where s: "(state_change env bitcode PullingContainerImage ?msg tr
      :: (RegistryErrors, unit) res \<times> gevent list) = (r1, tr1)" by (metis surj_pair)
  have ok: "r1 = Ok ()"
    using assms no_err_state_change [of env bitcode PullingContainerImage ?msg tr, where ?'a = RegistryErrors]
    by (cases r1) (auto simp: pull_and_prepare_image_def s no_err_def)
  from state_change_wire [OF s [unfolded ok], of "frame_of bitcode"] obtain t l1 where
    w1: "wire (frame_of bitcode) tr1 = wire (frame_of bitcode) tr @
      frames bitcode (VmState (PullingContainerImage, t) # map Log l1)" by (auto simp: comp_def)
  have "logs_to bitcode tr1 (r, tr')"
    unfolding assms(1) [symmetric] pull_and_prepare_image_def s ok then_try.simps create_overlay_fs_def sh_cmd_def
      case_prod_unfold
    by (intro logs_to_then_try logs_to_gio log_system_message_logs logs_to_pure logs_to_or_panic
    run_pool_logs logs_to_silent [OF get_manifest_and_config_extends] logs_to_silent [OF docker_auth_extends]
    logs_to_silent [OF create_layer_folders_extends] logs_to_silent [OF prepare_fs_calls]
      logs_to_silent [OF silent_run]) simp_all
  then obtain l2 where "wire (frame_of bitcode) tr' = wire (frame_of bitcode) tr1 @ frames bitcode (map Log l2)"
    using assms(2) by (auto simp: logs_to_def)
  with w1 show ?thesis by (intro exI [of _ t] exI [of _ "l1 @ l2"]) simp
qed

section \<open>The calls of a pull\<close>

text \<open>A pull talks to the registry, the disk, \<open>mount\<close> and the host; it starts no container.\<close>

fun pull_call :: "guest_call \<Rightarrow> bool" where
  "pull_call (HttpGet _ _) = True"
| "pull_call ContentLength = True"
| "pull_call (CreateDir _) = True"
| "pull_call (Unpack _ _ _) = True"
| "pull_call (SaveFile _ _) = True"
| "pull_call (FileExists _) = True"
| "pull_call (RunProgram _ _) = True"
| "pull_call c = comm_call c"

lemma comm_pull_call: "gextends_by comm_call tr tr' \<Longrightarrow> gextends_by pull_call tr tr'"
proof (erule gextends_mono)
  show "comm_call c \<Longrightarrow> pull_call c" for c by (cases c) simp_all
qed

lemma pull_layer_calls: "gextends_by pull_call tr (snd (pull_layer lib env bitcode ref auth n i layer tr))"
proof -
  have "gextends_by pull_call tr (snd (extract_layer env blob f mt tr))" for tr blob f mt
    by (cases "layer_decoder mt") (auto simp: extract_layer_def)
  then show ?thesis
    unfolding pull_layer_def pull_and_extract_layer_def
    by (intro gextends_then_try gextends_gio comm_pull_call [OF log_system_message_calls]
        get_with_backoff_extends content_length_extends) simp_all
qed

lemma pool_step_calls: "gextends_by pull_call (pool_history p) (pool_history (pool_step lib env bitcode ref auth n i p))"
proof (cases "i < length (pool_workers p) \<and> (\<exists>l. pool_workers p ! i = Working l)")
  case True
  then obtain l where l: "pool_workers p ! i = Working l" by blast
  have "pool_history (pool_step lib env bitcode ref auth n i p) =
      snd (pull_layer lib env bitcode ref auth n (pool_progress p) l (pool_history p))"
    using True l by (simp add: pool_step_def split: prod.split res.split)
  then show ?thesis by (simp add: pull_layer_calls)
qed (auto simp: pool_step_def split: worker.split list.split)

lemma pool_steps_calls:
  "gextends_by pull_call (pool_history p) (pool_history ((pool_step lib env bitcode ref auth n i ^^ k) p))"
  by (induction k) (auto intro: pool_step_calls gextends_trans)

lemma pool_schedule_calls:
  "gextends_by pull_call (pool_history p) (pool_history (fold (pool_step lib env bitcode ref auth n) schedule p))"
  by (induction schedule arbitrary: p) (auto intro: pool_step_calls gextends_trans)

lemma join_workers_calls:
  "gextends_by pull_call (pool_history p) (pool_history (snd (join_workers lib env bitcode ref auth n js p)))"
proof (induction js arbitrary: p)
  case (Cons i js)
  let ?q = "(pool_step lib env bitcode ref auth n i ^^ (2 * length (pool_queue p) + 2)) p"
  have q: "gextends_by pull_call (pool_history p) (pool_history ?q)" by (rule pool_steps_calls)
  have "snd (join_workers lib env bitcode ref auth n (i # js) p) \<in>
      {?q, snd (join_workers lib env bitcode ref auth n js ?q)}"
    by (auto simp: Let_def simp del: funpow.simps split: worker.split res.split)
  with q gextends_trans [OF q Cons.IH [of ?q]] show ?case by (auto simp del: funpow.simps join_workers.simps)
qed simp

lemma run_pool_calls:
  "gextends_by pull_call tr (pool_history (snd (run_pool lib env bitcode ref auth schedule layers tr)))"
  unfolding run_pool_def
  using gextends_trans [OF pool_schedule_calls join_workers_calls, of "start_pool layers tr"]
  by (simp add: start_pool_def)

lemma pull_calls:
  "gextends_by pull_call tr (snd (pull_and_prepare_image lib env bitcode schedule ref overrides tr))"
  unfolding pull_and_prepare_image_def create_overlay_fs_def sh_cmd_def case_prod_unfold
  by (intro gextends_then_try gextends_gio comm_pull_call [OF state_change_calls]
      comm_pull_call [OF log_system_message_calls] docker_auth_extends get_manifest_and_config_extends
      create_layer_folders_extends)
    (auto simp: run_pool_calls intro!: gextends_gio prepare_fs_calls)

section \<open>The image\<close>

lemma run_pool_outcome:
  assumes "run_pool lib env bitcode ref auth schedule layers tr = (r, p)"
  shows "(if r = Ok () then
       set (pool_workers p) \<subseteq> {Finished (Ok ())} \<and> pool_queue p = [] \<and> pool_progress p = of_nat (length layers) \<and>
       unpacked (pool_history p) = unpacked tr + mset (map layer_folder layers)
     else Finished r \<in> set (pool_workers p)) \<and>
     length (pool_workers p) = min 5 (length layers)"
proof -
  let ?n = "min CONCURRENT_LAYER_DOWNLOADS (length layers)"
  let ?q = "fold (pool_step lib env bitcode ref auth (length layers)) schedule (start_pool layers tr)"
  have q: "pool_ok layers tr ?q" "length (pool_workers ?q) = ?n"
    using fold_steps_keep [OF start_pool_ok [of layers tr], of lib env bitcode ref auth "length layers" schedule]
    by (auto simp: start_pool_def)
  have "\<forall>i \<in> set [0..<?n]. i < length (pool_workers ?q)" using q(2) by simp
  from join_workers_end [OF this q(1) assms [unfolded run_pool_def]]
  have p: "pool_ok layers tr p" "length (pool_workers p) = ?n" "joined p r"
    "r = Ok () \<Longrightarrow> \<forall>i < ?n. pool_workers p ! i = Finished (Ok ())"
    using q(2) by auto
  show ?thesis
  proof (cases "r = Ok ()")
    case True
    have ws: "pool_workers p = replicate ?n (Finished (Ok ()))"
      using p(2) p(4) [OF True] by (simp add: list_eq_iff_nth_eq)
    have "sum_list (map held (replicate k (Finished (Ok ())))) = {#}" for k by (induction k) simp_all
    then obtain pulled where "mset layers = mset (pool_queue p) + pulled" "of_nat (size pulled) = pool_progress p"
      "unpacked (pool_history p) = unpacked tr + image_mset layer_folder pulled"
      using p(1) by (auto simp: pool_ok_def ws)
    moreover have "pool_queue p = []"
      using p(1) \<open>mset layers = mset (pool_queue p) + pulled\<close>
      by (cases "layers = []") (auto simp: pool_ok_def ws CONCURRENT_LAYER_DOWNLOADS_def)
    moreover from calculation have "of_nat (length layers) = pool_progress p" by (metis add_0 mset.simps(1) size_mset)
    ultimately show ?thesis using True p(2) ws by (auto simp: CONCURRENT_LAYER_DOWNLOADS_def)
  qed (use p(2,3) in \<open>auto simp: joined_def CONCURRENT_LAYER_DOWNLOADS_def split: res.splits\<close>)
qed

lemma create_layer_folders_Ok:
  "create_layer_folders env ls tr = (Ok fs, tr') \<Longrightarrow> fs = map layer_folder ls"
  by (induction ls arbitrary: fs tr) (auto simp: res_simps)

lemma run_or_panic_Ok [res_simps]:
  "run_or_panic env prog args tr = (Ok u, tr') \<longleftrightarrow>
     env tr (RunProgram prog args) = GFlag True \<and> tr' = tr @ [(RunProgram prog args, GFlag True)]"
  by (auto simp: run_or_panic_def gperform_def split: guest_reply.splits bool.splits)

lemma map_err_Ok [res_simps]: "map_err f r = Ok a \<longleftrightarrow> r = Ok a"
  by (cases r) auto

lemma no_unpack_Ok: "m = (Ok a, tr') \<Longrightarrow> no_unpack tr (snd m) \<Longrightarrow> unpacked tr' = unpacked tr"
  using no_unpack_unpacked by force

lemma map_prod_pool_Ok [res_simps]:
  "map_prod id pool_history m = (Ok u, tr) \<longleftrightarrow> (\<exists>p. m = (Ok u, p) \<and> tr = pool_history p)"
  by (cases m) auto

lemma colon_free_folder: "CHR '':'' \<notin> set (layer_folder l)"
  by (auto simp: layer_folder_def path_join_def)

lemma overlay_lower:
  fixes layers :: "Layer list"
  defines "lower \<equiv> join_strings '':'' (rev (map layer_folder layers))"
  shows "if layers = [] then lower = [] else split_on CHR '':'' lower = rev (map layer_folder layers)"
  unfolding lower_def by (auto intro!: split_on_join simp: list_all_iff colon_free_folder)

lemma split_on_single: "split_on c xs = [x] \<Longrightarrow> xs = x"
  by (induction xs arbitrary: x) (auto split: if_splits list.splits)

lemma gextends_Ok: "m = (Ok a, tr') \<Longrightarrow> gextends_by P tr (snd m) \<Longrightarrow> gextends_by P tr tr'"
  by simp

text \<open>The stages of a successful pull: registry, layers and files, overlay, generated files.\<close>

lemma pull_stages:
  assumes "pull_and_prepare_image lib env bitcode schedule ref overrides tr = (Ok spec, tr')"
  obtains tr0 auth tr1 manifest config tr2 work after where
    "docker_auth lib env ref tr0 = (Ok auth, tr1)"
    "get_manifest_and_config lib env ref auth tr1 = (Ok (manifest, config), tr2)"
    "create_runtime_spec (oci_lib lib) config overrides = Ok spec"
    "tr' = tr2 @ work @ (RunProgram ''/sbin/busybox'' (overlay_args ''/mnt/rootfs'' ''/mnt/work''
       (map layer_folder (manifest_layers manifest))), GFlag True) # after"
    "(SaveFile ''/mnt/config.json'' (spec_json lib spec), GDone) \<in> set work"
    "unpacked tr2 = unpacked tr" "unpacked work = mset (map layer_folder (manifest_layers manifest))" "unpacked after = {#}"
proof -
  obtain tr0 auth tr1 manifest config tr2 tr4 fs tr5 p tr9 where
    s: "(state_change env bitcode PullingContainerImage (Some ''Starting to pull container image.'') tr
      :: (RegistryErrors, unit) res \<times> gevent list) = (Ok (), tr0)"
    and a: "docker_auth lib env ref tr0 = (Ok auth, tr1)"
    and g: "get_manifest_and_config lib env ref auth tr1 = (Ok (manifest, config), tr2)"
    and l: "(log_system_message env bitcode (''Image manifest fetched. Pulling '' @
      dec_string (length (manifest_layers manifest)) @ '' layers... '') (tr2 @ [(CreateDir ''/mnt/layers'', GDone)])
      :: (RegistryErrors, unit) res \<times> gevent list) = (Ok (), tr4)"
    and f: "create_layer_folders env (manifest_layers manifest) tr4 = (Ok fs, tr5)"
    and r: "run_pool lib env bitcode ref auth schedule (manifest_layers manifest) tr5 = (Ok (), p)"
    and c: "create_runtime_spec (oci_lib lib) config overrides = Ok spec"
    and tr9: "tr9 = pool_history p @ [(SaveFile ''/mnt/image_config.json'' (image_config_json lib config), GDone),
      (SaveFile ''/mnt/config.json'' (spec_json lib spec), GDone),
      (SaveFile ''/mnt/manifest.json'' (manifest_json lib manifest), GDone),
      (CreateDir ''/mnt/rootfs'', GDone), (CreateDir ''/mnt/work'', GDone)]"
    and e: "prepare_fs env ''/mnt/rootfs'' (tr9 @ [(RunProgram ''/sbin/busybox''
      (overlay_args ''/mnt/rootfs'' ''/mnt/work'' fs), GFlag True)]) = (Ok (), tr')"
    using assms unfolding pull_and_prepare_image_def create_overlay_fs_def sh_cmd_def
    by (auto simp: res_simps)
  note fs = create_layer_folders_Ok [OF f]
  let ?mount = "(RunProgram ''/sbin/busybox'' (overlay_args ''/mnt/rootfs'' ''/mnt/work'' fs), GFlag True)"
  have u2: "unpacked tr2 = unpacked tr"
    using no_unpack_Ok [OF s no_unpack_comm [OF state_change_calls]] no_unpack_Ok [OF a docker_auth_extends]
      no_unpack_Ok [OF g get_manifest_and_config_extends] by simp
  have u5: "unpacked tr5 = unpacked tr2"
    using no_unpack_Ok [OF l no_unpack_comm [OF log_system_message_calls]] no_unpack_Ok [OF f create_layer_folders_extends]
    by simp
  have "gextends_by pull_call tr2 (tr2 @ [(CreateDir ''/mnt/layers'', GDone)])" by auto
  note gextends_trans [OF this gextends_Ok [OF l comm_pull_call [OF log_system_message_calls]]]
  note gextends_trans [OF this gextends_Ok [OF f create_layer_folders_extends]]
  note gextends_trans [OF this, of "pool_history p"]
  moreover have "gextends_by pull_call tr5 (pool_history p)"
    using run_pool_calls [of tr5 lib env bitcode ref auth schedule "manifest_layers manifest"] by (simp add: r)
  ultimately obtain w where w: "pool_history p = tr2 @ w" by (auto simp: gextends_by_def)
  have "no_unpack (tr9 @ [?mount]) (snd (prepare_fs env ''/mnt/rootfs'' (tr9 @ [?mount])))"
    by (rule prepare_fs_calls) simp_all
  then obtain after where after: "tr' = tr9 @ ?mount # after" by (auto simp: e gextends_by_def)
  moreover have "unpacked after = {#}" using no_unpack_Ok [OF e prepare_fs_calls] by (simp add: after)
  moreover have "unpacked w = mset (map layer_folder (manifest_layers manifest))"
    using run_pool_outcome [OF r] u5 by (simp add: w)
  ultimately show thesis
    by (intro that [OF a g c, of "drop (length tr2) tr9" after]) (simp_all add: tr9 w u2 fs)
qed

section \<open>Properties\<close>


definition sample_layer :: Layer where
  "sample_layer = \<lparr>layer_digest = ''sha256:ab'', layer_media_type = ImageLayerGzip\<rparr>"

definition sample_lib :: "(unit, SpecFields option) image_lib" where
  "sample_lib =
     \<lparr>json_parse = (\<lambda>_. Some ()), json_schema_version = (\<lambda>_. Some 2),
      json_index = (\<lambda>_. Some [\<lparr>manifest_platform = Some \<lparr>is_amd64 = True, is_linux = True\<rparr>, manifest_digest = ''m''\<rparr>]),
      parse_manifest = (\<lambda>_. Some \<lparr>manifest_config_digest = ''c'', manifest_layers = [sample_layer]\<rparr>),
      parse_config = (\<lambda>_. Some None), parse_token = (\<lambda>_. Some ''t''),
      show_size = dec_string, oci_lib = echo_oci, image_config_json = (\<lambda>_. []), spec_json = (\<lambda>_. []),
      manifest_json = (\<lambda>_. []), retries = 0\<rparr>"

definition sample_internet :: genv where
  "sample_internet tr c =
     (case c of
        HttpGet _ _ \<Rightarrow> GResponse 200 [1, 2, 3]
      | RunProgram _ _ \<Rightarrow> GFlag True
      | GetPid \<Rightarrow> GFlag True
      | FileExists _ \<Rightarrow> GFlag True
      | NowMillis \<Rightarrow> GClock (Some 7)
      | NowNanos \<Rightarrow> GNat 9
      | ContentLength \<Rightarrow> GLength (Some 3)
      | WaitThread \<Rightarrow> GLogs []
      | MmdsPut _ _ \<Rightarrow> GResponse 200 [116, 10]
      | MmdsGet _ _ \<Rightarrow> GResponse 200 [123]
      | RecvExit \<Rightarrow> GExit (ContainerDone (Some 3)) []
      | JoinPipe \<Rightarrow> GLogs []
      | _ \<Rightarrow> GDone)"

definition sample_reference :: Reference where
  "sample_reference =
     \<lparr>ref_registry = ''docker.io'', ref_resolve_registry = ''index.docker.io'', ref_repository = ''library/nginx'',
      ref_tag = None\<rparr>"



definition sample_overrides :: RuntimeOverrides where
  "sample_overrides = \<lparr>additional_args = None, additional_env = None, terminal = False\<rparr>"


end
