(* ===== verification/Guest_Pipe.thy ===== *)
theory Guest_Pipe
  imports Guest_Comm
begin

text \<open>
  \<open>spawn_pipe_to_log\<close> of \<open>instance/src/host.rs\<close>: the container's output is read into a buffer
  of 3072 bytes and cut at newlines; every line becomes a log packet. The pipe is the list
  of chunks it will deliver, one read never taking more than one chunk, and ends after
  them; what does not fit into the buffer stays for the next read. Also here: the standard
  library's \<open>String::from_utf8_lossy\<close>.
\<close>

section \<open>Lossy UTF-8 decoding\<close>

definition is_cont :: "byte \<Rightarrow> bool" where
  "is_cont b \<longleftrightarrow> 0x80 \<le> b \<and> b \<le> 0xBF"

definition utf8_width :: "byte \<Rightarrow> nat" where
  "utf8_width b =
     (if b \<le> 0x7F then 1 else if 0xC2 \<le> b \<and> b \<le> 0xDF then 2
      else if 0xE0 \<le> b \<and> b \<le> 0xEF then 3 else if 0xF0 \<le> b \<and> b \<le> 0xF4 then 4 else 0)"

definition utf8_second_ok :: "byte \<Rightarrow> byte \<Rightarrow> bool" where
  "utf8_second_ok lead b =
     (if lead = 0xE0 then 0xA0 \<le> b \<and> b \<le> 0xBF else if lead = 0xED then 0x80 \<le> b \<and> b \<le> 0x9F
      else if lead = 0xF0 then 0x90 \<le> b \<and> b \<le> 0xBF else if lead = 0xF4 then 0x80 \<le> b \<and> b \<le> 0x8F
      else is_cont b)"

text \<open>How many bytes the next character or the next broken sequence takes, and which it is.\<close>

definition utf8_scan :: "byte list \<Rightarrow> nat \<times> bool" where
  "utf8_scan bs =
     (let w = utf8_width (hd bs) in
      if w = 0 then (1, False) else if w = 1 then (1, True)
      else if \<not> (1 < length bs \<and> utf8_second_ok (hd bs) (bs ! 1)) then (1, False)
      else if w = 2 then (2, True)
      else if \<not> (2 < length bs \<and> is_cont (bs ! 2)) then (2, False)
      else if w = 3 then (3, True)
      else if \<not> (3 < length bs \<and> is_cont (bs ! 3)) then (3, False)
      else (4, True))"

lemma utf8_scan_pos: "0 < fst (utf8_scan bs)"
  by (simp add: utf8_scan_def Let_def)

function from_utf8_lossy :: "byte list \<Rightarrow> byte list" where
  "from_utf8_lossy bs =
     (if bs = [] then []
      else (case utf8_scan bs of
              (n, valid) \<Rightarrow> (if valid then take n bs else [0xEF, 0xBF, 0xBD]) @ from_utf8_lossy (drop n bs)))"
  by pat_completeness auto

termination from_utf8_lossy
proof (relation "measure length", simp)
  fix bs :: "byte list" and x y
  assume "bs \<noteq> []" and "(x, y) = utf8_scan bs"
  then show "(drop x bs, bs) \<in> measure length"
    using utf8_scan_pos [of bs] by (simp add: prod_eq_iff flip: length_greater_0_conv)
qed

declare from_utf8_lossy.simps [simp del]

text \<open>
  UTF-8 as the Unicode standard has it, for comparison: the encoding of a scalar value, and
  the byte strings that are made of such encodings. They are decoded to themselves.
\<close>

definition scalar_value :: "nat \<Rightarrow> bool" where
  "scalar_value n \<longleftrightarrow> n < 0xD800 \<or> 0xDFFF < n \<and> n < 0x110000"

definition utf8_encode :: "nat \<Rightarrow> byte list" where
  "utf8_encode n =
     map of_nat
      (if n < 0x80 then [n]
       else if n < 0x800 then [0xC0 + n div 64, 0x80 + n mod 64]
       else if n < 0x10000 then [0xE0 + n div 4096, 0x80 + n div 64 mod 64, 0x80 + n mod 64]
       else [0xF0 + n div 262144, 0x80 + n div 4096 mod 64, 0x80 + n div 64 mod 64, 0x80 + n mod 64])"

definition is_utf8 :: "byte list \<Rightarrow> bool" where
  "is_utf8 bs \<longleftrightarrow> (\<exists>cs. list_all scalar_value cs \<and> bs = concat (map utf8_encode cs))"

lemma byte_of_nat_compare:
  assumes "k < 256"
  shows "(of_nat k :: byte) \<le> numeral m \<longleftrightarrow> k \<le> numeral m mod 256"
    and "numeral m \<le> (of_nat k :: byte) \<longleftrightarrow> numeral m mod 256 \<le> k"
    and "(of_nat k :: byte) = numeral m \<longleftrightarrow> k = numeral m mod 256"
proof -
  have u: "unat (of_nat k :: byte) = k" using assms by (simp add: unat_of_nat)
  have n: "unat (numeral m :: byte) = numeral m mod 256" by (simp add: take_bit_eq_mod)
  show "(of_nat k :: byte) \<le> numeral m \<longleftrightarrow> k \<le> numeral m mod 256"
    and "numeral m \<le> (of_nat k :: byte) \<longleftrightarrow> numeral m mod 256 \<le> k"
    unfolding word_le_nat_alt u n by (rule refl)+
  show "(of_nat k :: byte) = numeral m \<longleftrightarrow> k = numeral m mod 256"
    unfolding word_unat_eq_iff u n ..
qed

lemmas utf8_classes = is_cont_def utf8_width_def utf8_second_ok_def

lemma utf8_scan_valid:
  "a \<le> 0x7F \<Longrightarrow> utf8_scan (of_nat a # rest) = (1, True)"
  "0xC2 \<le> a \<Longrightarrow> a \<le> 0xDF \<Longrightarrow> 0x80 \<le> b \<Longrightarrow> b \<le> 0xBF \<Longrightarrow> utf8_scan (of_nat a # of_nat b # rest) = (2, True)"
  "0xE0 \<le> a \<Longrightarrow> a \<le> 0xEF \<Longrightarrow> 0x80 \<le> b \<Longrightarrow> b \<le> 0xBF \<Longrightarrow> (a = 0xE0 \<Longrightarrow> 0xA0 \<le> b) \<Longrightarrow> (a = 0xED \<Longrightarrow> b \<le> 0x9F) \<Longrightarrow>
     0x80 \<le> c \<Longrightarrow> c \<le> 0xBF \<Longrightarrow> utf8_scan (of_nat a # of_nat b # of_nat c # rest) = (3, True)"
  "0xF0 \<le> a \<Longrightarrow> a \<le> 0xF4 \<Longrightarrow> 0x80 \<le> b \<Longrightarrow> b \<le> 0xBF \<Longrightarrow> (a = 0xF0 \<Longrightarrow> 0x90 \<le> b) \<Longrightarrow> (a = 0xF4 \<Longrightarrow> b \<le> 0x8F) \<Longrightarrow>
     0x80 \<le> c \<Longrightarrow> c \<le> 0xBF \<Longrightarrow> 0x80 \<le> d \<Longrightarrow> d \<le> 0xBF \<Longrightarrow>
     utf8_scan (of_nat a # of_nat b # of_nat c # of_nat d # rest) = (4, True)"
  by (simp_all add: utf8_scan_def utf8_classes byte_of_nat_compare)

lemma utf8_scan_encode:
  assumes "scalar_value n"
  shows "utf8_scan (utf8_encode n @ rest) = (length (utf8_encode n), True)"
proof -
  have d: "n div 4096 = n div 64 div 64" "n div 262144 = n div 64 div 64 div 64" by (simp_all flip: div_mult2_eq)
  consider "n < 0x80" | "0x80 \<le> n" "n < 0x800" | "0x800 \<le> n" "n < 0x10000" | "0x10000 \<le> n" "n < 0x110000"
    using assms by (fastforce simp: scalar_value_def)
  then show ?thesis
  proof cases
    case 1
    then show ?thesis by (simp add: utf8_encode_def utf8_scan_valid)
  next
    case 2
    then show ?thesis
      using utf8_scan_valid(2) [of "0xC0 + n div 64" "0x80 + n mod 64" rest] by (simp add: utf8_encode_def)
  next
    case 3
    have "n div 64 div 64 = 13 \<Longrightarrow> n div 64 mod 64 \<le> 31" "n div 64 div 64 = 0 \<Longrightarrow> 32 \<le> n div 64 mod 64"
      using 3 assms div_mult_mod_eq [of "n div 64" 64] unfolding scalar_value_def by auto
    with 3 show ?thesis
      using utf8_scan_valid(3) [of "0xE0 + n div 4096" "0x80 + n div 64 mod 64" "0x80 + n mod 64" rest]
      by (simp add: utf8_encode_def d)
  next
    case 4
    have "n div 64 div 64 < 272" using 4 by (simp add: less_mult_imp_div_less)
    then have "n div 64 div 64 div 64 = 0 \<Longrightarrow> 16 \<le> n div 64 div 64 mod 64" 
      "n div 64 div 64 div 64 = 4 \<Longrightarrow> n div 64 div 64 mod 64 \<le> 15" "n div 64 div 64 div 64 \<le> 4"
      using 4 div_mult_mod_eq [of "n div 64 div 64" 64] by auto
    with 4 show ?thesis
      using utf8_scan_valid(4) [of "0xF0 + n div 262144" "0x80 + n div 4096 mod 64" "0x80 + n div 64 mod 64" "0x80 + n mod 64" rest]
      by (simp add: utf8_encode_def d)
  qed
qed

lemma from_utf8_lossy_utf8: "is_utf8 bs \<Longrightarrow> from_utf8_lossy bs = bs"
proof -
  have "from_utf8_lossy (concat (map utf8_encode cs)) = concat (map utf8_encode cs)" if "list_all scalar_value cs" for cs
    using that
  proof (induction cs)
    case (Cons c cs)
    have "utf8_encode c \<noteq> []" by (simp add: utf8_encode_def)
    with Cons show ?case by (subst from_utf8_lossy.simps) (simp add: utf8_scan_encode)
  qed (simp add: from_utf8_lossy.simps)
  then show "is_utf8 bs \<Longrightarrow> from_utf8_lossy bs = bs" by (auto simp: is_utf8_def)
qed

definition text_of :: "byte list \<Rightarrow> string" where
  "text_of bs = map (\<lambda>b. char_of (unat b)) bs"

section \<open>The buffer\<close>

definition overwrite :: "byte list \<Rightarrow> nat \<Rightarrow> byte list \<Rightarrow> byte list" where
  "overwrite buf i data = take i buf @ data @ drop (i + length data) buf"

fun newline_index :: "byte list \<Rightarrow> nat option" where
  "newline_index [] = None"
| "newline_index (b # bs) = (if b = 10 then Some 0 else map_option Suc (newline_index bs))"

definition OVERFLOW_MARK :: "byte list" where
  "OVERFLOW_MARK = [63, 63, 63, 46, 46, 46, 63, 63, 63]"

text \<open>
  One successful read of \<open>data\<close> at \<open>pos\<close>: the line to log if the data has a newline, the
  new buffer and the new position.
\<close>

definition pipe_feed :: "byte list \<Rightarrow> nat \<Rightarrow> byte list \<Rightarrow> byte list option \<times> (byte list \<times> nat)" where
  "pipe_feed buf pos data =
     (let buf = overwrite buf pos data; n = length data in
      case newline_index data of
        Some i \<Rightarrow>
          (let index = pos + i;
               line = take index buf;
               next_line_buffered = n - i - 1
           in if next_line_buffered > 0 then
                (Some line,
                 (overwrite buf 0 (take (next_line_buffered - 1) (drop (index + 1) buf)), next_line_buffered))
              else (Some line, (buf, 0)))
      | None \<Rightarrow>
          (let pos = pos + n in
           if pos \<ge> BUFFER_SIZE - 1024 then
             (None, (overwrite buf (BUFFER_SIZE - 1024) OVERFLOW_MARK,
                     BUFFER_SIZE - 1024 + length OVERFLOW_MARK))
           else (None, (buf, pos))))"

datatype pipe_read = Chunk "byte list" | PipeError

definition last_line :: "byte list \<Rightarrow> nat \<Rightarrow> byte list list" where
  "last_line buf pos = (if pos > 0 then [take pos buf] else [])"

fun pipe_work :: "pipe_read list \<Rightarrow> nat" where
  "pipe_work [] = 0"
| "pipe_work (Chunk c # cs) = Suc (length c) + pipe_work cs"
| "pipe_work (PipeError # cs) = Suc (pipe_work cs)"

function pipe_loop :: "pipe_read list \<Rightarrow> byte list \<Rightarrow> nat \<Rightarrow> byte list list" where
  "pipe_loop reads buf pos =
     (let pos = min pos BUFFER_SIZE; cap = BUFFER_SIZE + 1024 - pos in
      case reads of
        [] \<Rightarrow> last_line buf pos
      | PipeError # _ \<Rightarrow> []
      | Chunk c # cs \<Rightarrow>
          if c = [] then last_line buf pos
          else
            (let cs = (if length c \<le> cap then cs else Chunk (drop cap c) # cs) in
             case pipe_feed buf pos (take cap c) of
               (line, (buf, pos)) \<Rightarrow>
                 (case line of Some l \<Rightarrow> [l] | None \<Rightarrow> []) @ pipe_loop cs buf pos))"
  by pat_completeness auto

termination pipe_loop
  by (relation "measure (\<lambda>(cs, _, _). pipe_work cs)") (auto simp: BUFFER_SIZE_def)

declare pipe_loop.simps [simp del]

text \<open>The lines a whole pipe yields, and the log packets written for them.\<close>

definition pipe_lines :: "pipe_read list \<Rightarrow> byte list list" where
  "pipe_lines reads = pipe_loop reads (replicate (BUFFER_SIZE + 1024) 0) 0"

fun write_lines ::
  "genv \<Rightarrow> GuestPacket codec \<Rightarrow> LogMessageType \<Rightarrow> byte list list \<Rightarrow> gevent list \<Rightarrow> ('e, unit) res \<times> gevent list"
  where
  "write_lines env bitcode log_type [] tr = (Ok (), tr)"
| "write_lines env bitcode log_type (l # ls) tr =
     (case read_clock env tr of
        (clock, tr) \<Rightarrow>
          then_try (or_panic (write_packet env bitcode
              (Log (LogMessage_new clock (text_of (from_utf8_lossy l)) log_type)) tr))
            (\<lambda>_ tr. write_lines env bitcode log_type ls tr))"

definition spawn_pipe_to_log ::
  "genv \<Rightarrow> GuestPacket codec \<Rightarrow> LogMessageType \<Rightarrow> pipe_read list \<Rightarrow> gevent list \<Rightarrow> ('e, unit) res \<times> gevent list"
  where
  "spawn_pipe_to_log env bitcode log_type reads tr = write_lines env bitcode log_type (pipe_lines reads) tr"

section \<open>Bounds\<close>

lemma length_overwrite [simp]: "i + length data \<le> length buf \<Longrightarrow> length (overwrite buf i data) = length buf"
  by (simp add: overwrite_def)

lemma take_overwrite: "i \<le> length buf \<Longrightarrow> take (i + length data) (overwrite buf i data) = take i buf @ data"
  by (simp add: overwrite_def min_def)

lemma newline_index_less: "newline_index bs = Some i \<Longrightarrow> i < length bs"
  by (induction bs arbitrary: i) (auto split: if_splits)

lemma newline_index_None: "newline_index bs = None \<longleftrightarrow> 10 \<notin> set bs"
  by (induction bs) auto

lemma newline_index_append: "10 \<notin> set d \<Longrightarrow> newline_index (d @ 10 # r) = Some (length d)"
  by (induction d) auto

section \<open>Lines that arrive whole\<close>

lemma feed_part:
  assumes "10 \<notin> set c" and "pos + length c < 1024" and "length buf = 3072"
  shows "\<exists>buf'. pipe_feed buf pos c = (None, (buf', pos + length c)) \<and> length buf' = 3072 \<and>
    take (pos + length c) buf' = take pos buf @ c"
  using assms newline_index_None [of c]
  by (simp add: pipe_feed_def BUFFER_SIZE_def Let_def take_overwrite)

lemma feed_end:
  assumes "10 \<notin> set d" and "pos + length d < 1024" and "length buf = 3072"
  shows "\<exists>buf'. pipe_feed buf pos (d @ [10]) = (Some (take pos buf @ d), (buf', 0)) \<and> length buf' = 3072"
proof -
  have "take (pos + length d) (overwrite buf pos (d @ [10])) = take pos buf @ d"
    using assms by (simp add: overwrite_def)
  then show ?thesis
    using assms newline_index_append [of d "[]"] by (simp add: pipe_feed_def Let_def)
qed

lemma pipe_loop_part:
  assumes "c \<noteq> []" and "10 \<notin> set c" and "pos + length c < 1024" and "length buf = 3072"
  shows "\<exists>buf'. pipe_loop (Chunk c # cs) buf pos = pipe_loop cs buf' (pos + length c) \<and> length buf' = 3072 \<and>
    take (pos + length c) buf' = take pos buf @ c"
proof -
  obtain buf' where f: "pipe_feed buf pos c = (None, (buf', pos + length c))" and b: "length buf' = 3072"
    "take (pos + length c) buf' = take pos buf @ c"
    using feed_part [OF assms(2-4)] by blast
  have "min pos 2048 = pos" "length c \<le> 3072 - pos" using assms(3) by simp_all
  with assms(1) f have "pipe_loop (Chunk c # cs) buf pos = pipe_loop cs buf' (pos + length c)"
    by (subst pipe_loop.simps) (simp add: BUFFER_SIZE_def)
  with b show ?thesis by blast
qed

lemma pipe_loop_end:
  assumes "10 \<notin> set d" and "pos + length d < 1024" and "length buf = 3072"
  shows "\<exists>buf'. pipe_loop (Chunk (d @ [10]) # cs) buf pos = (take pos buf @ d) # pipe_loop cs buf' 0 \<and> length buf' = 3072"
proof -
  obtain buf' where f: "pipe_feed buf pos (d @ [10]) = (Some (take pos buf @ d), (buf', 0))" and b: "length buf' = 3072"
    using feed_end [OF assms] by blast
  have "min pos 2048 = pos" "length (d @ [10]) \<le> 3072 - pos" using assms(2) by simp_all
  with f have "pipe_loop (Chunk (d @ [10]) # cs) buf pos = (take pos buf @ d) # pipe_loop cs buf' 0"
    by (subst pipe_loop.simps) (simp add: BUFFER_SIZE_def)
  with b show ?thesis by blast
qed

text \<open>
  A line in pieces: some reads without a newline and a last one that ends with it.
\<close>

definition line_reads :: "byte list list \<times> byte list \<Rightarrow> pipe_read list" where
  "line_reads g = map Chunk (fst g) @ [Chunk (snd g @ [10])]"

definition line_of :: "byte list list \<times> byte list \<Rightarrow> byte list" where
  "line_of g = concat (fst g) @ snd g"

definition line_ok :: "byte list list \<times> byte list \<Rightarrow> bool" where
  "line_ok g \<longleftrightarrow> list_all (\<lambda>c. c \<noteq> []) (fst g) \<and> 10 \<notin> set (line_of g) \<and> length (line_of g) < 1024"

lemma pipe_loop_line:
  assumes "list_all (\<lambda>c. c \<noteq> []) ps" and "10 \<notin> set (concat ps @ d)"
    and "pos + length (concat ps @ d) < 1024" and "length buf = 3072"
  shows "\<exists>buf'. pipe_loop (map Chunk ps @ Chunk (d @ [10]) # cs) buf pos =
    (take pos buf @ concat ps @ d) # pipe_loop cs buf' 0 \<and> length buf' = 3072"
  using assms
proof (induction ps arbitrary: buf pos)
  case Nil
  then show ?case using pipe_loop_end [of d pos buf cs] by simp
next
  case (Cons c ps)
  have "c \<noteq> []" "10 \<notin> set c" "pos + length c < 1024" using Cons.prems by auto
  from pipe_loop_part [OF this Cons.prems(4), of "map Chunk ps @ Chunk (d @ [10]) # cs"]
  obtain buf1 where b: "pipe_loop (Chunk c # map Chunk ps @ Chunk (d @ [10]) # cs) buf pos =
      pipe_loop (map Chunk ps @ Chunk (d @ [10]) # cs) buf1 (pos + length c)" "length buf1 = 3072"
      "take (pos + length c) buf1 = take pos buf @ c"
    by blast
  from Cons.IH [of "pos + length c" buf1] Cons.prems b show ?case by auto
qed

lemma pipe_loop_lines:
  assumes "list_all line_ok gs" and "length buf = 3072"
  shows "pipe_loop (concat (map line_reads gs)) buf 0 = map line_of gs"
  using assms
proof (induction gs arbitrary: buf)
  case Nil
  then show ?case by (subst pipe_loop.simps) (simp add: last_line_def)
next
  case (Cons g gs)
  then have g: "list_all (\<lambda>c. c \<noteq> []) (fst g)" "10 \<notin> set (concat (fst g) @ snd g)"
    "0 + length (concat (fst g) @ snd g) < 1024"
    by (auto simp: line_ok_def line_of_def)
  from pipe_loop_line [OF g Cons.prems(2), of "concat (map line_reads gs)"]
  obtain buf' where "pipe_loop (map Chunk (fst g) @ Chunk (snd g @ [10]) # concat (map line_reads gs)) buf 0 =
      (take 0 buf @ concat (fst g) @ snd g) # pipe_loop (concat (map line_reads gs)) buf' 0" "length buf' = 3072"
    by blast
  with Cons show ?case by (simp add: line_reads_def [of g] line_of_def [of g])
qed

lemma write_lines_wire:
  assumes "(write_lines env bitcode log_type ls tr :: ('e, unit) res \<times> gevent list) = (Ok u, tr')"
  shows "\<exists>logs. wire f tr' = wire f tr @ concat (map (\<lambda>l. frame_of bitcode (Log l)) logs) \<and>
    list_all2 (\<lambda>bs l. log_text l = text_of (from_utf8_lossy bs) \<and> message_type l = log_type) ls logs"
  using assms
proof (induction ls arbitrary: tr)
  case (Cons bs ls)
  obtain clock tr1 where c: "read_clock env tr = (clock, tr1)" by (metis surj_pair)
  let ?l = "LogMessage_new clock (text_of (from_utf8_lossy bs)) log_type"
  obtain tr2 tr3 where w: "write_without_flush env bitcode (Log ?l) tr1 = (Ok (), tr2)"
    and f: "flush_stream env tr2 = (Ok (), tr3)" 
    and r: "(write_lines env bitcode log_type ls tr3 :: ('e, unit) res \<times> gevent list) = (Ok u, tr')"
    using Cons.prems by (auto simp: c write_packet_def res_simps)
  from Cons.IH [OF r] obtain logs where "wire f tr' = wire f tr3 @ concat (map (\<lambda>l. frame_of bitcode (Log l)) logs)"
    "list_all2 (\<lambda>bs l. log_text l = text_of (from_utf8_lossy bs) \<and> message_type l = log_type) ls logs" by blast
  then show ?case
    using read_clock_wire [OF c, of f] write_without_flush_wire [OF w, of f] flush_stream_wire [OF f, of f]
    by (intro exI [of _ "?l # logs"]) (simp add: LogMessage_new_def)
qed simp

lemma pipe_lines_whole: "list_all line_ok gs \<Longrightarrow> pipe_lines (concat (map line_reads gs)) = map line_of gs"
  by (simp add: pipe_lines_def pipe_loop_lines BUFFER_SIZE_def)

section \<open>Properties\<close>

text \<open>
  C31. The log buffer is never indexed out of bounds: from a state within bounds, every read
  that fits behind the position leaves a buffer of the same size and a position inside it,
  for any data, with or without newlines. (So none of the slice operations panics.)
\<close>

theorem pipe_buffer_bounds:
  assumes "length buf = BUFFER_SIZE + 1024" and "pos \<le> BUFFER_SIZE" and "data \<noteq> []"
    and "pos + length data \<le> BUFFER_SIZE + 1024" and "pipe_feed buf pos data = (line, (buf', pos'))"
  shows "length buf' = BUFFER_SIZE + 1024 \<and> pos' < BUFFER_SIZE + 1024 \<and>
    (case line of Some l \<Rightarrow> length l < BUFFER_SIZE + 1024 | None \<Rightarrow> True)"
proof (cases "newline_index data")
  case None
  with assms show ?thesis
    by (auto simp: pipe_feed_def Let_def BUFFER_SIZE_def OVERFLOW_MARK_def split: if_splits)
next
  case (Some i)
  then have "i < length data" by (rule newline_index_less)
  with Some assms show ?thesis
    by (auto simp: pipe_feed_def Let_def BUFFER_SIZE_def split: if_splits)
qed

theorem pipe_buffer_bounds_witness:
  "\<exists>line buf' pos'. pipe_feed (replicate 3072 0) 2048 (replicate 1024 97) = (line, (buf', pos')) \<and>
     length buf' = 3072 \<and> pos' < 3072"
proof -
  obtain line buf' pos' where f: "pipe_feed (replicate 3072 0) 2048 (replicate 1024 97) = (line, (buf', pos'))"
    by (metis surj_pair)
  from pipe_buffer_bounds [OF _ _ _ _ f] f show ?thesis by (simp add: BUFFER_SIZE_def)
qed

text \<open>
  C30. A container that writes lines of fewer than 1024 bytes is logged line by line, however
  each line is split over the reads, as long as no read contains data of two lines: the pipe
  thread writes exactly one log packet of its type per line, in order, and nothing at the end
  of the pipe. The text of a packet is the lossy decoding of its line, so it is the line byte
  for byte if the line is valid UTF-8.
\<close>

theorem whole_lines_are_logged:
  assumes "list_all line_ok gs"
    and "spawn_pipe_to_log env bitcode log_type (concat (map line_reads gs)) tr = (Ok (), tr')"
  shows "\<exists>logs. wire (frame_of bitcode) tr' = wire (frame_of bitcode) tr @ frames bitcode (map Log logs) \<and>
    list_all2 (\<lambda>g l. message_type l = log_type \<and> log_text l = text_of (from_utf8_lossy (line_of g)) \<and>
      (is_utf8 (line_of g) \<longrightarrow> log_text l = text_of (line_of g))) gs logs"
proof -
  obtain logs where w: "wire (frame_of bitcode) tr' = wire (frame_of bitcode) tr @
      concat (map (\<lambda>l. frame_of bitcode (Log l)) logs)"
    and l: "list_all2 (\<lambda>bs l. log_text l = text_of (from_utf8_lossy bs) \<and> message_type l = log_type) (map line_of gs) logs"
    using write_lines_wire [OF assms(2) [unfolded spawn_pipe_to_log_def pipe_lines_whole [OF assms(1)]]] by blast
  from l have "list_all2 (\<lambda>g l. message_type l = log_type \<and> log_text l = text_of (from_utf8_lossy (line_of g)) \<and>
      (is_utf8 (line_of g) \<longrightarrow> log_text l = text_of (line_of g))) gs logs"
    unfolding list_all2_map1 by (rule list_all2_mono) (simp add: from_utf8_lossy_utf8)
  with w show ?thesis by (intro exI [of _ logs]) (simp add: comp_def)
qed

text \<open>A line in two reads, with an e acute, and a line that is no UTF-8.\<close>

theorem whole_lines_are_logged_witness:
  "\<exists>tr' l1 l2. spawn_pipe_to_log (\<lambda>_ _. GDone) (table_codec []) Stdout
       [Chunk [104], Chunk [0xC3, 0xA9, 10], Chunk [0xFF, 10]] [] = ((Ok (), tr') :: (unit, unit) res \<times> gevent list) \<and>
     wire (frame_of (table_codec [])) tr' = frames (table_codec []) [Log l1, Log l2] \<and>
     log_text l1 = text_of [104, 0xC3, 0xA9] \<and> log_text l2 = text_of [0xEF, 0xBF, 0xBD] \<and> message_type l2 = Stdout"
proof -
  let ?gs = "[([[104]], [0xC3, 0xA9]), ([], [0xFF])] :: (byte list list \<times> byte list) list"
  have ok: "list_all line_ok ?gs" by (simp add: line_ok_def line_of_def)
  have reads: "concat (map line_reads ?gs) = [Chunk [104], Chunk [0xC3, 0xA9, 10], Chunk [0xFF, 10]]"
    by (simp add: line_reads_def)
  have "is_utf8 [104, 0xC3, 0xA9]"
    unfolding is_utf8_def by (rule exI [of _ "[104, 0xE9]"]) (simp add: scalar_value_def utf8_encode_def)
  moreover have "from_utf8_lossy [0xFF] = [0xEF, 0xBF, 0xBD]" by code_simp
  moreover obtain tr' where r: "spawn_pipe_to_log (\<lambda>_ _. GDone) (table_codec []) Stdout
      (concat (map line_reads ?gs)) [] = ((Ok (), tr') :: (unit, unit) res \<times> gevent list)"
    unfolding spawn_pipe_to_log_def pipe_lines_whole [OF ok]
    by (simp add: write_packet_def write_without_flush_def flush_stream_def read_clock_def gperform_def gio_def or_panic_def
        Let_def)
  moreover from whole_lines_are_logged [OF ok r] obtain l1 l2 where
    "wire (frame_of (table_codec [])) tr' = frames (table_codec []) [Log l1, Log l2]"
    "is_utf8 [104, 0xC3, 0xA9] \<longrightarrow> log_text l1 = text_of [104, 0xC3, 0xA9]"
    "log_text l2 = text_of (from_utf8_lossy [0xFF])" "message_type l2 = Stdout"
    by (auto simp: list_all2_Cons1 line_of_def)
  ultimately show ?thesis unfolding reads by metis
qed

text \<open>
  C32. When one read delivers a line and the beginning of the next, the rest is moved to the
  front of the buffer one byte short: \<open>copy_within(index + 1..index + next_line_buffered, 0)\<close>
  leaves out its last byte, but the position counts it. In its place stands whatever the
  buffer held there, so the next logged line is damaged.
\<close>

theorem next_line_loses_last_byte:
  assumes "length buf = BUFFER_SIZE + 1024" and "10 \<notin> set l" and "rest \<noteq> []"
    and "length l + 1 + length rest \<le> BUFFER_SIZE + 1024"
    and "pipe_feed buf 0 (l @ 10 # rest) = (line, (buf', pos'))"
  shows "line = Some l \<and> pos' = length rest \<and>
    take pos' buf' = butlast rest @ [overwrite buf 0 (l @ 10 # rest) ! (length rest - 1)]"
proof -
  let ?b = "overwrite buf 0 (l @ 10 # rest)"
  have len: "length ?b = BUFFER_SIZE + 1024" using assms(1,4) by (simp add: BUFFER_SIZE_def)
  have b: "?b = l @ 10 # rest @ drop (length l + 1 + length rest) buf" by (simp add: overwrite_def)
  have "take (length rest - 1) (drop (length l + 1) ?b) = butlast rest"
    unfolding b by (simp add: butlast_conv_take)
  then have f: "line = Some l" "pos' = length rest" "buf' = overwrite ?b 0 (butlast rest)"
    using assms(5) assms(3) newline_index_append [OF assms(2), of rest]
    by (simp_all add: pipe_feed_def Let_def) (simp_all add: b)
  have "take (length rest) buf' = butlast rest @ take 1 (drop (length rest - 1) ?b)"
    using assms(3) by (cases rest) (simp_all add: f(3) overwrite_def take_Cons' )
  also have "take 1 (drop (length rest - 1) ?b) = [?b ! (length rest - 1)]"
    using assms(3,4) len by (simp add: take_Suc_conv_app_nth hd_drop_conv_nth take_Suc)
  finally show ?thesis using f by simp
qed

theorem next_line_loses_last_byte_witness:
  "\<exists>line buf'. pipe_feed (replicate 3072 0) 0 ([97] @ 10 # [98, 99]) = (line, (buf', 2)) \<and>
     line = Some [97] \<and> take 2 buf' = [98, 10]"
proof -
  obtain line buf' pos' where f: "pipe_feed (replicate 3072 0) 0 ([97] @ 10 # [98, 99]) = (line, (buf', pos'))"
    by (metis surj_pair)
  have "overwrite (replicate 3072 0) 0 ([97] @ 10 # [98, 99]) ! 1 = 10" by (simp add: overwrite_def)
  then have "line = Some [97] \<and> pos' = 2 \<and> take pos' buf' = [98, 10]"
    using next_line_loses_last_byte [OF _ _ _ _ f] by (auto simp: BUFFER_SIZE_def)
  then show ?thesis using f by blast
qed

end
