(* ===== verification/Guest_Main.thy ===== *)
theory Guest_Main
  imports Guest_Pool Guest_Pipe
begin

text \<open>
  \<open>instance/src/main.rs\<close>: the guest's init program from its start to the restart of the
  machine. The main thread is \<open>guest_main\<close>; what the other threads do is folded into the
  points where the main thread waits for them. The thread that reads packets of the host and
  the thread that waits for the container report through a channel, read by \<open>recv_exit\<close>; the
  log lines written in the meantime, by these two and by the two pipe threads, are part of
  the answers to \<open>RecvExit\<close> and \<open>JoinPipe\<close>, or to \<open>WaitThread\<close> if they come after the exit
  packet. A panic in any thread ends in the panic hook,
  which restarts the machine (\<open>guest_process\<close>).
\<close>

section \<open>Data\<close>

text \<open>The struct \<open>Config\<close> inside \<open>main\<close>; the node manager has one of the same name and fields.\<close>

record GuestConfig =
  guest_image :: string
  guest_cmd_args :: "string list option"
  guest_env :: "(string, string) btree option"
  guest_vsock_port :: u32

text \<open>
  Parameters from packages: the parsers of the metadata document and of image references,
  and the version that \<open>cargo\<close> compiles in.
\<close>

record main_lib =
  parse_container_config :: "byte list \<Rightarrow> GuestConfig option"
  parse_reference :: "string \<Rightarrow> string + Reference"
  pkg_version :: string

text \<open>\<open>{:?}\<close> of an error.\<close>

fun RegistryErrors_debug :: "RegistryErrors \<Rightarrow> string" where
  "RegistryErrors_debug NetworkError = ''NetworkError''"
| "RegistryErrors_debug RegistryResponseError = ''RegistryResponseError''"
| "RegistryErrors_debug NoCompatibleImageAvailable = ''NoCompatibleImageAvailable''"
| "RegistryErrors_debug UnsupportedRegistryImageFormat = ''UnsupportedRegistryImageFormat''"
| "RegistryErrors_debug UnableToParseImageIndex = ''UnableToParseImageIndex''"
| "RegistryErrors_debug UnableToParseImageManifest = ''UnableToParseImageManifest''"
| "RegistryErrors_debug UnableToParseImageConfiguration = ''UnableToParseImageConfiguration''"
| "RegistryErrors_debug UnableToConstructRuntimeConfig = ''UnableToConstructRuntimeConfig''"
| "RegistryErrors_debug AuthenticationError = ''AuthenticationError''"
| "RegistryErrors_debug IOErr = ''IOErr''"
| "RegistryErrors_debug ExtractIOError = ''ExtractIOError''"

section \<open>The other threads\<close>

text \<open>
  The reader thread: the exit codes it sends for the bytes the host delivers; the first packet
  it cannot read ends it with a panic.
\<close>

fun packet_exit :: "HostPacket \<Rightarrow> GuestExitCode" where
  "packet_exit Shutdown = GracefulShutdown"

function reader_thread :: "HostPacket codec \<Rightarrow> byte list \<Rightarrow> GuestExitCode list" where
  "reader_thread bitcode inp =
     (case read_packet bitcode inp of
        Ok (packet, rest) \<Rightarrow> packet_exit packet # reader_thread bitcode rest
      | _ \<Rightarrow> [])"
  by pat_completeness auto

termination reader_thread
proof (relation "measure (length \<circ> snd)")
  show "((bitcode, rest), (bitcode, inp)) \<in> measure (length \<circ> snd)"
    if "read_packet bitcode inp = Ok x" "(packet, rest) = x" for bitcode :: "HostPacket codec" and inp x packet rest
    using next_host_packet_shrinks [of bitcode inp packet rest] that by (simp add: next_host_packet_def)
qed simp

declare reader_thread.simps [simp del]

text \<open>The thread that waits for the container: it logs the exit code and reports it.\<close>

definition container_code :: "i32 option \<Rightarrow> GuestExitCode" where
  "container_code code = ContainerExited (case code of Some c \<Rightarrow> c | None \<Rightarrow> 9999)"

definition wait_thread ::
  "genv \<Rightarrow> GuestPacket codec \<Rightarrow> i32 option \<Rightarrow> gevent list \<Rightarrow> ('e, GuestExitCode) res \<times> gevent list" where
  "wait_thread env bitcode code tr =
     then_try (log_system_message env bitcode
         (''Container exited with code: '' @ (case code of Some c \<Rightarrow> i32_string c | None \<Rightarrow> ''unknown'')) tr) (\<lambda>_ tr.
       (Ok (container_code code), tr))"

definition recv_exit :: "genv \<Rightarrow> GuestPacket codec \<Rightarrow> gevent list \<Rightarrow> ('e, GuestExitCode) res \<times> gevent list" where
  "recv_exit env bitcode tr =
     (case gperform env RecvExit tr of
        (GExit (HostSent packet) _, tr) \<Rightarrow> (Ok (packet_exit packet), tr)
      | (GExit (ContainerDone code) _, tr) \<Rightarrow> wait_thread env bitcode code tr
      | (_, tr) \<Rightarrow> (Panic, tr))"

definition join_pipe :: "genv \<Rightarrow> gevent list \<Rightarrow> ('e, unit) res \<times> gevent list" where
  "join_pipe env tr = (case gperform env JoinPipe tr of (GLogs _, tr) \<Rightarrow> (Ok (), tr) | (_, tr) \<Rightarrow> (Panic, tr))"

section \<open>The main thread\<close>

definition shutdown_guest :: "genv \<Rightarrow> gevent list \<Rightarrow> gevent list" where
  "shutdown_guest env tr = snd (gperform env Reboot (snd (gperform env Sync tr)))"

definition fail_pull ::
  "genv \<Rightarrow> GuestPacket codec \<Rightarrow> string \<Rightarrow> gevent list \<Rightarrow> ('e, unit) res \<times> gevent list" where
  "fail_pull env bitcode message tr =
     then_try (send_exit env bitcode FailedToPullContainerImage (Some message) tr) (\<lambda>_ tr.
       (Ok (), shutdown_guest env tr))"

definition stop_container ::
  "genv \<Rightarrow> GuestPacket codec \<Rightarrow> GuestExitCode \<Rightarrow> gevent list \<Rightarrow> ('e, GuestExitCode) res \<times> gevent list" where
  "stop_container env bitcode res tr =
     (if res = GracefulShutdown then
        then_try (log_system_message env bitcode ''Received graceful shutdown command... Stopping container.'' tr) (\<lambda>_ tr.
          (case gperform env KillContainer tr of (_, tr) \<Rightarrow> recv_exit env bitcode tr))
      else (Ok res, tr))"

text \<open>
  The main thread does not wait for the thread that waits for the container. After a second
  shutdown command this thread may still be running, and write its line after the exit packet.
\<close>

definition run_container :: "genv \<Rightarrow> GuestPacket codec \<Rightarrow> gevent list \<Rightarrow> ('e, unit) res \<times> gevent list" where
  "run_container env bitcode tr =
     then_try (state_change env bitcode ExecutingContainer None tr) (\<lambda>_ tr.
     then_try (or_panic (gio env () SpawnContainer tr)) (\<lambda>_ tr.
     then_try (recv_exit env bitcode tr) (\<lambda>res tr.
     then_try (stop_container env bitcode res tr) (\<lambda>res tr.
     then_try (join_pipe env tr) (\<lambda>_ tr.
     then_try (join_pipe env tr) (\<lambda>_ tr.
     then_try (send_exit env bitcode res None tr) (\<lambda>_ tr.
       (Ok (), shutdown_guest env
          (if res = GracefulShutdown then snd (gperform env WaitThread tr) else tr)))))))))"

definition fetch_config ::
  "main_lib \<Rightarrow> genv \<Rightarrow> gevent list \<Rightarrow> ('e, GuestConfig) res \<times> gevent list" where
  "fetch_config main env tr =
     then_try (or_panic (mmds_connect env tr)) (\<lambda>mmds tr.
       map_prod id snd (or_panic (mmds_get env (parse_container_config main) ''/latest/container'' (mmds, tr))))"

definition runtime_overrides :: "GuestConfig \<Rightarrow> RuntimeOverrides" where
  "runtime_overrides config =
     \<lparr>additional_args = guest_cmd_args config, additional_env = guest_env config, terminal = False\<rparr>"

definition run_image ::
  "('json, 'spec) image_lib \<Rightarrow> main_lib \<Rightarrow> genv \<Rightarrow> GuestPacket codec \<Rightarrow> nat list \<Rightarrow> GuestConfig \<Rightarrow> gevent list
     \<Rightarrow> ('e, unit) res \<times> gevent list" where
  "run_image lib main env bitcode schedule config tr =
     (case parse_reference main (guest_image config) of
        Inl e \<Rightarrow> fail_pull env bitcode (''Failed to parse container image reference: '' @ e) tr
      | Inr reference \<Rightarrow>
          (case pull_and_prepare_image lib env bitcode schedule reference (runtime_overrides config) tr of
             (Err r, tr) \<Rightarrow>
               fail_pull env bitcode
                 (''Unable to pull and extract container image: '' @ RegistryErrors_debug r) tr
           | (Panic, tr) \<Rightarrow> (Panic, tr)
           | (Ok _, tr) \<Rightarrow> run_container env bitcode tr))"

definition guest_main ::
  "('json, 'spec) image_lib \<Rightarrow> main_lib \<Rightarrow> genv \<Rightarrow> GuestPacket codec \<Rightarrow> nat list \<Rightarrow> gevent list
     \<Rightarrow> (unit, unit) res \<times> gevent list" where
  "guest_main lib main env bitcode schedule tr =
     (case gperform env GetPid tr of
        (GFlag True, tr) \<Rightarrow>
          then_try (guest_init env tr) (\<lambda>_ tr.
          then_try (fetch_config main env tr) (\<lambda>config tr.
          then_try (or_panic (HostCommunication_new env (guest_vsock_port config) tr)) (\<lambda>_ tr.
          then_try (state_change env bitcode Online (Some (''Instance v. '' @ pkg_version main)) tr) (\<lambda>_ tr.
          then_try (or_panic (clone_stream env tr)) (\<lambda>_ tr.
          run_image lib main env bitcode schedule config tr)))))
      | (_, tr) \<Rightarrow> (Panic, tr))"

definition guest_process ::
  "('json, 'spec) image_lib \<Rightarrow> main_lib \<Rightarrow> genv \<Rightarrow> GuestPacket codec \<Rightarrow> nat list \<Rightarrow> gevent list" where
  "guest_process lib main env bitcode schedule =
     (case guest_main lib main env bitcode schedule [] of
        (Panic, tr) \<Rightarrow> shutdown_guest env tr
      | (_, tr) \<Rightarrow> tr)"

section \<open>What the main thread puts on the wire\<close>

lemma shutdown_guest_eq:
  "\<exists>r1 r2. shutdown_guest env tr = tr @ [(Sync, r1), (Reboot, r2)]"
  by (simp add: shutdown_guest_def gperform_def)

lemma shutdown_guest_wire [simp]: "wire f (shutdown_guest env tr) = wire f tr"
  using shutdown_guest_eq [of env tr] by auto

lemma wait_thread_logs: "logs_to bitcode tr (wait_thread env bitcode code tr)"
  unfolding wait_thread_def by (intro logs_to_then_try log_system_message_logs logs_to_pure)

lemma recv_exit_logs: "logs_to bitcode tr (recv_exit env bitcode tr)"
proof (cases "env tr RecvExit")
  case (GExit s logs)
  let ?tr = "tr @ [(RecvExit, GExit s logs)]"
  have w: "wire (frame_of bitcode) ?tr = wire (frame_of bitcode) tr @ frames bitcode (map Log logs)"
    by (simp add: comp_def)
  show ?thesis
    by (rule logs_to_after [OF w], cases s)
      (auto simp: recv_exit_def gperform_def GExit wait_thread_logs)
qed (simp_all add: recv_exit_def gperform_def logs_to_def)

lemma join_pipe_logs: "logs_to bitcode tr (join_pipe env tr)"
proof (cases "env tr JoinPipe")
  case (GLogs logs)
  then show ?thesis by (auto simp: join_pipe_def gperform_def logs_to_def comp_def)
qed (simp_all add: join_pipe_def gperform_def logs_to_def)

lemma wait_thread_wire:
  "\<exists>logs. wire (frame_of bitcode) (snd (gperform env WaitThread tr)) =
     wire (frame_of bitcode) tr @ frames bitcode (map Log logs)"
proof (cases "env tr WaitThread")
  case (GLogs logs)
  then show ?thesis by (intro exI [of _ logs]) (simp add: gperform_def comp_def)
qed (auto simp: gperform_def intro: exI [of _ "[]"])

section \<open>What the main thread waits for\<close>

text \<open>
  What the main thread was told while it waited, and when it killed the container, in the
  order of the history.
\<close>

datatype exit_note = Told exit_source | Killed

fun note_event :: "gevent \<Rightarrow> exit_note list" where
  "note_event (c, r) =
     (case c of
        RecvExit \<Rightarrow> (case r of GExit s _ \<Rightarrow> [Told s] | _ \<Rightarrow> [])
      | KillContainer \<Rightarrow> [Killed]
      | _ \<Rightarrow> [])"

definition exit_notes :: "gevent list \<Rightarrow> exit_note list" where
  "exit_notes tr = concat (map note_event tr)"

lemma exit_notes_append [simp]: "exit_notes (a @ b) = exit_notes a @ exit_notes b"
  by (simp add: exit_notes_def)

lemma exit_notes_simps [simp]: "exit_notes [] = []" "exit_notes (e # tr) = note_event e @ exit_notes tr"
  by (simp_all add: exit_notes_def)

fun noted :: "guest_call \<Rightarrow> bool" where
  "noted RecvExit = True"
| "noted KillContainer = True"
| "noted _ = False"

lemma note_event_other: "\<not> noted (fst e) \<Longrightarrow> note_event e = []"
  by (cases e; cases "fst e") auto

lemma exit_notes_keep:
  assumes "gextends_by (\<lambda>c. \<not> noted c) tr tr'"
  shows "exit_notes tr' = exit_notes tr"
proof -
  obtain evs where "tr' = tr @ evs" "list_all (\<lambda>e. \<not> noted (fst e)) evs"
    using assms by (auto simp: gextends_by_def)
  then show ?thesis by (auto simp: exit_notes_def list_all_iff note_event_other)
qed

text \<open>A writer that returned: it notes nothing, and the history grew.\<close>

lemma comm_not_noted: "comm_call c \<Longrightarrow> \<not> noted c"
  by (cases c) simp_all

lemma comm_Ok:
  assumes "m = (Ok a, tr')" and "gextends_by comm_call tr (snd m)"
  shows "exit_notes tr' = exit_notes tr" and "prefix tr tr'"
proof -
  have "gextends_by (\<lambda>c. \<not> noted c) tr tr'" using assms by (auto elim: gextends_mono simp: comm_not_noted)
  then show "exit_notes tr' = exit_notes tr" by (rule exit_notes_keep)
  show "prefix tr tr'" using assms by (auto simp: gextends_by_def)
qed

fun source_code :: "exit_source \<Rightarrow> GuestExitCode option" where
  "source_code (HostSent packet) = Some (packet_exit packet)"
| "source_code (ContainerDone code) = Some (container_code code)"
| "source_code HostClosed = None"

lemma recv_exit_Ok:
  assumes "recv_exit env bitcode tr = (Ok code, tr')"
  shows "\<exists>s. exit_notes tr' = exit_notes tr @ [Told s] \<and> source_code s = Some code \<and> prefix tr tr'"
proof -
  obtain s logs where e: "env tr RecvExit = GExit s logs"
    using assms by (cases "env tr RecvExit") (simp_all add: recv_exit_def gperform_def)
  show ?thesis
  proof (cases s)
    case (HostSent p)
    with assms show ?thesis by (auto simp: recv_exit_def gperform_def e)
  next
    case (ContainerDone c)
    then obtain u where w: "log_system_message env bitcode (''Container exited with code: '' @
        (case c of Some c \<Rightarrow> i32_string c | None \<Rightarrow> ''unknown'')) (tr @ [(RecvExit, GExit s logs)]) =
        ((Ok u, tr') :: ('a, unit) res \<times> gevent list)" and "code = container_code c"
      using assms by (auto simp: recv_exit_def gperform_def e wait_thread_def res_simps)
    with comm_Ok [OF w log_system_message_calls] ContainerDone show ?thesis by (auto dest: append_prefixD)
  qed (use assms in \<open>simp add: recv_exit_def gperform_def e\<close>)
qed

text \<open>
  The exit code the guest reports for what it was told, in order: the container's, if the
  container ended by itself or was killed after a shutdown command; only a second shutdown
  command makes it report a graceful shutdown.
\<close>

fun exit_of :: "exit_note list \<Rightarrow> GuestExitCode option" where
  "exit_of [Told (ContainerDone code)] = Some (ContainerExited (case code of Some c \<Rightarrow> c | None \<Rightarrow> 9999))"
| "exit_of [Told (HostSent Shutdown), Killed, Told (ContainerDone code)] =
     Some (ContainerExited (case code of Some c \<Rightarrow> c | None \<Rightarrow> 9999))"
| "exit_of [Told (HostSent Shutdown), Killed, Told (HostSent Shutdown)] = Some GracefulShutdown"
| "exit_of _ = None"

lemma stop_container_logs: "logs_to bitcode tr (stop_container env bitcode res tr)"
proof -
  have "logs_to bitcode tr (recv_exit env bitcode (tr @ [(KillContainer, env tr KillContainer)]))" for tr
    by (rule logs_to_after [OF _ recv_exit_logs, of _ _ _ "[]"]) simp
  then show ?thesis
    unfolding stop_container_def gperform_def prod.case
    by (auto intro!: logs_to_then_try log_system_message_logs)
qed

lemma source_graceful: "source_code s = Some GracefulShutdown \<Longrightarrow> s = HostSent Shutdown"
  by (cases s; cases "case s of HostSent p \<Rightarrow> p | _ \<Rightarrow> Shutdown") (auto simp: container_code_def)

lemma source_other: "source_code s = Some code \<Longrightarrow> code \<noteq> GracefulShutdown \<Longrightarrow> \<exists>c. s = ContainerDone c"
  by (cases s; cases "case s of HostSent p \<Rightarrow> p | _ \<Rightarrow> Shutdown") auto

lemma stop_container_Ok:
  assumes "stop_container env bitcode res tr = (Ok code, tr')" and "source_code s = Some res"
  shows "\<exists>ns. exit_notes tr' = exit_notes tr @ ns \<and> exit_of (Told s # ns) = Some code \<and> prefix tr tr'"
proof (cases "res = GracefulShutdown")
  case True
  then have s: "s = HostSent Shutdown" using assms(2) source_graceful by simp
  obtain u tr1 where l: "log_system_message env bitcode ''Received graceful shutdown command... Stopping container.'' tr
      = ((Ok u, tr1) :: ('a, unit) res \<times> gevent list)"
    and r: "recv_exit env bitcode (tr1 @ [(KillContainer, env tr1 KillContainer)]) = ((Ok code, tr') :: ('a, _) res \<times> _)"
    using assms(1) True by (auto simp: stop_container_def gperform_def then_try_Ok_iff)
  from recv_exit_Ok [OF r] comm_Ok [OF l log_system_message_calls] obtain s' where
    "exit_notes tr' = exit_notes tr @ [Killed, Told s']" "source_code s' = Some code" "prefix tr tr'"
    by (auto dest: append_prefixD intro: prefix_order.trans)
  moreover from this(2) have "exit_of [Told s, Killed, Told s'] = Some code"
    unfolding s by (cases s'; cases "case s' of HostSent p \<Rightarrow> p | _ \<Rightarrow> Shutdown") (auto simp: container_code_def)
  ultimately show ?thesis by auto
next
  case False
  then obtain c where "s = ContainerDone c" using assms(2) source_other by blast
  with False assms show ?thesis by (auto simp: stop_container_def container_code_def)
qed

lemma join_pipe_Ok:
  "join_pipe env tr = (Ok u, tr') \<Longrightarrow> exit_notes tr' = exit_notes tr \<and> prefix tr tr'"
  by (cases "env tr JoinPipe") (auto simp: join_pipe_def gperform_def)

lemma logs_to_Ok:
  "logs_to bitcode tr m \<Longrightarrow> m = (Ok a, tr') \<Longrightarrow>
     \<exists>logs. wire (frame_of bitcode) tr' = wire (frame_of bitcode) tr @ frames bitcode (map Log logs)"
  by (simp add: logs_to_def)

section \<open>The run of a container\<close>

text \<open>The stages of a run that ends by itself.\<close>

lemma run_container_stages:
  assumes "(run_container env bitcode tr :: ('e, unit) res \<times> gevent list) = (Ok (), tr')"
  obtains tr1 res tr3 code tr4 tr5 tr6 tr7 where
    "(state_change env bitcode ExecutingContainer None tr :: ('e, unit) res \<times> gevent list) = (Ok (), tr1)"
    "(recv_exit env bitcode (tr1 @ [(SpawnContainer, GDone)]) :: ('e, _) res \<times> _) = (Ok res, tr3)"
    "(stop_container env bitcode res tr3 :: ('e, _) res \<times> _) = (Ok code, tr4)"
    "(join_pipe env tr4 :: ('e, unit) res \<times> _) = (Ok (), tr5)"
    "(join_pipe env tr5 :: ('e, unit) res \<times> _) = (Ok (), tr6)"
    "(send_exit env bitcode code None tr6 :: ('e, unit) res \<times> _) = (Ok (), tr7)"
    "tr' = shutdown_guest env (if code = GracefulShutdown then snd (gperform env WaitThread tr7) else tr7)"
  using assms unfolding run_container_def by (auto simp: res_simps)

lemma run_container_wire:
  assumes s: "(state_change env bitcode ExecutingContainer None tr :: ('e, unit) res \<times> gevent list) = (Ok (), tr1)"
    and r: "(recv_exit env bitcode (tr1 @ [(SpawnContainer, GDone)]) :: ('e, _) res \<times> _) = (Ok res, tr3)"
    and k: "(stop_container env bitcode res tr3 :: ('e, _) res \<times> _) = (Ok code, tr4)"
    and j: "(join_pipe env tr4 :: ('e, unit) res \<times> _) = (Ok (), tr5)"
      "(join_pipe env tr5 :: ('e, unit) res \<times> _) = (Ok (), tr6)"
    and e: "(send_exit env bitcode code None tr6 :: ('e, unit) res \<times> _) = (Ok (), tr7)"
  shows "\<exists>t logs. wire (frame_of bitcode) tr7 = wire (frame_of bitcode) tr @
      frames bitcode (VmState (ExecutingContainer, t) # map Log logs @ [Exited code])"
proof -
  obtain t where "wire (frame_of bitcode) tr1 = wire (frame_of bitcode) tr @ frame_of bitcode (VmState (ExecutingContainer, t))"
    using state_change_wire [OF s, of "frame_of bitcode"] by auto
  moreover obtain l1 l2 l3 l4 where
    "wire (frame_of bitcode) tr3 = wire (frame_of bitcode) (tr1 @ [(SpawnContainer, GDone)]) @ frames bitcode (map Log l1)"
    "wire (frame_of bitcode) tr4 = wire (frame_of bitcode) tr3 @ frames bitcode (map Log l2)"
    "wire (frame_of bitcode) tr5 = wire (frame_of bitcode) tr4 @ frames bitcode (map Log l3)"
    "wire (frame_of bitcode) tr6 = wire (frame_of bitcode) tr5 @ frames bitcode (map Log l4)"
    using logs_to_Ok [OF recv_exit_logs r] logs_to_Ok [OF stop_container_logs k] logs_to_Ok [OF join_pipe_logs j(1)]
      logs_to_Ok [OF join_pipe_logs j(2)] by blast
  moreover have "wire (frame_of bitcode) tr7 = wire (frame_of bitcode) tr6 @ frame_of bitcode (Exited code)"
    using send_exit_wire [OF e, of "frame_of bitcode"] by auto
  ultimately show ?thesis by (intro exI [of _ t] exI [of _ "l1 @ l2 @ l3 @ l4"]) simp
qed

lemma run_container_notes:
  assumes s: "(state_change env bitcode ExecutingContainer None tr :: ('e, unit) res \<times> gevent list) = (Ok (), tr1)"
    and r: "(recv_exit env bitcode (tr1 @ [(SpawnContainer, GDone)]) :: ('e, _) res \<times> _) = (Ok res, tr3)"
    and k: "(stop_container env bitcode res tr3 :: ('e, _) res \<times> _) = (Ok code, tr4)"
    and j: "(join_pipe env tr4 :: ('e, unit) res \<times> _) = (Ok (), tr5)"
      "(join_pipe env tr5 :: ('e, unit) res \<times> _) = (Ok (), tr6)"
    and e: "(send_exit env bitcode code None tr6 :: ('e, unit) res \<times> _) = (Ok (), tr7)"
  shows "\<exists>ns. exit_notes tr7 = exit_notes tr @ ns \<and> exit_of ns = Some code"
    and "\<exists>rest. tr7 = tr @ rest \<and> (SpawnContainer, GDone) \<in> set rest"
proof -
  obtain source where so: "exit_notes tr3 = exit_notes (tr1 @ [(SpawnContainer, GDone)]) @ [Told source]"
    "source_code source = Some res" "prefix (tr1 @ [(SpawnContainer, GDone)]) tr3"
    using recv_exit_Ok [OF r] by blast
  obtain ns where ns: "exit_notes tr4 = exit_notes tr3 @ ns" "exit_of (Told source # ns) = Some code" "prefix tr3 tr4"
    using stop_container_Ok [OF k so(2)] by blast
  show "\<exists>ns. exit_notes tr7 = exit_notes tr @ ns \<and> exit_of ns = Some code"
    using comm_Ok(1) [OF s state_change_calls] so(1) ns(1,2) join_pipe_Ok [OF j(1)] join_pipe_Ok [OF j(2)]
      comm_Ok(1) [OF e send_exit_calls] by (intro exI [of _ "Told source # ns"]) simp
  have "prefix (tr1 @ [(SpawnContainer, GDone)]) tr7"
    using so(3) ns(3) join_pipe_Ok [OF j(1)] join_pipe_Ok [OF j(2)] comm_Ok(2) [OF e send_exit_calls]
    by (meson prefix_order.trans)
  with comm_Ok(2) [OF s state_change_calls] show "\<exists>rest. tr7 = tr @ rest \<and> (SpawnContainer, GDone) \<in> set rest"
    by (auto simp: prefix_def)
qed

lemma run_container_outcome:
  assumes "run_container env bitcode tr = (Ok (), tr')"
  shows "\<exists>t logs ns code late tr1 r1 r2.
    wire (frame_of bitcode) tr' = wire (frame_of bitcode) tr @
      frames bitcode (VmState (ExecutingContainer, t) # map Log logs @ Exited code # map Log late) \<and>
    (late \<noteq> [] \<longrightarrow> code = GracefulShutdown) \<and>
    exit_notes tr' = exit_notes tr @ ns \<and> exit_of ns = Some code \<and>
    tr' = tr @ tr1 @ [(Sync, r1), (Reboot, r2)] \<and> (SpawnContainer, GDone) \<in> set tr1"
  using assms
proof (rule run_container_stages)
  fix tr1 res tr3 code tr4 tr5 tr6 tr7
  assume stages: "(state_change env bitcode ExecutingContainer None tr :: ('a, unit) res \<times> gevent list) = (Ok (), tr1)"
    "(recv_exit env bitcode (tr1 @ [(SpawnContainer, GDone)]) :: ('a, _) res \<times> _) = (Ok res, tr3)"
    "(stop_container env bitcode res tr3 :: ('a, _) res \<times> _) = (Ok code, tr4)"
    "(join_pipe env tr4 :: ('a, unit) res \<times> _) = (Ok (), tr5)"
    "(join_pipe env tr5 :: ('a, unit) res \<times> _) = (Ok (), tr6)"
    "(send_exit env bitcode code None tr6 :: ('a, unit) res \<times> _) = (Ok (), tr7)"
    and tr': "tr' = shutdown_guest env (if code = GracefulShutdown then snd (gperform env WaitThread tr7) else tr7)"
  let ?tr8 = "if code = GracefulShutdown then snd (gperform env WaitThread tr7) else tr7"
  obtain late where late: "wire (frame_of bitcode) ?tr8 = wire (frame_of bitcode) tr7 @ frames bitcode (map Log late)"
    "late \<noteq> [] \<longrightarrow> code = GracefulShutdown"
    using wait_thread_wire [of bitcode env tr7] by (cases "code = GracefulShutdown") auto
  obtain evs where evs: "?tr8 = tr7 @ evs" "exit_notes evs = []"
    by (cases "code = GracefulShutdown") (auto simp: gperform_def)
  obtain t logs where w: "wire (frame_of bitcode) tr7 = wire (frame_of bitcode) tr @
      frames bitcode (VmState (ExecutingContainer, t) # map Log logs @ [Exited code])"
    using run_container_wire [OF stages] by blast
  obtain ns rest where n: "exit_notes tr7 = exit_notes tr @ ns" "exit_of ns = Some code"
    "tr7 = tr @ rest" "(SpawnContainer, GDone) \<in> set rest"
    using run_container_notes [OF stages] by blast
  obtain r1 r2 where "tr' = ?tr8 @ [(Sync, r1), (Reboot, r2)]" using shutdown_guest_eq tr' by blast
  with late evs w n show ?thesis
    by (intro exI [of _ t] exI [of _ logs] exI [of _ ns] exI [of _ code] exI [of _ late] exI [of _ "rest @ evs"]
        exI [of _ r1] exI [of _ r2]) (simp add: evs(1) del: if_split_asm)
qed

section \<open>Before the container\<close>

abbreviation early :: "gevent list \<Rightarrow> gevent list \<Rightarrow> bool" where
  "early \<equiv> gextends_by (\<lambda>c. \<not> noted c \<and> c \<noteq> SpawnContainer)"

lemma early_sets_up: "sets_up tr tr' \<Longrightarrow> early tr tr' \<and> silent tr tr'"
proof -
  have "setup_call c \<Longrightarrow> \<not> noted c \<and> c \<noteq> SpawnContainer" "setup_call c \<Longrightarrow> \<not> writes_wire c" for c
    by (cases c; simp)+
  then show "sets_up tr tr' \<Longrightarrow> early tr tr' \<and> silent tr tr'" by (blast intro: gextends_mono)
qed

lemma early_comm: "gextends_by comm_call tr tr' \<Longrightarrow> early tr tr'"
  by (erule gextends_mono) (auto simp: comm_not_noted)

lemma early_pull: "gextends_by pull_call tr tr' \<Longrightarrow> early tr tr'"
proof (erule gextends_mono)
  show "pull_call c \<Longrightarrow> \<not> noted c \<and> c \<noteq> SpawnContainer" for c by (cases c) simp_all
qed

lemma early_history:
  assumes "early [] tr"
  shows "exit_notes tr = [] \<and> SpawnContainer \<notin> fst ` set tr"
proof -
  have "exit_notes tr = exit_notes []" using assms by (intro exit_notes_keep) (auto elim: gextends_mono)
  then show ?thesis using assms by (auto simp: gextends_by_def list_all_iff)
qed

lemma snd_map_prod_id [simp]: "snd (map_prod id f m) = f (snd m)"
  by (cases m) simp

lemma fetch_config_calls: "sets_up tr (snd (fetch_config main env tr))"
proof -
  have "sets_up s (snd (snd (mmds_get env js path (c, s))))" for js path c s
    using mmds_get_calls [of "(c, s)" env] by simp
  then show ?thesis
    unfolding fetch_config_def by (intro gextends_then_try) (simp_all add: mmds_connect_calls)
qed

text \<open>Up to the point where the host knows that the machine is online.\<close>

lemma guest_main_online:
  assumes "guest_main lib main env bitcode schedule [] = (Ok (), tr')"
  shows "\<exists>t0 config t1 t l tr. early [] tr \<and> (fetch_config main env t0 :: (unit, _) res \<times> _) = (Ok config, t1) \<and>
    prefix t1 tr \<and> wire (frame_of bitcode) tr = frames bitcode [VmState (Online, t), Log l] \<and>
    run_image lib main env bitcode schedule config tr = ((Ok (), tr') :: (unit, unit) res \<times> _)"
proof -
  let ?tr0 = "[(GetPid, GFlag True)]"
  have pid: "env [] GetPid = GFlag True"
    using assms unfolding guest_main_def gperform_def prod.case append_Nil
    by (cases "env [] GetPid") (simp_all split: bool.splits)
  obtain tr1 config tr2 tr3 tr4 tr5 where
    i: "(guest_init env ?tr0 :: (unit, unit) res \<times> _) = (Ok (), tr1)"
    and f: "(fetch_config main env tr1 :: (unit, _) res \<times> _) = (Ok config, tr2)"
    and h: "HostCommunication_new env (guest_vsock_port config) tr2 = (Ok (), tr3)"
    and s: "(state_change env bitcode Online (Some (''Instance v. '' @ pkg_version main)) tr3 :: (unit, unit) res \<times> _)
      = (Ok (), tr4)"
    and c: "clone_stream env tr4 = (Ok (), tr5)"
    and rest: "run_image lib main env bitcode schedule config tr5 = ((Ok (), tr') :: (unit, unit) res \<times> _)"
    using assms unfolding guest_main_def gperform_def pid prod.case guest_reply.case bool.case append_Nil
      then_try_Ok_iff or_panic_Ok by auto
  have e1: "sets_up ?tr0 tr1" "sets_up tr1 tr2"
    using guest_init_calls [of ?tr0 env, where ?'a = unit] fetch_config_calls [of tr1 main env, where ?'a = unit]
    unfolding i f snd_conv by simp_all
  have e2: "early tr2 tr3" "silent tr2 tr3" "early tr4 tr5" "silent tr4 tr5"
    using h c by (auto simp: HostCommunication_new_def clone_stream_def res_simps gextends_by_def)
  have e3: "early tr3 tr4"
    using early_comm [OF state_change_calls [of tr3 env bitcode Online "Some (''Instance v. '' @ pkg_version main)",
        where ?'a = unit]] unfolding s by simp
  note early_sets_up [OF e1(1)] early_sets_up [OF e1(2)]
  then have b: "early ?tr0 tr1" "early tr1 tr2" "silent ?tr0 tr1" "silent tr1 tr2" by simp_all
  have "early [] ?tr0" by (simp add: gextends_by_def)
  note gextends_trans [OF this b(1)]
  note gextends_trans [OF this b(2)]
  note gextends_trans [OF this e2(1)]
  note gextends_trans [OF this e3]
  note gextends_trans [OF this e2(3)]
  moreover have "wire (frame_of bitcode) tr3 = []"
    by (simp add: silent_wire [OF e2(2)] silent_wire [OF b(4)] silent_wire [OF b(3)])
  moreover obtain t l where "wire (frame_of bitcode) tr4 = wire (frame_of bitcode) tr3 @
      frames bitcode [VmState (Online, t), Log l]"
    using state_change_wire [OF s, of "frame_of bitcode"] by (auto simp: map_eq_Cons_conv)
  moreover have "prefix tr2 tr5"
    using gextends_trans [OF gextends_trans [OF e2(1) e3] e2(3)] by (auto simp: gextends_by_def)
  ultimately show ?thesis
    using rest f silent_wire [OF e2(4), of "frame_of bitcode"]
    by (intro exI [of _ tr1] exI [of _ config] exI [of _ tr2] exI [of _ t] exI [of _ l] exI [of _ tr5]) simp
qed

lemma fail_pull_Ok:
  assumes "fail_pull env bitcode m tr = (Ok u, tr')"
  shows "\<exists>l tr1 r1 r2. wire (frame_of bitcode) tr' = wire (frame_of bitcode) tr @
      frames bitcode [Exited FailedToPullContainerImage, Log l] \<and> log_text l = m \<and>
    tr' = tr1 @ [(Sync, r1), (Reboot, r2)] \<and> early tr tr'"
proof -
  obtain tr1 where s: "(send_exit env bitcode FailedToPullContainerImage (Some m) tr :: ('a, unit) res \<times> _) = (Ok (), tr1)"
    and tr': "tr' = shutdown_guest env tr1"
    using assms by (auto simp: fail_pull_def res_simps)
  obtain r1 r2 where e: "tr' = tr1 @ [(Sync, r1), (Reboot, r2)]" using shutdown_guest_eq tr' by metis
  have "early tr tr1" using early_comm [OF send_exit_calls] s by (metis snd_conv)
  then have "early tr tr'" by (auto simp: e gextends_by_def)
  moreover obtain l where "wire (frame_of bitcode) tr1 = wire (frame_of bitcode) tr @
      frames bitcode [Exited FailedToPullContainerImage, Log l]" "log_text l = m"
    using send_exit_wire [OF s, of "frame_of bitcode"] by (fastforce simp: map_eq_Cons_conv)
  ultimately show ?thesis using e by auto
qed

section \<open>The whole conversation\<close>

fun reported_state :: "GuestPacket \<Rightarrow> InitVmState list" where
  "reported_state (VmState (s, _)) = [s]"
| "reported_state _ = []"

abbreviation reported_states :: "GuestPacket list \<Rightarrow> InitVmState list" where
  "reported_states ps \<equiv> concat (map reported_state ps)"

lemma reported_states_logs [simp]: "reported_states (map Log logs) = []"
  by (induction logs) simp_all

text \<open>
  The protocol of the guest: the packets before the exit packet, the exit code, and what
  comes after it.
\<close>

definition follows_protocol ::
  "gevent list \<Rightarrow> GuestPacket list \<Rightarrow> GuestExitCode \<Rightarrow> LogMessage list \<Rightarrow> bool" where
  "follows_protocol tr ps code msgs \<longleftrightarrow>
     list_all (\<lambda>p. \<not> is_exited p) ps \<and>
     (if code = FailedToPullContainerImage then
        reported_states ps \<in> {[Online], [Online, PullingContainerImage]} \<and> length msgs = 1 \<and>
        SpawnContainer \<notin> fst ` set tr \<and> exit_notes tr = []
      else
        reported_states ps = [Online, PullingContainerImage, ExecutingContainer] \<and>
        (code \<noteq> GracefulShutdown \<longrightarrow> msgs = []) \<and>
        (SpawnContainer, GDone) \<in> set tr \<and> exit_of (exit_notes tr) = Some code)"

text \<open>
  A history that ends with the restart of the machine, its packets as the protocol says, with
  the exit code \<open>code\<close> and the lines \<open>msgs\<close> after it.
\<close>

definition conversation :: "GuestPacket codec \<Rightarrow> gevent list \<Rightarrow> GuestExitCode \<Rightarrow> LogMessage list \<Rightarrow> bool" where
  "conversation bitcode tr' code msgs \<longleftrightarrow>
     (\<exists>ps tr1 r1 r2. tr' = tr1 @ [(Sync, r1), (Reboot, r2)] \<and>
        wire (frame_of bitcode) tr' = frames bitcode (ps @ Exited code # map Log msgs) \<and>
        follows_protocol tr' ps code msgs)"

text \<open>
  How a run that reports \<open>code\<close> and then \<open>msgs\<close> came to it: the configuration that was read,
  the image it names, and the result of pulling this image. The container is started if and
  only if the pull returned a specification, and only after it did; otherwise the exit code
  says that the pull failed, and the message after it says why.
\<close>

fun pull_outcome ::
  "(RegistryErrors, 'spec) res \<Rightarrow> gevent list \<Rightarrow> GuestExitCode \<Rightarrow> LogMessage list \<Rightarrow> bool" where
  "pull_outcome (Ok _) rest code msgs \<longleftrightarrow> (SpawnContainer, GDone) \<in> set rest \<and> code \<noteq> FailedToPullContainerImage"
| "pull_outcome (Err e) rest code msgs \<longleftrightarrow>
     SpawnContainer \<notin> fst ` set rest \<and> code = FailedToPullContainerImage \<and>
     map log_text msgs = [''Unable to pull and extract container image: '' @ RegistryErrors_debug e]"
| "pull_outcome Panic rest code msgs \<longleftrightarrow> False"

definition image_outcome ::
  "('json, 'spec) image_lib \<Rightarrow> main_lib \<Rightarrow> genv \<Rightarrow> GuestPacket codec \<Rightarrow> nat list \<Rightarrow> gevent list
     \<Rightarrow> GuestExitCode \<Rightarrow> LogMessage list \<Rightarrow> bool" where
  "image_outcome lib main env bitcode schedule tr code msgs \<longleftrightarrow>
     (\<exists>t0 config t1. (fetch_config main env t0 :: (unit, GuestConfig) res \<times> gevent list) = (Ok config, t1) \<and> prefix t1 tr \<and>
        (case parse_reference main (guest_image config) of
           Inl e \<Rightarrow>
             SpawnContainer \<notin> fst ` set tr \<and> code = FailedToPullContainerImage \<and>
             map log_text msgs = [''Failed to parse container image reference: '' @ e]
         | Inr reference \<Rightarrow>
             (\<exists>t2 r t3 rest.
                pull_and_prepare_image lib env bitcode schedule reference
                  \<lparr>additional_args = guest_cmd_args config, additional_env = guest_env config, terminal = False\<rparr> t2 = (r, t3) \<and>
                prefix t1 t2 \<and> prefix t2 t3 \<and> tr = t3 @ rest \<and> SpawnContainer \<notin> fst ` set t3 \<and>
                pull_outcome r rest code msgs)))"

lemma fail_pull_follows:
  assumes "fail_pull env bitcode m tr = (Ok u, tr')" and "early [] tr"
    and "wire (frame_of bitcode) tr = frames bitcode ps" and "list_all (\<lambda>p. \<not> is_exited p) ps"
    and "reported_states ps \<in> {[Online], [Online, PullingContainerImage]}"
  shows "\<exists>l. conversation bitcode tr' FailedToPullContainerImage [l] \<and> log_text l = m \<and>
    prefix tr tr' \<and> SpawnContainer \<notin> fst ` set tr'"
proof -
  obtain l tr1 r1 r2 where f: "wire (frame_of bitcode) tr' = wire (frame_of bitcode) tr @
      frames bitcode [Exited FailedToPullContainerImage, Log l]" "log_text l = m"
      "tr' = tr1 @ [(Sync, r1), (Reboot, r2)]" "early tr tr'"
    using fail_pull_Ok [OF assms(1)] by blast
  note h = early_history [OF gextends_trans [OF assms(2) f(4)]]
  from h f(1,3) assms(3-5) have "conversation bitcode tr' FailedToPullContainerImage [l]"
    unfolding conversation_def
    by (intro exI [of _ ps] exI [of _ tr1] exI [of _ r1] exI [of _ r2]) (simp add: follows_protocol_def)
  moreover have "prefix tr tr'" using f(4) by (auto simp: gextends_by_def)
  ultimately show ?thesis using f(2) h by blast
qed

lemma exit_of_not_failed: "exit_of ns = Some code \<Longrightarrow> code \<noteq> FailedToPullContainerImage"
  by (induction ns rule: exit_of.induct) auto

lemma run_container_follows:
  assumes "run_container env bitcode tr = (Ok (), tr')" and "early [] tr"
    and "wire (frame_of bitcode) tr = frames bitcode ps" and "list_all (\<lambda>p. \<not> is_exited p) ps"
    and "reported_states ps = [Online, PullingContainerImage]"
  shows "\<exists>code msgs rest. conversation bitcode tr' code msgs \<and> code \<noteq> FailedToPullContainerImage \<and>
    tr' = tr @ rest \<and> (SpawnContainer, GDone) \<in> set rest"
proof -
  obtain t logs ns code late tr1 r1 r2 where r:
    "wire (frame_of bitcode) tr' = wire (frame_of bitcode) tr @
      frames bitcode (VmState (ExecutingContainer, t) # map Log logs @ Exited code # map Log late)"
    "late \<noteq> [] \<longrightarrow> code = GracefulShutdown" "exit_notes tr' = exit_notes tr @ ns" "exit_of ns = Some code"
    "tr' = tr @ tr1 @ [(Sync, r1), (Reboot, r2)]" "(SpawnContainer, GDone) \<in> set tr1"
    using run_container_outcome [OF assms(1)] by blast
  have "list_all (\<lambda>p. \<not> is_exited p) (map Log logs)" by (induction logs) simp_all
  with r assms early_history [OF assms(2)] exit_of_not_failed [OF r(4)] have "conversation bitcode tr' code late"
    unfolding conversation_def
    by (intro exI [of _ "ps @ VmState (ExecutingContainer, t) # map Log logs"]
        exI [of _ "tr @ tr1"] exI [of _ r1] exI [of _ r2]) (auto simp: follows_protocol_def)
  with r(5,6) exit_of_not_failed [OF r(4)] show ?thesis by auto
qed

text \<open>A pull that returned, in a run that is online.\<close>

lemma pull_online:
  assumes "pull_and_prepare_image lib env bitcode schedule reference overrides tr = (p, tr2)" and "p \<noteq> Panic"
    and "early [] tr" and "wire (frame_of bitcode) tr = frames bitcode [VmState (Online, t), Log l]"
  shows "early [] tr2 \<and> prefix tr tr2 \<and>
    (\<exists>ps. wire (frame_of bitcode) tr2 = frames bitcode ps \<and> list_all (\<lambda>p. \<not> is_exited p) ps \<and>
       reported_states ps = [Online, PullingContainerImage])"
proof -
  have x: "gextends_by pull_call tr tr2" using pull_calls [of tr lib env bitcode schedule reference overrides] assms(1) by simp
  obtain t2 logs where "wire (frame_of bitcode) tr2 = wire (frame_of bitcode) tr @
      frames bitcode (VmState (PullingContainerImage, t2) # map Log logs)" using pull_writes [OF assms(1,2)] by blast
  then have "wire (frame_of bitcode) tr2 =
      frames bitcode ([VmState (Online, t), Log l] @ VmState (PullingContainerImage, t2) # map Log logs)"
    (is "_ = frames _ ?ps") using assms(4) by simp
  moreover have "list_all (\<lambda>p. \<not> is_exited p) ?ps" "reported_states ?ps = [Online, PullingContainerImage]"
    by (induction logs) simp_all
  ultimately have "\<exists>ps. wire (frame_of bitcode) tr2 = frames bitcode ps \<and> list_all (\<lambda>p. \<not> is_exited p) ps \<and>
      reported_states ps = [Online, PullingContainerImage]" by blast
  then show ?thesis using gextends_trans [OF assms(3) early_pull [OF x]] x by (simp add: gextends_by_def prefix_def) blast
qed

lemma guest_main_packets:
  assumes "guest_main lib main env bitcode schedule [] = (Ok (), tr')"
  shows "\<exists>code msgs. conversation bitcode tr' code msgs \<and> image_outcome lib main env bitcode schedule tr' code msgs"
proof -
  obtain t0 config t1 t l tr where e: "early [] tr" and f: "(fetch_config main env t0 :: (unit, _) res \<times> _) = (Ok config, t1)"
    and pre: "prefix t1 tr" and w: "wire (frame_of bitcode) tr = frames bitcode [VmState (Online, t), Log l]"
    and r: "run_image lib main env bitcode schedule config tr = ((Ok (), tr') :: (unit, unit) res \<times> _)"
    using guest_main_online [OF assms] by blast
  show ?thesis
  proof (cases "parse_reference main (guest_image config)")
    case (Inl x)
    with r have "(fail_pull env bitcode (''Failed to parse container image reference: '' @ x) tr :: (unit, unit) res \<times> _)
        = (Ok (), tr')" by (simp add: run_image_def)
    from fail_pull_follows [OF this e w] obtain m where
      "conversation bitcode tr' FailedToPullContainerImage [m]" "prefix tr tr'" "SpawnContainer \<notin> fst ` set tr'"
      "log_text m = ''Failed to parse container image reference: '' @ x" by auto
    with f Inl prefix_order.trans [OF pre] show ?thesis
      unfolding image_outcome_def
      by (intro exI [of _ FailedToPullContainerImage] exI [of _ "[m]"] conjI exI [of _ t0] exI [of _ config] exI [of _ t1])
        simp_all
  next
    case (Inr reference)
    obtain p tr2 where p: "pull_and_prepare_image lib env bitcode schedule reference (runtime_overrides config) tr = (p, tr2)"
      by (metis surj_pair)
    have np: "p \<noteq> Panic" using r by (auto simp: run_image_def Inr p)
    obtain ps where o: "early [] tr2" "prefix tr tr2" "wire (frame_of bitcode) tr2 = frames bitcode ps"
      "list_all (\<lambda>p. \<not> is_exited p) ps" "reported_states ps = [Online, PullingContainerImage]"
      using pull_online [OF p np e w] by blast
    have "\<exists>code msgs rest. conversation bitcode tr' code msgs \<and> tr' = tr2 @ rest \<and> pull_outcome p rest code msgs"
    proof (cases p)
      case (Ok spec)
      with r have "run_container env bitcode tr2 = ((Ok (), tr') :: (unit, unit) res \<times> _)"
        by (simp add: run_image_def Inr p)
      from run_container_follows [OF this o(1,3-5)] Ok show ?thesis by auto
    next
      case (Err x)
      with r have "(fail_pull env bitcode (''Unable to pull and extract container image: '' @ RegistryErrors_debug x) tr2
          :: (unit, unit) res \<times> _) = (Ok (), tr')" by (simp add: run_image_def Inr p)
      from fail_pull_follows [OF this o(1,3,4)] o(5) Err show ?thesis by (fastforce simp: prefix_def)
    qed (use np in simp)
    then obtain code msgs rest where c: "conversation bitcode tr' code msgs" "tr' = tr2 @ rest" "pull_outcome p rest code msgs"
      by blast
    have "image_outcome lib main env bitcode schedule tr' code msgs"
      using f Inr p pre o(2) c(2,3) early_history [OF o(1)] prefix_order.trans [OF pre o(2)]
      unfolding image_outcome_def runtime_overrides_def
      by (intro exI [of _ t0] exI [of _ config] exI [of _ t1]) (simp, blast)
    with c(1) show ?thesis by blast
  qed
qed

lemma no_err_pure: "no_err (Ok a, s)" "no_err (Panic, s)"
  by (simp_all add: no_err_def)

lemma no_err_run_or_panic: "no_err (run_or_panic env prog args tr)"
  by (auto simp: no_err_def run_or_panic_def gperform_def split: guest_reply.split bool.split)

lemma no_err_recv_exit: "no_err (recv_exit env bitcode tr)"
proof -
  have w: "no_err (wait_thread env bitcode c tr)" for c tr
    unfolding wait_thread_def by (intro no_err_then_try no_err_log_system_message no_err_pure)
  show ?thesis
    by (cases "env tr RecvExit")
      (simp_all add: recv_exit_def gperform_def no_err_pure w split: exit_source.split)
qed

lemma no_err_join_pipe: "no_err (join_pipe env tr)"
  by (cases "env tr JoinPipe") (simp_all add: join_pipe_def gperform_def no_err_pure)

lemma no_err_run_image: "no_err (run_image lib main env bitcode schedule config tr)"
proof -
  have f: "no_err (fail_pull env bitcode m tr)" for m tr
    unfolding fail_pull_def by (intro no_err_then_try no_err_send_exit no_err_pure)
  have s: "no_err (stop_container env bitcode res tr)" for res tr
    unfolding stop_container_def gperform_def prod.case
    by (auto intro!: no_err_then_try no_err_log_system_message no_err_recv_exit no_err_pure)
  have "no_err (run_container env bitcode tr)" for tr
    unfolding run_container_def
    by (intro no_err_then_try no_err_state_change no_err_or_panic no_err_recv_exit s no_err_join_pipe no_err_send_exit
        no_err_pure)
  then show ?thesis
    by (auto simp: run_image_def f no_err_pure split: sum.split prod.split res.split)
qed

lemma no_err_guest_init: "no_err (guest_init env tr)"
  unfolding guest_init_def sh_cmd_def mke2fs_def gperform_def prod.case
  by (intro no_err_then_try no_err_run_or_panic)

lemma no_err_fetch_config: "no_err (fetch_config main env tr)"
proof -
  have "no_err (map_prod id snd (or_panic m))" for m :: "(MMDSClientError, 'x) res \<times> 'y \<times> 'z"
    using no_err_or_panic [of m] by (cases "or_panic m") (simp add: no_err_def)
  then show ?thesis unfolding fetch_config_def by (intro no_err_then_try no_err_or_panic)
qed

lemma no_err_guest_main: "no_err (guest_main lib main env bitcode schedule tr)"
proof (cases "env tr GetPid = GFlag True")
  case True
  show ?thesis
    unfolding guest_main_def gperform_def True prod.case guest_reply.case bool.case if_True
    by (intro no_err_then_try no_err_guest_init no_err_fetch_config no_err_or_panic no_err_state_change no_err_run_image)
next
  case False
  then have "fst (guest_main lib main env bitcode schedule tr) = Panic"
    unfolding guest_main_def gperform_def prod.case
    by (cases "env tr GetPid") (simp_all split: bool.split)
  then show ?thesis by (simp add: no_err_def)
qed

section \<open>Properties\<close>

text \<open>
  C4. A run of the init program that ends by itself keeps the protocol: it reports the states
  online, pulling and executing in this order, with log packets in between, and exactly one
  exit packet. The container is started exactly if the image named by the machine's
  configuration was pulled successfully, and only after that; if it cannot be pulled, the
  container is never started, the exit code says so and the one message after it says why.
  If the container ran, the exit code is determined by what the main thread was told and did
  while it waited, and nothing follows the exit packet unless it reports a graceful shutdown.
  The last actions are to sync the disks and to restart the machine.
\<close>

theorem guest_protocol:
  assumes "guest_main lib main env bitcode schedule [] = (Ok (), tr)"
  shows "\<exists>ps code msgs tr1 r1 r2. tr = tr1 @ [(Sync, r1), (Reboot, r2)] \<and>
    wire (frame_of bitcode) tr = frames bitcode (ps @ Exited code # map Log msgs) \<and>
    follows_protocol tr ps code msgs \<and> image_outcome lib main env bitcode schedule tr code msgs"
  using guest_main_packets [OF assms] unfolding conversation_def by blast

definition sample_main :: main_lib where
  "sample_main =
     \<lparr>parse_container_config = (\<lambda>_. Some \<lparr>guest_image = ''nginx'', guest_cmd_args = None, guest_env = None,
        guest_vsock_port = 6000\<rparr>),
      parse_reference = (\<lambda>s. if s = [] then Inl ''empty'' else Inr sample_reference),
      pkg_version = ''0.1.0''\<rparr>"

theorem guest_protocol_witness:
  "\<exists>tr ps. guest_main sample_lib sample_main sample_internet (table_codec []) [] [] = (Ok (), tr) \<and>
     wire (frame_of (table_codec [])) tr = frames (table_codec []) (ps @ [Exited (ContainerExited 3)])"
proof -
  let ?m = "guest_main sample_lib sample_main sample_internet (table_codec []) [] []"
  have "map_prod is_ok exit_notes ?m = (True, [Told (ContainerDone (Some 3))])" by code_simp
  then obtain tr where r: "?m = (Ok (), tr)" "exit_notes tr = [Told (ContainerDone (Some 3))]"
    by (cases ?m) (auto simp: is_ok_iff)
  from guest_protocol [OF r(1)] obtain ps code msgs where
    w: "wire (frame_of (table_codec [])) tr = frames (table_codec []) (ps @ Exited code # map Log msgs)"
    and f: "follows_protocol tr ps code msgs" by blast
  have "code = ContainerExited 3 \<and> msgs = []"
    using f r(2) by (auto simp: follows_protocol_def split: if_splits)
  with r w show ?thesis by auto
qed

text \<open>
  C28. Whatever happens, a panic in any of its threads included, the last thing the init
  program does is to sync the disks and restart the machine.
\<close>

theorem guest_always_restarts:
  "\<exists>tr r1 r2. guest_process lib main env bitcode schedule = tr @ [(Sync, r1), (Reboot, r2)]"
proof (cases "fst (guest_main lib main env bitcode schedule [])")
  case (Ok u)
  then obtain tr where r: "guest_main lib main env bitcode schedule [] = (Ok (), tr)"
    by (cases "guest_main lib main env bitcode schedule []") simp
  show ?thesis
    using guest_main_packets [OF r] by (auto simp: guest_process_def r conversation_def)
next
  case (Err e)
  then show ?thesis using no_err_guest_main [of lib main env bitcode schedule "[]"] by (simp add: no_err_def)
next
  case Panic
  then obtain tr where r: "guest_main lib main env bitcode schedule [] = (Panic, tr)"
    by (cases "guest_main lib main env bitcode schedule []") simp
  show ?thesis using shutdown_guest_eq [of env tr] by (auto simp: guest_process_def r)
qed

text \<open>
  C14. The exit code that a running container's machine reports is the code of the container's
  process, 9999 if a signal ended it, both when the container ended by itself and when the
  host asked for a shutdown. In the second case the guest first takes the request, then kills
  the container, and only then waits for its end. Only a second shutdown command, arriving
  while the container is being stopped, makes the code \<open>GracefulShutdown\<close>; and only then a line
  may still follow the exit packet. (A comment in \<open>vmproto/src/guest.rs\<close> describes
  \<open>GracefulShutdown\<close> as the code of a shutdown that the host requested; one request alone does
  not produce it.)
\<close>

theorem container_exit_code:
  assumes "run_container env bitcode tr = (Ok (), tr')"
  shows "\<exists>t logs ns code late.
    wire (frame_of bitcode) tr' = wire (frame_of bitcode) tr @
      frames bitcode (VmState (ExecutingContainer, t) # map Log logs @ Exited code # map Log late) \<and>
    (late \<noteq> [] \<longrightarrow> code = GracefulShutdown) \<and>
    exit_notes tr' = exit_notes tr @ ns \<and>
    ((\<exists>c. ns \<in> {[Told (ContainerDone c)], [Told (HostSent Shutdown), Killed, Told (ContainerDone c)]} \<and>
        code = ContainerExited (case c of Some n \<Rightarrow> n | None \<Rightarrow> 9999)) \<or>
     ns = [Told (HostSent Shutdown), Killed, Told (HostSent Shutdown)] \<and> code = GracefulShutdown)"
proof -
  obtain t logs ns code late where r:
    "wire (frame_of bitcode) tr' = wire (frame_of bitcode) tr @
      frames bitcode (VmState (ExecutingContainer, t) # map Log logs @ Exited code # map Log late)"
    "late \<noteq> [] \<longrightarrow> code = GracefulShutdown" "exit_notes tr' = exit_notes tr @ ns" "exit_of ns = Some code"
    using run_container_outcome [OF assms] by blast
  from r(4) have "(\<exists>c. ns \<in> {[Told (ContainerDone c)], [Told (HostSent Shutdown), Killed, Told (ContainerDone c)]} \<and>
        code = ContainerExited (case c of Some n \<Rightarrow> n | None \<Rightarrow> 9999)) \<or>
     ns = [Told (HostSent Shutdown), Killed, Told (HostSent Shutdown)] \<and> code = GracefulShutdown"
    by (cases ns rule: exit_of.cases) auto
  with r(1-3) show ?thesis by blast
qed

definition stopped_guest :: genv where
  "stopped_guest tr c =
     (case c of
        RecvExit \<Rightarrow> GExit (if exit_notes tr = [] then HostSent Shutdown else ContainerDone None) []
      | _ \<Rightarrow> sample_internet tr c)"

theorem container_exit_code_witness:
  "\<exists>tr ps. run_container stopped_guest (table_codec []) [] = ((Ok (), tr) :: (unit, unit) res \<times> gevent list) \<and>
     exit_notes tr = [Told (HostSent Shutdown), Killed, Told (ContainerDone None)] \<and>
     wire (frame_of (table_codec [])) tr = frames (table_codec []) (ps @ [Exited (ContainerExited 9999)])"
proof -
  let ?m = "run_container stopped_guest (table_codec []) [] :: (unit, unit) res \<times> gevent list"
  have "map_prod is_ok exit_notes ?m = (True, [Told (HostSent Shutdown), Killed, Told (ContainerDone None)])" by code_simp
  then obtain tr where r: "?m = (Ok (), tr)" "exit_notes tr = [Told (HostSent Shutdown), Killed, Told (ContainerDone None)]"
    by (cases ?m) (auto simp: is_ok_iff)
  from container_exit_code [OF r(1)] r(2) obtain t logs where
    "wire (frame_of (table_codec [])) tr =
       frames (table_codec []) (VmState (ExecutingContainer, t) # map Log logs @ [Exited (ContainerExited 9999)])"
    by auto
  with r show ?thesis
    by (intro exI [of _ tr] exI [of _ "VmState (ExecutingContainer, t) # map Log logs"]) simp
qed

end
