(* ===== verification/Plain_Codec.thy ===== *)
theory Plain_Codec
  imports Vmproto
begin

text \<open>
  A concrete codec for the packets of a guest, and the proof that it is one. The development
  is about any codec; this one shows that its assumptions about \<open>bitcode\<close> can hold for all
  packets at once: a tag, the fields of fixed width in big-endian order, and the text last.
\<close>

definition u64_to_be_bytes :: "u64 \<Rightarrow> byte list" where
  "u64_to_be_bytes w = u32_to_be_bytes (ucast (drop_bit 32 w)) @ u32_to_be_bytes (ucast w)"

definition u64_from_be_bytes :: "byte list \<Rightarrow> u64" where
  "u64_from_be_bytes bs =
     push_bit 32 (ucast (u32_from_be_bytes (take 4 bs))) OR ucast (u32_from_be_bytes (drop 4 bs))"

lemma u64_be_roundtrip [simp]: "u64_from_be_bytes (u64_to_be_bytes w) = w"
proof (rule bit_word_eqI)
  fix n
  assume "n < LENGTH(64)"
  then consider "n < 32" | "32 \<le> n" "n < 64" by fastforce
  then show "bit (u64_from_be_bytes (u64_to_be_bytes w)) n = bit w n"
    by cases (auto simp: u64_to_be_bytes_def u64_from_be_bytes_def bit_or_iff bit_push_bit_iff bit_ucast_iff
        bit_drop_bit_eq)
qed

lemma length_u64_to_be_bytes [simp]: "length (u64_to_be_bytes w) = 8"
  by (simp add: u64_to_be_bytes_def)

fun type_byte :: "LogMessageType \<Rightarrow> byte" where
  "type_byte System = 0" | "type_byte Stdout = 1" | "type_byte Stderr = 2"

definition byte_type :: "byte \<Rightarrow> LogMessageType" where
  "byte_type b = (if b = 0 then System else if b = 1 then Stdout else Stderr)"

fun state_byte :: "InitVmState \<Rightarrow> byte" where
  "state_byte Online = 0" | "state_byte PullingContainerImage = 1" | "state_byte ExecutingContainer = 2"

definition byte_state :: "byte \<Rightarrow> InitVmState" where
  "byte_state b = (if b = 0 then Online else if b = 1 then PullingContainerImage else ExecutingContainer)"

lemma byte_type_inverse [simp]: "byte_type (type_byte t) = t"
  by (cases t) (simp_all add: byte_type_def)

lemma byte_state_inverse [simp]: "byte_state (state_byte s) = s"
  by (cases s) (simp_all add: byte_state_def)

fun plain_encode :: "GuestPacket \<Rightarrow> byte list" where
  "plain_encode (Log l) =
     [0, type_byte (message_type l)] @ u64_to_be_bytes (timestamp_ms l) @ map (\<lambda>c. of_char c) (log_text l)"
| "plain_encode (VmState (s, t)) = [1, state_byte s] @ u64_to_be_bytes t"
| "plain_encode (Exited GracefulShutdown) = [2]"
| "plain_encode (Exited FailedToPullContainerImage) = [3]"
| "plain_encode (Exited (ContainerExited c)) = 4 # u32_to_be_bytes c"

definition plain_decode :: "byte list \<Rightarrow> GuestPacket option" where
  "plain_decode bs =
     (case bs of
        [] \<Rightarrow> None
      | tag # rest \<Rightarrow>
          if tag = 0 then
            Some (Log \<lparr>log_text = map (\<lambda>b. char_of (unat b)) (drop 9 rest),
                       timestamp_ms = u64_from_be_bytes (take 8 (drop 1 rest)), message_type = byte_type (hd rest)\<rparr>)
          else if tag = 1 then Some (VmState (byte_state (hd rest), u64_from_be_bytes (drop 1 rest)))
          else if tag = 2 then Some (Exited GracefulShutdown)
          else if tag = 3 then Some (Exited FailedToPullContainerImage)
          else Some (Exited (ContainerExited (u32_from_be_bytes rest))))"

definition plain_codec :: "GuestPacket codec" where
  "plain_codec = \<lparr>encode = plain_encode, decode = plain_decode\<rparr>"

text \<open>What is assumed of \<open>bitcode\<close> where a statement is about all packets of a run.\<close>

definition codec_ok :: "'p codec \<Rightarrow> bool" where
  "codec_ok bitcode \<longleftrightarrow> (\<forall>p. decode bitcode (encode bitcode p) = Some p \<and> encode bitcode p \<noteq> [])"

lemma plain_codec_ok: "codec_ok plain_codec"
proof -
  have "plain_decode (plain_encode p) = Some p \<and> plain_encode p \<noteq> []" for p
    by (cases p rule: plain_encode.cases) (simp_all add: plain_decode_def comp_def char_byte_inverse)
  then show ?thesis by (simp add: codec_ok_def plain_codec_def)
qed

end
