(* ===== verification/Json_Value.thy ===== *)
theory Json_Value
  imports Btree_Map Paths
begin

text \<open>
  JSON documents as \<open>serde_json\<close> has them, for the metadata that the node manager hands to a
  guest. Printing and parsing are parameters of the development; what is relied on is
  \<open>json_ok\<close>, and a small notation with a printer and a parser shows that it can hold.
\<close>

section \<open>Values\<close>

datatype json = JNull | JNum int | JStr string | JArr "json list" | JObj "(string \<times> json) list"

text \<open>\<open>serde_json::Value\<close> keeps an object as a map in the order of its keys.\<close>

fun json_norm :: "json \<Rightarrow> json" where
  "json_norm (JArr vs) = JArr (map json_norm vs)"
| "json_norm (JObj fs) = JObj (btree_collect (map (\<lambda>(k, v). (k, json_norm v)) fs))"
| "json_norm v = v"

text \<open>
  Values that survive being printed: numbers of 64 bits, distinct keys, and at most \<open>n\<close> levels
  (the parser stops at 128).
\<close>

fun json_fits :: "nat \<Rightarrow> json \<Rightarrow> bool" where
  "json_fits n (JNum i) \<longleftrightarrow> - (2 ^ 63) \<le> i \<and> i < 2 ^ 64"
| "json_fits (Suc n) (JArr vs) \<longleftrightarrow> list_all (json_fits n) vs"
| "json_fits (Suc n) (JObj fs) \<longleftrightarrow> distinct (map fst fs) \<and> list_all (\<lambda>f. json_fits n (snd f)) fs"
| "json_fits n JNull \<longleftrightarrow> True"
| "json_fits n (JStr s) \<longleftrightarrow> True"
| "json_fits 0 v \<longleftrightarrow> False"

definition json_ok :: "(json \<Rightarrow> string) \<Rightarrow> (byte list \<Rightarrow> json option) \<Rightarrow> bool" where
  "json_ok print parse \<longleftrightarrow> (\<forall>v. json_fits 127 v \<longrightarrow> parse (map of_char (print v)) = Some (json_norm v))"

text \<open>The part of a document that a path of keys leads to.\<close>

fun json_at :: "string list \<Rightarrow> json \<Rightarrow> json option" where
  "json_at [] v = Some v"
| "json_at (k # ks) (JObj fs) = (case map_of fs k of None \<Rightarrow> None | Some v \<Rightarrow> json_at ks v)"
| "json_at _ _ = None"

section \<open>A notation\<close>

text \<open>
  Every value begins with a letter; the characters of a text are marked one by one and
  numbers are unary, so that nothing has to be escaped.
\<close>

fun quote_text :: "string \<Rightarrow> string" where
  "quote_text [] = ''.''"
| "quote_text (c # cs) = CHR ''c'' # c # quote_text cs"

fun unquote_text :: "string \<Rightarrow> (string \<times> string) option" where
  "unquote_text (m # c # r) =
     (if m = CHR ''.'' then Some ([], c # r) else map_option (map_prod ((#) c) id) (unquote_text r))"
| "unquote_text [m] = (if m = CHR ''.'' then Some ([], []) else None)"
| "unquote_text [] = None"

fun plain_print :: "json \<Rightarrow> string" where
  "plain_print JNull = ''n''"
| "plain_print (JNum i) = (if i < 0 then ''-'' else ''+'') @ replicate (nat \<bar>i\<bar>) (CHR ''1'') @ ''.''"
| "plain_print (JStr s) = ''s'' @ quote_text s"
| "plain_print (JArr vs) = ''['' @ concat (map (\<lambda>v. '','' @ plain_print v) vs) @ '']''"
| "plain_print (JObj fs) = ''{'' @ concat (map (\<lambda>(k, v). '','' @ quote_text k @ plain_print v) fs) @ ''}''"

definition read_unary :: "string \<Rightarrow> int \<times> string" where
  "read_unary r = (int (length (takeWhile ((=) (CHR ''1'')) r)), tl (dropWhile ((=) (CHR ''1'')) r))"

fun read_value :: "nat \<Rightarrow> string \<Rightarrow> (json \<times> string) option"
  and read_items :: "nat \<Rightarrow> string \<Rightarrow> (json list \<times> string) option"
  and read_fields :: "nat \<Rightarrow> string \<Rightarrow> ((string \<times> json) list \<times> string) option" where
  "read_value (Suc n) (c # r) =
     (if c = CHR ''n'' then Some (JNull, r)
      else if c = CHR ''+'' then Some (map_prod JNum id (read_unary r))
      else if c = CHR ''-'' then Some (map_prod (\<lambda>i. JNum (- i)) id (read_unary r))
      else if c = CHR ''s'' then map_option (map_prod JStr id) (unquote_text r)
      else if c = CHR ''['' then map_option (map_prod JArr id) (read_items n r)
      else map_option (map_prod JObj id) (read_fields n r))"
| "read_value _ _ = None"
| "read_items (Suc n) (c # r) =
     (if c = CHR '']'' then Some ([], r)
      else (case read_value n r of
              None \<Rightarrow> None
            | Some (v, r) \<Rightarrow> map_option (map_prod ((#) v) id) (read_items n r)))"
| "read_items _ _ = None"
| "read_fields (Suc n) (c # r) =
     (if c = CHR ''}'' then Some ([], r)
      else (case unquote_text r of
              None \<Rightarrow> None
            | Some (k, r) \<Rightarrow>
                (case read_value n r of
                   None \<Rightarrow> None
                 | Some (v, r) \<Rightarrow> map_option (map_prod ((#) (k, v)) id) (read_fields n r))))"
| "read_fields _ _ = None"

definition plain_parse :: "byte list \<Rightarrow> json option" where
  "plain_parse bs =
     (let s = map (\<lambda>b. char_of (unat b)) bs in
      case read_value (length s) s of
        Some (v, []) \<Rightarrow> Some (json_norm v)
      | _ \<Rightarrow> None)"

lemma unquote_quote [simp]: "unquote_text (quote_text s @ r) = Some (s, r)"
proof (induction s)
  case Nil
  show ?case by (cases r) simp_all
qed simp

lemma read_unary_replicate [simp]: "read_unary (replicate n (CHR ''1'') @ CHR ''.'' # r) = (int n, r)"
  by (induction n) (simp_all add: read_unary_def)

lemma read_items_print:
  assumes "\<And>v n r. v \<in> set vs \<Longrightarrow> length (plain_print v) \<le> n \<Longrightarrow> read_value n (plain_print v @ r) = Some (v, r)"
    and "length (concat (map (\<lambda>v. '','' @ plain_print v) vs)) < n"
  shows "read_items n (concat (map (\<lambda>v. '','' @ plain_print v) vs) @ CHR '']'' # r) = Some (vs, r)"
  using assms
proof (induction vs arbitrary: n)
  case Nil
  then show ?case by (cases n) simp_all
next
  case (Cons v vs)
  then obtain m where "n = Suc m" by (cases n) simp_all
  with Cons show ?case by simp
qed

lemma read_fields_print:
  assumes "\<And>f n r. f \<in> set fs \<Longrightarrow> length (plain_print (snd f)) \<le> n \<Longrightarrow>
      read_value n (plain_print (snd f) @ r) = Some (snd f, r)"
    and "length (concat (map (\<lambda>(k, v). '','' @ quote_text k @ plain_print v) fs)) < n"
  shows "read_fields n (concat (map (\<lambda>(k, v). '','' @ quote_text k @ plain_print v) fs) @ CHR ''}'' # r) = Some (fs, r)"
  using assms
proof (induction fs arbitrary: n)
  case Nil
  then show ?case by (cases n) simp_all
next
  case (Cons f fs)
  obtain k v where f: "f = (k, v)" by (cases f)
  from Cons.prems obtain m where "n = Suc m" by (cases n) simp_all
  moreover have "read_value m (plain_print v @ r') = Some (v, r')" if "length (plain_print v) \<le> m" for m r'
    using Cons.prems(1) [of f m r'] that f by simp
  ultimately show ?case using Cons f by simp
qed

lemma read_print: "length (plain_print v) \<le> n \<Longrightarrow> read_value n (plain_print v @ r) = Some (v, r)"
proof (induction v arbitrary: n r)
  case JNull
  then show ?case by (cases n) simp_all
next
  case (JNum i)
  then obtain m where n: "n = Suc m" by (cases n) simp_all
  show ?case by (cases "i < 0") (simp_all add: n)
next
  case (JStr s)
  then show ?case by (cases n) simp_all
next
  case (JArr vs)
  then obtain m where n: "n = Suc m" by (cases n) simp_all
  have "length (concat (map (\<lambda>v. '','' @ plain_print v) vs)) < m" using JArr.prems n by simp
  from read_items_print [OF JArr.IH this, of r] show ?case by (simp add: n)
next
  case (JObj fs)
  then obtain m where n: "n = Suc m" by (cases n) simp_all
  have f: "read_value k (plain_print (snd f) @ r) = Some (snd f, r)"
    if "f \<in> set fs" "length (plain_print (snd f)) \<le> k" for f k r
    using JObj.IH [OF that(1) _ that(2)] by (simp add: snds.simps)
  have "length (concat (map (\<lambda>(k, v). '','' @ quote_text k @ plain_print v) fs)) < m" using JObj.prems n by simp
  from read_fields_print [OF f this, of r] show ?case by (simp add: n)
qed

lemma plain_json_ok: "json_ok plain_print plain_parse"
proof -
  have "read_value (length (plain_print v)) (plain_print v) = Some (v, [])" for v
    using read_print [of v "length (plain_print v)" "[]"] by simp
  then show ?thesis by (simp add: json_ok_def plain_parse_def comp_def char_byte_inverse)
qed

end
