(* ===== verification/Provision_Path.thy ===== *)
theory Provision_Path
  imports Manager_Properties Guest_Main Json_Value
begin

text \<open>
  The way of a request from the node manager to the guest: the metadata file that
  \<open>Machine::new\<close> writes for a machine, the JSON document in it, Firecracker's metadata service,
  and the configuration that the guest of this machine reads from the service.
\<close>

section \<open>The metadata file\<close>

text \<open>The metadata file is the only file that booting a machine writes.\<close>

fun is_write :: "host_call \<Rightarrow> bool" where
  "is_write (WriteFile _ _) = True"
| "is_write _ = False"

abbreviation writes :: "event list \<Rightarrow> event list" where
  "writes tr \<equiv> filter (\<lambda>e. is_write (fst e)) tr"

lemma writes_keep: "m = (Ok a, tr') \<Longrightarrow> extends_by (\<lambda>c. \<not> is_write c) tr (snd m) \<Longrightarrow> writes tr' = writes tr"
  by (auto simp: extends_by_def list_all_iff filter_empty_conv)

lemma driver_no_write: "m = (Ok a, tr') \<Longrightarrow> extends_by driver_call tr (snd m) \<Longrightarrow> writes tr' = writes tr"
proof (erule writes_keep, erule extends_by_mono)
  show "driver_call c \<Longrightarrow> \<not> is_write c" for c by (cases c) simp_all
qed

lemma spawn_writes_metadata:
  assumes "JailedCracker_spawn env jb fb off (Some json) np tr = (Ok vm, tr')"
  shows "writes tr' = writes tr @ [(WriteFile (path_join (root_path vm) ''metadata.json'') json, Done)]"
proof -
  obtain fc_bin where f: "path_file_name fb = Some fc_bin"
    using assms by (auto simp: JailedCracker_spawn_def Let_def perform_def split: option.splits)
  let ?root = "jail_root fc_bin (case env tr NewUuid of Text s \<Rightarrow> s | _ \<Rightarrow> [])"
  have w: "writes (wait_for_socket env s n t) = writes t" for s n t
    using wait_for_socket_calls [of "\<lambda>c. \<not> is_write c" t env s n]
    by (auto simp: extends_by_def list_all_iff filter_empty_conv)
  obtain t where "writes t = writes tr @ [(WriteFile (path_join ?root ''metadata.json'') json, Done)]" "root_path vm = ?root"
    "tr' = wait_for_socket env (api_socket ?root) 20 t @ [(ApiConnect (api_socket ?root), Done)]"
    using assms unfolding JailedCracker_spawn_def Let_def perform_def prod.case f option.case then_try_Ok_iff io_Ok
    by (elim exE conjE) (rule that, auto)
  with w [of "api_socket ?root" 20 t] show ?thesis by simp
qed

lemma grows: "m = (Ok a, tr') \<Longrightarrow> extends_by P tr (snd m) \<Longrightarrow> set tr \<subseteq> set tr'"
  by (auto simp: extends_by_def)

lemma Machine_new_metadata:
  assumes "Machine_new env prof lib to_json fc cfg st ov tr = (Ok m, tr')"
  shows "\<exists>port json. to_json \<lparr>latest_metadata = \<lparr>meta_container = \<lparr>config_image = container_reference cfg,
      config_cmd_args = override_cmd_args ov, config_env = override_env ov, config_vsock_port = port\<rparr>\<rparr>\<rparr> = Some json \<and>
    writes tr' = writes tr @ [(WriteFile (path_join (root_path (machine_vm m)) ''metadata.json'') json, Done)] \<and>
    (BindUnixListener (path_join (root_path (machine_vm m)) (''run/v.sock_'' @ dec_string (unat port))), Done) \<in> set tr'"
proof -
  have "Machine_boot env prof lib to_json fc cfg st ov tr = (Ok m, tr')"
    using assms by (simp add: Machine_new_def on_exit_Ok_iff)
  then obtain port json debug t00 t0 t1 t2 t3 t4 t5 t6 p t7 t8 where
    j: "to_json \<lparr>latest_metadata = \<lparr>meta_container = \<lparr>config_image = container_reference cfg,
      config_cmd_args = override_cmd_args ov, config_env = override_env ov, config_vsock_port = port\<rparr>\<rparr>\<rparr> = Some json"
    and r: "random_vsock_port env prof tr = (Ok port, t00)" and v0: "env_var_is_ok env ''DEBUG_MACHINE_OUT'' t00 = (Ok debug, t0)"
    and s: "JailedCracker_spawn env (fc_jailer_binary fc) (fc_firecracker_binary fc) 0 (Some json) (\<not> debug) t0
      = (Ok (machine_vm m), t1)"
    and a: "set_machine_config env (machine_vm m) (vcpu_count cfg) (mem_size_mb cfg) t1 = (Ok (), t2)"
    and b: "set_boot env (machine_vm m) (fc_kernel_image fc) (kernel_boot_args debug st) t2 = (Ok (), t3)"
    and c: "set_rootfs env (machine_vm m) (fc_rootfs fc) t3 = (Ok (), t4)"
    and d: "create_drive env prof (machine_vm m) 8 ''drive0'' t4 = (Ok (), t5)"
    and e: "set_eth_tap env (machine_vm m) (nic st) t5 = (Ok (), t6)"
    and v: "open_vsock_listener env (machine_vm m) port t6 = (Ok p, t7)"
    and x: "start_vm env (machine_vm m) t7 = (Ok (), t8)"
    and y: "accept_guest env t8 = (Ok (), tr')"
    by (rule Machine_boot_stages)
  have "writes t00 = writes tr" using r by (cases "env tr RandomU32") (auto simp: random_vsock_port_def perform_def)
  moreover have "writes t0 = writes t00" using v0 by (auto simp: env_var_is_ok_def perform_def)
  moreover have "writes t6 = writes t1"
    using driver_no_write [OF a driver_calls(6)] driver_no_write [OF b driver_calls(5)] driver_no_write [OF c driver_calls(1)]
      driver_no_write [OF d driver_calls(2)] driver_no_write [OF e driver_calls(3)] by simp
  moreover have "writes tr' = writes t8" and acc: "set t8 \<subseteq> set tr'"
    using y by (cases "env t8 (AcceptVsock 500)"; auto simp: accept_guest_def perform_def)+
  moreover have "writes t8 = writes t6" and "set t7 \<subseteq> set t8"
    using driver_no_write [OF v driver_calls(4)] driver_no_write [OF x driver_calls(7)] grows [OF x driver_calls(7)] by simp_all
  moreover have "(BindUnixListener (path_join (root_path (machine_vm m)) (''run/v.sock_'' @ dec_string (unat port))), Done)
      \<in> set t7"
    using v by (auto simp: open_vsock_listener_def Let_def then_try_Ok_iff io_Ok)
  ultimately show ?thesis
    using j spawn_writes_metadata [OF s] by (intro exI [of _ port] exI [of _ json]) auto
qed

section \<open>The document\<close>

text \<open>
  \<open>derive(Serialize)\<close> for the structs \<open>Config\<close>, \<open>Metadata\<close> and \<open>Latest\<close> inside \<open>Machine::new\<close>:
  an object with the names of the fields, in the order of the fields; \<open>None\<close> is \<open>null\<close>.
\<close>

definition option_json :: "('a \<Rightarrow> json) \<Rightarrow> 'a option \<Rightarrow> json" where
  "option_json f x = (case x of None \<Rightarrow> JNull | Some a \<Rightarrow> f a)"

definition Config_json :: "Config \<Rightarrow> json" where
  "Config_json c =
     JObj [(''image'', JStr (config_image c)),
           (''cmd_args'', option_json (\<lambda>xs. JArr (map JStr xs)) (config_cmd_args c)),
           (''env'', option_json (\<lambda>m. JObj (map (\<lambda>(k, v). (k, JStr v)) m)) (config_env c)),
           (''vsock_port'', JNum (int (unat (config_vsock_port c))))]"

definition Latest_json :: "Latest \<Rightarrow> json" where
  "Latest_json l = JObj [(''latest'', JObj [(''container'', Config_json (meta_container (latest_metadata l)))])]"

text \<open>
  \<open>derive(Deserialize)\<close> for the struct \<open>Config\<close> inside the guest's \<open>main\<close>: fields are found by
  name, other fields are ignored, and a missing optional field is \<open>None\<close>.
\<close>

fun string_of_json :: "json \<Rightarrow> string option" where
  "string_of_json (JStr s) = Some s"
| "string_of_json _ = None"

fun strings_of_json :: "json \<Rightarrow> string list option" where
  "strings_of_json (JArr vs) = those (map string_of_json vs)"
| "strings_of_json _ = None"

fun btree_of_json :: "json \<Rightarrow> (string, string) btree option" where
  "btree_of_json (JObj fs) =
     map_option btree_collect (those (map (\<lambda>(k, v). map_option (Pair k) (string_of_json v)) fs))"
| "btree_of_json _ = None"

fun u32_of_json :: "json \<Rightarrow> u32 option" where
  "u32_of_json (JNum i) = (if 0 \<le> i \<and> i < 2 ^ 32 then Some (of_int i) else None)"
| "u32_of_json _ = None"

definition optional :: "(json \<Rightarrow> 'a option) \<Rightarrow> json option \<Rightarrow> 'a option option" where
  "optional f field =
     (case field of None \<Rightarrow> Some None | Some JNull \<Rightarrow> Some None | Some v \<Rightarrow> map_option Some (f v))"

fun GuestConfig_of_json :: "json \<Rightarrow> GuestConfig option" where
  "GuestConfig_of_json (JObj fs) =
     (case (Option.bind (map_of fs ''image'') string_of_json, optional strings_of_json (map_of fs ''cmd_args''),
            optional btree_of_json (map_of fs ''env''), Option.bind (map_of fs ''vsock_port'') u32_of_json) of
        (Some img, Some args, Some env, Some port) \<Rightarrow>
          Some \<lparr>guest_image = img, guest_cmd_args = args, guest_env = env, guest_vsock_port = port\<rparr>
      | _ \<Rightarrow> None)"
| "GuestConfig_of_json _ = None"

definition read_GuestConfig :: "(byte list \<Rightarrow> json option) \<Rightarrow> byte list \<Rightarrow> GuestConfig option" where
  "read_GuestConfig parse bs = Option.bind (parse bs) GuestConfig_of_json"

text \<open>Every configuration is read back as it was, however often the document is printed and parsed.\<close>

lemma those_Some: "(\<And>x. x \<in> set xs \<Longrightarrow> f x = Some (g x)) \<Longrightarrow> those (map f xs) = Some (map g xs)"
  by (induction xs) auto

lemma key_order: "''cmd_args'' < ''image''" "''cmd_args'' < (''env'' :: string)" "''env'' < (''image'' :: string)"
  "''image'' < (''vsock_port'' :: string)" "''cmd_args'' < (''vsock_port'' :: string)" "''env'' < (''vsock_port'' :: string)"
  by code_simp+

definition env_json :: "(string, string) btree option \<Rightarrow> json" where
  "env_json = option_json (\<lambda>m. JObj (map (\<lambda>(k, v). (k, JStr v)) m))"

lemma norm_env:
  assumes "\<And>m. e = Some m \<Longrightarrow> btree_ok m"
  shows "json_norm (env_json e) = env_json e"
proof (cases e)
  case (Some m)
  have "btree_collect (map (\<lambda>(k, v). (k, JStr v)) m) = map (\<lambda>(k, v). (k, JStr v)) m"
    using assms [OF Some] by (intro btree_collect_id) (simp add: btree_ok_def comp_def case_prod_unfold)
  then show ?thesis by (simp add: env_json_def option_json_def Some comp_def case_prod_unfold)
qed (simp add: env_json_def option_json_def)

text \<open>The configuration with its fields in the order of their names.\<close>

definition Config_sorted :: "Config \<Rightarrow> json" where
  "Config_sorted c =
     JObj [(''cmd_args'', option_json (\<lambda>xs. JArr (map JStr xs)) (config_cmd_args c)), (''env'', env_json (config_env c)),
           (''image'', JStr (config_image c)), (''vsock_port'', JNum (int (unat (config_vsock_port c))))]"

lemma norm_args: "json_norm (option_json (\<lambda>xs. JArr (map JStr xs)) a) = option_json (\<lambda>xs. JArr (map JStr xs)) a"
  by (cases a) (simp_all add: option_json_def comp_def)

lemma norm_Config:
  assumes "\<And>m. config_env c = Some m \<Longrightarrow> btree_ok m"
  shows "json_norm (Config_json c) = Config_sorted c" and "json_norm (Config_sorted c) = Config_sorted c"
  using norm_env [OF assms] key_order key_order [THEN less_not_sym]
  by (simp_all add: Config_json_def Config_sorted_def env_json_def [symmetric] norm_args btree_collect_def)

lemma Config_fits:
  assumes "\<And>m. config_env c = Some m \<Longrightarrow> btree_ok m"
  shows "json_fits (Suc (Suc n)) (Config_json c)" and "json_fits (Suc (Suc n)) (Config_sorted c)"
proof -
  have a: "json_fits (Suc n) (option_json (\<lambda>xs. JArr (map JStr xs)) a)" for a
    by (cases a) (simp_all add: option_json_def list_all_iff)
  have "distinct (map fst m)" if "btree_ok m" for m :: "(string, string) btree"
    using that by (simp add: btree_ok_def strict_sorted_iff)
  then have e: "json_fits (Suc n) (env_json (config_env c))"
    using assms by (cases "config_env c") (auto simp: env_json_def option_json_def list_all_iff comp_def case_prod_unfold)
  have "uint (config_vsock_port c) < 4294967296" using unsigned_less [of "config_vsock_port c", where 'a = int] by simp
  then have p: "uint (config_vsock_port c) < 2 ^ 64" by simp
  have "- (2 ^ 63) \<le> uint (config_vsock_port c)" by (rule order_trans [of _ 0]) simp_all
  show "json_fits (Suc (Suc n)) (Config_json c)" and "json_fits (Suc (Suc n)) (Config_sorted c)"
    using a e p \<open>- (2 ^ 63) \<le> uint (config_vsock_port c)\<close> by (simp_all add: Config_json_def Config_sorted_def env_json_def [symmetric])
qed

lemma GuestConfig_sorted:
  assumes "\<And>m. config_env c = Some m \<Longrightarrow> btree_ok m"
  shows "GuestConfig_of_json (Config_sorted c) =
    Some \<lparr>guest_image = config_image c, guest_cmd_args = config_cmd_args c, guest_env = config_env c,
          guest_vsock_port = config_vsock_port c\<rparr>"
proof -
  have "optional strings_of_json (Some (option_json (\<lambda>xs. JArr (map JStr xs)) a)) = Some a" for a
    by (cases a) (simp_all add: option_json_def optional_def comp_def those_Some [where g = id, simplified])
  moreover have "optional btree_of_json (Some (env_json (config_env c))) = Some (config_env c)"
  proof (cases "config_env c")
    case (Some m)
    have "those (map (\<lambda>(k, v). map_option (Pair k) (string_of_json v)) (map (\<lambda>(k, v). (k, JStr v)) m)) = Some m"
      unfolding map_map using those_Some [of m _ id] by (simp add: case_prod_unfold)
    then show ?thesis using btree_collect_id [OF assms [OF Some]] by (simp add: Some env_json_def option_json_def optional_def)
  qed (simp add: env_json_def option_json_def optional_def)
  moreover have "u32_of_json (JNum (int (unat p))) = Some p" for p
    using unsigned_less [of p, where 'a = int] by simp
  ultimately show ?thesis by (simp add: Config_sorted_def)
qed

section \<open>The metadata service\<close>

text \<open>
  What Firecracker documents of its metadata service, version 2. It holds the JSON document of
  the metadata file. A \<open>PUT\<close> to the token resource, with a lifetime from 1 to 21600 seconds,
  answers with a new token. A \<open>GET\<close> with a token that lives answers with the part of the
  document under the path, printed as JSON. Nothing is known about other requests.

  A token lives if the last reading of the clock in the history is more than a minute before
  the end of its life, counted from the reading before it was issued.
\<close>

definition token_live :: "gevent list \<Rightarrow> byte list \<Rightarrow> bool" where
  "token_live tr token \<longleftrightarrow>
     (\<exists>before n ttl after.
        tr = before @ (NowNanos, GNat n) # (MmdsPut ''http://169.254.169.254/latest/api/token'' ttl, GResponse 200 token) # after \<and>
        (\<forall>m. (NowNanos, GNat m) \<in> set after \<longrightarrow> int m + secs 60 < int n + secs ttl))"

definition mmds_document :: "(json \<Rightarrow> string) \<Rightarrow> json \<Rightarrow> string \<Rightarrow> byte list option" where
  "mmds_document print doc path =
     (case split_on CHR ''/'' path of
        [] # keys \<Rightarrow> map_option (\<lambda>v. map of_char (print v)) (json_at keys doc)
      | _ \<Rightarrow> None)"

definition metadata_service :: "(json \<Rightarrow> string) \<Rightarrow> json \<Rightarrow> genv \<Rightarrow> bool" where
  "metadata_service print doc env \<longleftrightarrow>
     (\<forall>tr ttl. 1 \<le> ttl \<and> ttl \<le> 21600 \<longrightarrow>
        (\<exists>token. env tr (MmdsPut ''http://169.254.169.254/latest/api/token'' ttl) = GResponse 200 token \<and>
           token \<noteq> [] \<and> trim token = token)) \<and>
     (\<forall>tr path token body. token_live tr token \<and> mmds_document print doc path = Some body \<longrightarrow>
        env tr (MmdsGet (''http://169.254.169.254'' @ path) (map (\<lambda>b. char_of (unat b)) token)) = GResponse 200 body)"

text \<open>The service was started with this file.\<close>

definition serves_file :: "(json \<Rightarrow> string) \<Rightarrow> (byte list \<Rightarrow> json option) \<Rightarrow> string \<Rightarrow> genv \<Rightarrow> bool" where
  "serves_file print parse file env \<longleftrightarrow>
     (\<exists>doc. parse (map of_char file) = Some doc \<and> metadata_service print doc env)"

text \<open>The guest's clock can be read and does not go back.\<close>

definition steady_clock :: "genv \<Rightarrow> bool" where
  "steady_clock env \<longleftrightarrow>
     (\<forall>tr. \<exists>n. env tr NowNanos = GNat n \<and> (\<forall>m. (NowNanos, GNat m) \<in> set tr \<longrightarrow> m \<le> n))"

lemma now_nanos_steady:
  assumes "steady_clock env"
  obtains n where "now_nanos env tr = (int n, tr @ [(NowNanos, GNat n)])"
    and "\<And>m. (NowNanos, GNat m) \<in> set tr \<Longrightarrow> m \<le> n"
proof -
  obtain n where "env tr NowNanos = GNat n" "\<forall>m. (NowNanos, GNat m) \<in> set tr \<longrightarrow> m \<le> n"
    using assms unfolding steady_clock_def by blast
  then show thesis by (intro that [of n]) (simp_all add: now_nanos_def gperform_def)
qed

text \<open>After a rotation the client has a token that lives, if it had one before or its token was due.\<close>

definition client_ok :: "MMDSClient \<times> gevent list \<Rightarrow> bool" where
  "client_ok = (\<lambda>(c, tr). \<exists>before n.
     tr = before @ [(NowNanos, GNat n), (MmdsPut ''http://169.254.169.254/latest/api/token'' 14400, GResponse 200 (mmds_token c))] \<and>
     token_expiry c = int n + secs 14400)"

lemma rotate_due:
  assumes "metadata_service print doc env" and "steady_clock env" and "now_nanos env tr = (n1, tr1)"
    and "token_expiry c - secs 60 \<le> n1"
  shows "\<exists>s. rotate_token env (c, tr) = (Ok (), s) \<and> client_ok s"
proof -
  obtain n where n: "now_nanos env tr1 = (int n, tr1 @ [(NowNanos, GNat n)])"
    using now_nanos_steady [OF assms(2)] by metis
  obtain token where "env (tr1 @ [(NowNanos, GNat n)]) (MmdsPut ''http://169.254.169.254/latest/api/token'' 14400) =
      GResponse 200 token" "token \<noteq> []" "trim token = token"
    using assms(1) [unfolded metadata_service_def, THEN conjunct1, rule_format, of 14400 "tr1 @ [(NowNanos, GNat n)]"] by auto
  with assms(4) show ?thesis by (simp add: rotate_token_def assms(3) n gperform_def client_ok_def)
qed

lemma rotate_live:
  assumes "metadata_service print doc env" and "steady_clock env" and "client_ok (c, tr)"
  shows "\<exists>c' tr'. rotate_token env (c, tr) = (Ok (), (c', tr')) \<and> token_live tr' (mmds_token c')"
proof -
  obtain n1 where n1: "now_nanos env tr = (int n1, tr @ [(NowNanos, GNat n1)])"
    using now_nanos_steady [OF assms(2)] by metis
  show ?thesis
  proof (cases "token_expiry c - secs 60 \<le> int n1")
    case True
    from rotate_due [OF assms(1,2) n1 True] obtain c' tr' where
      r: "rotate_token env (c, tr) = (Ok (), (c', tr'))" "client_ok (c', tr')" by auto
    moreover have "token_live tr' (mmds_token c')"
      using r(2) unfolding client_ok_def token_live_def by fastforce
    ultimately show ?thesis by blast
  next
    case False
    then have "rotate_token env (c, tr) = (Ok (), (c, tr @ [(NowNanos, GNat n1)]))"
      by (simp add: rotate_token_def n1)
    moreover have "token_live (tr @ [(NowNanos, GNat n1)]) (mmds_token c)"
      using assms(3) False unfolding client_ok_def token_live_def by fastforce
    ultimately show ?thesis by blast
  qed
qed

lemma fetch_config_served:
  assumes "metadata_service print doc env" and "steady_clock env"
    and "mmds_document print doc ''/latest/container'' = Some body" and "parse_container_config main body = Some g"
  shows "\<exists>tr'. fetch_config main env tr = (Ok g, tr')"
proof -
  obtain n0 where n0: "now_nanos env tr = (int n0, tr @ [(NowNanos, GNat n0)])"
    using now_nanos_steady [OF assms(2)] by metis
  let ?tr0 = "tr @ [(NowNanos, GNat n0)]" and ?c0 = "\<lparr>mmds_token = [], token_expiry = int n0 - secs (60 * 60)\<rparr>"
  obtain n1 where n1: "now_nanos env ?tr0 = (int n1, ?tr0 @ [(NowNanos, GNat n1)])" and "n0 \<le> n1"
    using now_nanos_steady [OF assms(2), of ?tr0] by (metis in_set_conv_decomp)
  then have "token_expiry ?c0 - secs 60 \<le> int n1" by (simp add: secs_def)
  from rotate_due [OF assms(1,2) n1 this] obtain c1 tr1 where
    c1: "rotate_token env (?c0, ?tr0) = (Ok (), (c1, tr1))" "client_ok (c1, tr1)" by auto
  from rotate_live [OF assms(1,2) c1(2)] obtain c2 tr2 where
    c2: "rotate_token env (c1, tr1) = (Ok (), (c2, tr2))" "token_live tr2 (mmds_token c2)" by blast
  have "env tr2 (MmdsGet (''http://169.254.169.254'' @ ''/latest/container'')
      (map (\<lambda>b. char_of (unat b)) (mmds_token c2))) = GResponse 200 body"
    using assms(1,3) c2(2) unfolding metadata_service_def by blast
  then have "\<exists>tr3. mmds_get env (parse_container_config main) ''/latest/container'' (c1, tr1) = (Ok g, (c2, tr3))"
    by (simp add: mmds_get_def c2 gperform_def assms(4))
  moreover have "mmds_connect env tr = (Ok c1, tr1)" unfolding mmds_connect_def n0 prod.case c1(1) by simp
  ultimately show ?thesis by (auto simp: fetch_config_def or_panic_def)
qed

text \<open>The file that a machine's metadata service is started with: the last one written under its path.\<close>

fun file_write :: "event \<Rightarrow> (string \<times> string) list" where
  "file_write (WriteFile path text, Done) = [(path, text)]"
| "file_write _ = []"

definition file_content :: "event list \<Rightarrow> string \<Rightarrow> string option" where
  "file_content tr path = map_of (rev (concat (map file_write tr))) path"

lemma file_write_other: "\<not> is_write (fst e) \<Longrightarrow> file_write e = []"
  by (cases e; cases "fst e"; cases "snd e") simp_all

lemma file_content_writes:
  assumes "writes tr' = writes tr @ [(WriteFile path text, Done)]"
  shows "file_content tr' path = Some text"
proof -
  have "concat (map file_write tr) = concat (map file_write (writes tr))" for tr
    by (induction tr) (simp_all add: file_write_other)
  from this [of tr'] this [of tr] have "concat (map file_write tr') = concat (map file_write tr) @ [(path, text)]"
    by (simp add: assms)
  then show ?thesis by (simp add: file_content_def)
qed

lemma document_container:
  assumes "\<And>m. config_env c = Some m \<Longrightarrow> btree_ok m"
  shows "mmds_document print (json_norm (Latest_json \<lparr>latest_metadata = \<lparr>meta_container = c\<rparr>\<rparr>)) ''/latest/container'' =
    Some (map of_char (print (Config_sorted c)))"
  using norm_Config(1) [OF assms]
  by (simp add: mmds_document_def Latest_json_def btree_collect_def)

lemma Latest_fits:
  assumes "\<And>m. config_env c = Some m \<Longrightarrow> btree_ok m"
  shows "json_fits 127 (Latest_json \<lparr>latest_metadata = \<lparr>meta_container = c\<rparr>\<rparr>)" and "json_fits 127 (Config_sorted c)"
proof -
  have "json_fits (Suc (Suc (Suc (Suc n)))) (Latest_json \<lparr>latest_metadata = \<lparr>meta_container = c\<rparr>\<rparr>)" for n
    using Config_fits(1) [OF assms, where n = n] by (simp add: Latest_json_def)
  from this [of 123] show "json_fits 127 (Latest_json \<lparr>latest_metadata = \<lparr>meta_container = c\<rparr>\<rparr>)" by simp
  show "json_fits 127 (Config_sorted c)" using Config_fits(2) [OF assms, where n = 125] by simp
qed

text \<open>A guest whose metadata service was started with the file of a configuration reads this configuration.\<close>

lemma served_config:
  assumes "json_ok print parse" and "\<And>m. config_env c = Some m \<Longrightarrow> btree_ok m"
    and "serves_file print parse (print (Latest_json \<lparr>latest_metadata = \<lparr>meta_container = c\<rparr>\<rparr>)) env" and "steady_clock env"
    and "parse_container_config main = read_GuestConfig parse"
  shows "\<exists>tr'. fetch_config main env tr = (Ok \<lparr>guest_image = config_image c, guest_cmd_args = config_cmd_args c,
    guest_env = config_env c, guest_vsock_port = config_vsock_port c\<rparr>, tr')"
proof -
  have "metadata_service print (json_norm (Latest_json \<lparr>latest_metadata = \<lparr>meta_container = c\<rparr>\<rparr>)) env"
    using assms(1,3) Latest_fits(1) [OF assms(2)] by (auto simp: serves_file_def json_ok_def)
  moreover have "read_GuestConfig parse (map of_char (print (Config_sorted c))) = Some \<lparr>guest_image = config_image c,
      guest_cmd_args = config_cmd_args c, guest_env = config_env c, guest_vsock_port = config_vsock_port c\<rparr>"
    using assms(1) Latest_fits(2) [OF assms(2)] norm_Config(2) [OF assms(2)] GuestConfig_sorted [OF assms(2)]
    by (simp add: json_ok_def read_GuestConfig_def)
  ultimately show ?thesis
    using fetch_config_served [OF _ assms(4) document_container [OF assms(2)]] assms(5) by metis
qed

section \<open>A service\<close>

text \<open>A guest with such a service: it knows the tokens it has issued, and the paths of its document.\<close>

definition issued :: "gevent list \<Rightarrow> string \<Rightarrow> bool" where
  "issued tr token =
     list_ex (\<lambda>e. case e of (MmdsPut _ _, GResponse _ body) \<Rightarrow> map (\<lambda>b. char_of (unat b)) body = token | _ \<Rightarrow> False) tr"

fun last_reading :: "gevent list \<Rightarrow> nat" where
  "last_reading [] = 0"
| "last_reading (e # tr) = max (case e of (NowNanos, GNat n) \<Rightarrow> n | _ \<Rightarrow> 0) (last_reading tr)"

definition service_guest :: "(json \<Rightarrow> string) \<Rightarrow> json \<Rightarrow> genv" where
  "service_guest print doc tr c =
     (case c of
        NowNanos \<Rightarrow> GNat (last_reading tr)
      | MmdsPut _ _ \<Rightarrow> GResponse 200 [116]
      | MmdsGet url token \<Rightarrow>
          if \<not> issued tr token then GResponse 401 []
          else (case mmds_document print doc (drop 22 url) of
                  Some body \<Rightarrow> GResponse 200 body
                | None \<Rightarrow> GResponse 404 [])
      | _ \<Rightarrow> sample_internet tr c)"

lemma service_guest_clock: "steady_clock (service_guest print doc)"
proof -
  have "m \<le> last_reading tr" if "(NowNanos, GNat m) \<in> set tr" for m tr
    using that by (induction tr) (auto intro: max.coboundedI2)
  then show ?thesis by (simp add: steady_clock_def service_guest_def)
qed

lemma service_guest_service: "metadata_service print doc (service_guest print doc)"
proof -
  have "issued tr (map (\<lambda>b. char_of (unat b)) token)" if "token_live tr token" for tr token
    using that by (auto simp: token_live_def issued_def)
  moreover have "trim [116] = [116]" by code_simp
  ultimately show ?thesis by (simp add: metadata_service_def service_guest_def)
qed

end
