(* ===== verification/Spec2Isabelle.thy ===== *)
theory Spec2Isabelle
  imports Manager_Calls Node_Main Nodecli Guest_Main Plain_Codec Provision_Path
begin

text \<open>
  A verification development of container-infra: a node manager that runs containers in
  Firecracker micro-VMs, the init program inside the VMs, the protocol between the two, and a
  command line client.

  \<^bold>\<open>The program.\<close> \<open>nodemanager\<close> serves a gRPC interface. For each \<open>Provision\<close> it sets up a network
  stack (a tap device, addresses from a pool of /30 blocks, iptables rules), starts Firecracker
  in a jail, configures it over its API socket, and waits for the guest to connect over vsock.
  The guest, \<open>instance\<close>, is PID 1 of the VM: it mounts file systems, reads what to run from the
  metadata service, pulls the image from its registry, runs it with \<open>crun\<close>, and reports states,
  log lines and the exit code as packets of \<open>vmproto\<close>. The manager keeps the last lines,
  forwards them to subscribers, and removes the machine when it has exited. \<open>nodecli\<close> turns a
  command line into calls of the service.

  \<^bold>\<open>Method.\<close> Every Rust function is one definition that takes and returns the state it works on.
  \<open>Result\<close> and panics are the type \<open>res\<close>, the \<open>?\<close> operator is \<open>then_try\<close>, and a destructor that runs
  when a scope is left early is \<open>on_exit\<close> (\<open>Prelude\<close>). Machine integers have their width, and
  arithmetic follows the build profile. What surrounds a program is a parameter that answers
  each call as a function of the history of calls and answers, so it may fail anywhere:
  \<open>env\<close> for the node (\<open>Host_Calls\<close>), \<open>genv\<close> for the guest (\<open>Guest_Calls\<close>). The history is the
  effect: the host's rules and devices, the bytes on the vsock and the unpacked archives are
  read off it. Packages (bitcode, jwt, serde_json, oci_spec, circular_buffer, tokio channels,
  tonic, clap, chrono, backoff) are parameters too; where a theorem needs one to behave as
  documented, this is a named hypothesis (\<open>ring_ok\<close>, \<open>guest_packet_sound\<close>, \<open>codec_ok\<close>,
  \<open>json_ok\<close>, and \<open>serves_file\<close> and \<open>steady_clock\<close> for the metadata service and the clock), and a
  witness shows it for a concrete instance.

  \<^bold>\<open>The node.\<close>
  \<^item> \<open>Slot_Pool\<close>: the contract of an allocator of slots (locale \<open>slot_pool\<close>); \<open>Networking\<close>:
    \<open>networking.rs\<close>, interpretations of the contract for both build profiles, the blocks handed
    out, exhaustion, and that the life of a stack restores the host's tables. \<open>Ledger\<close>: the
    balance of tables, allocator and live stacks that every operation keeps.
  \<^item> \<open>Paths\<close>, \<open>Firecracker\<close>, \<open>Btree_Map\<close>, \<open>Machine\<close>: \<open>machine/firecracker.rs\<close> and
    \<open>machine/machine.rs\<close>: the boot sequence as the exact list of API requests, failed boots,
    shutdown.
  \<^item> \<open>Packet_Channel\<close>: the contract of one direction of the vsock (locale \<open>packet_channel\<close>);
    \<open>Vmproto\<close>: the packets; \<open>Plain_Codec\<close>: a codec that satisfies what is assumed of bitcode.
    \<open>Machine_Vsock\<close>: \<open>machine/vsock.rs\<close>, its interpretation, and the refinement of the log
    contract \<open>log_view\<close> by frames, ring buffer and subscribers.
  \<^item> \<open>Auth\<close>: \<open>proto/src/auth.rs\<close>, exactly which tokens are accepted.
  \<^item> \<open>Manager\<close>: \<open>manager.rs\<close>, one definition per call and background task, the step function
    and the reachable states. \<open>Manager_Invariant\<close> has one preservation lemma per operation;
    \<open>Manager_Properties\<close> the invariants of all reachable states, draining and removal;
    \<open>Manager_Calls\<close> tokens, published ports and logs. \<open>Node_Main\<close>: \<open>main.rs\<close>, and that the
    process leaves no trace on its host.

  \<^bold>\<open>The guest.\<close>
  \<^item> \<open>Guest_Comm\<close>, \<open>Guest_Pipe\<close>: \<open>host.rs\<close>: the writers, the reader (a second interpretation
    of \<open>packet_channel\<close>), and the threads that cut the container's output into lines.
  \<^item> \<open>Guest_Boot\<close>: \<open>sh.rs\<close>, \<open>init.rs\<close> and \<open>mmds.rs\<close>, the freshness of the session token.
  \<^item> \<open>Guest_Runtime\<close>: \<open>containers/rt.rs\<close>, equivalent to the reference for command lines.
  \<^item> \<open>Guest_Pull\<close>: \<open>containers/registry.rs\<close>, \<open>fs.rs\<close> and \<open>mod.rs\<close>, the worker threads as a step
    function under any schedule; \<open>Guest_Pool\<close>: its invariant, that every join ends, and that a
    successful pull is complete.
  \<^item> \<open>Guest_Main\<close>: \<open>main.rs\<close>: the whole run, the protocol it follows, and its exit codes.

  \<^bold>\<open>The client and the whole.\<close> \<open>Nodecli\<close>: the commands, their requests and their output.
  \<open>Json_Value\<close>: JSON documents; \<open>Provision_Path\<close>: the metadata document that the node writes
  and the guest reads, field by field, and the metadata service between them. \<open>Provision_Path\<close>
  and this theory compose the parts: what the guest writes is what the node reads, what the
  node commands is what the guest obeys, and what a request asks for is what the container
  runs.

  \<^bold>\<open>Bounds.\<close> Waiting for the API socket polls at most 20 times, as the code does. A request to a
  registry is repeated at most \<open>retries\<close> times, a parameter, where the code stops after 20
  seconds. A join of a worker grants it \<open>2 * length (pool_queue p) + 2\<close> steps, proved enough in
  \<open>image_layers_pulled\<close>. The loops over a byte stream or a pipe end with their input, the bytes
  or chunks that are delivered before it ends. Everything else is structural.

  \<^bold>\<open>Not modelled.\<close> The gRPC transport (\<open>serve\<close>, generated bindings), argument parsing (clap), the
  terminal loggers, and time: delays and timeouts are calls whose outcome the surroundings
  decide. Critical sections under a lock are atomic, and a call of the node manager runs to its
  end: that its future is dropped at an \<open>await\<close> when the client goes away is not modelled. The
  subscriber of machine exits is the list of what was handed to its channel; the code ignores
  whether the channel still takes it, and a clean-up task that waits for room in the channel is
  one whose step has not happened yet. In the guest, a panic of the reader thread takes effect
  where the main thread next waits, and the log lines that other threads write while the main
  thread works are counted to the next wait, or to \<open>WaitThread\<close> after the exit packet; after a
  failed pull, workers that are still running are not followed.
\<close>

section \<open>From the node to the guest\<close>

text \<open>The bytes the node manager has put on the connection to a guest.\<close>

fun host_event_bytes :: "event \<Rightarrow> byte list" where
  "host_event_bytes (VsockWriteAll bs, Done) = bs"
| "host_event_bytes _ = []"

definition host_wire :: "event list \<Rightarrow> byte list" where
  "host_wire tr = concat (map host_event_bytes tr)"

lemma host_wire_simps [simp]:
  "host_wire [] = []" "host_wire (e # tr) = host_event_bytes e @ host_wire tr" "host_wire (a @ b) = host_wire a @ host_wire b"
  by (simp_all add: host_wire_def)

lemma comm_write_wire:
  assumes "comm_write env bitcode p tr = (Ok u, tr')"
  shows "host_wire tr' = host_wire tr @ host_frame bitcode p"
  using assms by (auto simp: comm_write_def Let_def then_try_Ok_iff io_Ok host_frame_def length_prefixed_def)

lemma reader_thread_packets:
  "reader_thread bitcode inp = map packet_exit (host_stream.packets_of bitcode inp)"
proof (induction bitcode inp rule: reader_thread.induct)
  case (1 bitcode inp)
  show ?case
  proof (cases "next_host_packet bitcode inp")
    case None
    then show ?thesis
      by (subst reader_thread.simps)
        (auto simp: host_stream.packets_of_stuck next_host_packet_def split: res.splits)
  next
    case (Some x)
    then obtain p rest where r: "read_packet bitcode inp = Ok (p, rest)" and x: "x = (p, rest)"
      by (cases x) (auto simp: next_host_packet_def split: res.splits)
    with "1.IH" [OF r refl] Some show ?thesis
      by (subst reader_thread.simps) (simp add: host_stream.packets_of_step)
  qed
qed

section \<open>From the guest to the node\<close>

lemma frame_of_guest_frame: "frame_of = guest_frame"
  by (simp add: fun_eq_iff frame_of_def guest_frame_def)

lemma handle_packets_exit:
  assumes "list_all (\<lambda>p. \<not> is_exited p) ps"
  shows "handle_packets lib (ps @ Exited code # rest) s =
    (MachineExit_from code, ((fst (snd (handle_packets lib ps s)))\<lparr>comm_state := None\<rparr>, snd (snd (handle_packets lib ps s))))"
  using assms
proof (induction ps arbitrary: s)
  case (Cons p ps)
  show ?case
  proof (cases p)
    case (VmState x)
    with Cons show ?thesis by (cases x) simp
  qed (use Cons in auto)
qed simp

lemma packet_handler_exit:
  assumes "ring_ok lib" and "list_all (\<lambda>p. \<not> is_exited p) ps"
    and "list_all (guest_packet_sound bitcode) (ps @ [Exited code])"
  shows "\<exists>h ch'. packet_handler lib bitcode lock_free (frames bitcode (ps @ Exited code # rest))
      (MachineCommunicator_new lib, ch) = (MachineExit_from code, (h, ch')) \<and>
    clone_buffer_with_state lib h =
      drop (length (concat (map packet_log ps)) - MAX_LINES_IN_BUFFER) (concat (map packet_log ps))"
proof -
  let ?s = "(MachineCommunicator_new lib, ch)"
  let ?h = "fst (snd (handle_packets lib ps ?s))" and ?ch = "snd (snd (handle_packets lib ps ?s))"
  have "guest_stream.packets_of bitcode (frames bitcode ((ps @ [Exited code]) @ rest)) =
      (ps @ [Exited code]) @ guest_stream.packets_of bitcode (frames bitcode rest)"
    using guest_stream.packets_of_put [OF assms(3), of "frames bitcode rest"] by (simp add: frame_of_guest_frame)
  then have l: "packet_loop lib bitcode (frames bitcode (ps @ Exited code # rest)) ?s =
      (MachineExit_from code, (?h\<lparr>comm_state := None\<rparr>, ?ch))"
    using handle_packets_exit [OF assms(2)] by (simp add: packet_loop_packets)
  have r: "ring_iter lib (log_buffer ?h) = take MAX_LINES_IN_BUFFER (rev (concat (map packet_log ps)))"
    using handle_packets_logs [OF assms(1,2), of ?s] assms(1) by (simp add: MachineCommunicator_new_def ring_ok_def)
  let ?h2 = "if lock_free then drop_subscribers (?h\<lparr>comm_state := None\<rparr>) else ?h\<lparr>comm_state := None\<rparr>"
  have "clone_buffer_with_state lib ?h2 = rev (ring_iter lib (log_buffer ?h))"
    by (simp add: clone_buffer_with_state_def drop_subscribers_def)
  then have "clone_buffer_with_state lib ?h2 =
      drop (length (concat (map packet_log ps)) - MAX_LINES_IN_BUFFER) (concat (map packet_log ps))"
    by (simp add: r rev_take)
  then show ?thesis
    unfolding packet_handler_def l prod.case by (intro exI [of _ ?h2] exI [of _ ?ch]) simp
qed

text \<open>No packet on the wire is longer than the node manager accepts.\<close>

definition packets_fit :: "GuestPacket codec \<Rightarrow> byte list \<Rightarrow> bool" where
  "packets_fit bitcode bytes \<longleftrightarrow>
     (\<forall>ps. bytes = frames bitcode ps \<longrightarrow> list_all (\<lambda>p. length (encode bitcode p) \<le> MAX_PACKET_SIZE) ps)"

lemma packets_fit_short: "length bytes \<le> MAX_PACKET_SIZE \<Longrightarrow> packets_fit bitcode bytes"
proof -
  have "list_all (\<lambda>p. length (encode bitcode p) \<le> length (frames bitcode ps)) ps" for ps
    by (induction ps) (auto simp: frame_of_def serialize_guest_packet_def list_all_iff)
  then show "length bytes \<le> MAX_PACKET_SIZE \<Longrightarrow> packets_fit bitcode bytes"
    by (fastforce simp: packets_fit_def list_all_iff)
qed

lemma request_runtime_spec:
  assumes "create_runtime_spec oci (Some img) (runtime_overrides g) = Ok spec"
    and "guest_cmd_args g = override_cmd_args (request_overrides request)"
    and "guest_env g = override_env (request_overrides request)"
  shows "\<exists>fields. spec_build oci fields = Some spec \<and>
    process_args fields = reference_args (image_entrypoint img) (image_cmd img)
      (if req_cmd_args request = [] then None else Some (req_cmd_args request)) \<and>
    process_env fields =
      (case image_env img of
         Some base \<Rightarrow> base
       | None \<Rightarrow> [''PATH=/usr/local/sbin:/usr/local/bin:/usr/sbin:/usr/bin:/sbin:/bin'']) @
      map (\<lambda>(k, v). k @ ''='' @ v) (btree_collect (req_env request))"
proof -
  obtain fields where "spec_build oci fields = Some spec" "process_args fields = container_args img (runtime_overrides g)"
    "process_env fields = container_env img (runtime_overrides g)"
    using assms(1) by (auto simp: create_runtime_spec_def split: option.splits)
  moreover have "btree_collect ([] :: (string \<times> string) list) = []" by (simp add: btree_collect_def)
  ultimately show ?thesis
    using assms(2,3) by (intro exI [of _ fields])
      (simp add: container_args_reference container_env_def runtime_overrides_def request_overrides_def split: option.split)
qed

section \<open>Properties\<close>

text \<open>
  C3. End to end, guest to node: when the init program of a machine ends by itself, the node
  manager's packet handler, reading the very bytes the guest wrote, ends with the exit code
  the guest reported, and the log buffer holds the last 256 lines and states the guest sent
  before it, as long as no packet exceeds the size limit. The message that explains a failed
  pull is written after the exit packet and is never among them.
\<close>

theorem node_learns_exit:
  assumes "ring_ok host_lib" and "codec_ok bitcode" and "guest_main lib main env bitcode schedule [] = (Ok (), tr)"
    and "packets_fit bitcode (wire (frame_of bitcode) tr)"
  shows "\<exists>ps code msgs h ch'. wire (frame_of bitcode) tr = frames bitcode (ps @ Exited code # map Log msgs) \<and>
    follows_protocol tr ps code msgs \<and>
    packet_handler host_lib bitcode lock_free (wire (frame_of bitcode) tr) (MachineCommunicator_new host_lib, ch) =
      (MachineExit_from code, (h, ch')) \<and>
    clone_buffer_with_state host_lib h =
      drop (length (concat (map packet_log ps)) - MAX_LINES_IN_BUFFER) (concat (map packet_log ps))"
proof -
  obtain ps code msgs where w: "wire (frame_of bitcode) tr = frames bitcode (ps @ Exited code # map Log msgs)"
    and f: "follows_protocol tr ps code msgs"
    using guest_main_packets [OF assms(3)] by (auto simp: conversation_def)
  have n: "list_all (\<lambda>p. \<not> is_exited p) ps" using f by (simp add: follows_protocol_def)
  have "list_all (guest_packet_sound bitcode) (ps @ [Exited code])"
    using assms(4) [unfolded packets_fit_def, rule_format, OF w] assms(2)
    by (auto simp: codec_ok_def guest_packet_sound_def list_all_iff)
  from packet_handler_exit [OF assms(1) n this] obtain h ch' where
    "packet_handler host_lib bitcode lock_free (wire (frame_of bitcode) tr) (MachineCommunicator_new host_lib, ch) =
      (MachineExit_from code, (h, ch'))"
    "clone_buffer_with_state host_lib h =
      drop (length (concat (map packet_log ps)) - MAX_LINES_IN_BUFFER) (concat (map packet_log ps))"
    unfolding w by blast
  with w f show ?thesis by blast
qed

theorem node_learns_exit_witness:
  "\<exists>tr h ch'. guest_main sample_lib sample_main sample_internet plain_codec [] [] = (Ok (), tr) \<and>
     packet_handler list_libs plain_codec True (wire (frame_of plain_codec) tr) (MachineCommunicator_new list_libs, 0) =
       (ExitContainerExited 3, (h, ch'))"
proof -
  let ?m = "guest_main sample_lib sample_main sample_internet plain_codec [] []"
  have "map_prod is_ok (\<lambda>tr. (exit_notes tr, length (wire (frame_of plain_codec) tr) \<le> 700)) ?m =
      (True, [Told (ContainerDone (Some 3))], True)" by code_simp
  then obtain tr where r: "?m = (Ok (), tr)" "exit_notes tr = [Told (ContainerDone (Some 3))]"
    "length (wire (frame_of plain_codec) tr) \<le> 700"
    by (cases ?m) (auto simp: is_ok_iff)
  have "packets_fit plain_codec (wire (frame_of plain_codec) tr)"
    using r(3) by (intro packets_fit_short) (simp add: MAX_PACKET_SIZE_def)
  from node_learns_exit [OF ring_ok_list_libs plain_codec_ok r(1) this, of True 0] obtain ps code msgs h ch' where
    "follows_protocol tr ps code msgs" "packet_handler list_libs plain_codec True (wire (frame_of plain_codec) tr)
      (MachineCommunicator_new list_libs, 0) = (MachineExit_from code, (h, ch'))" by blast
  moreover from this(1) r(2) have "code = ContainerExited 3"
    by (auto simp: follows_protocol_def split: if_splits)
  ultimately show ?thesis using r(1) by auto
qed


definition full_request :: ProvisionRequest where
  "full_request = sample_request\<lparr>req_cmd_args := [''-v''], req_env := [(''B'', ''2''), (''A'', ''1''), (''B'', ''3'')]\<rparr>"


text \<open>
  C11. End to end, node to guest: when \<open>send_shutdown\<close> succeeds, the guest's reader thread takes
  exactly one shutdown request off the stream and goes on with what follows it, for every
  codec under which the packet survives.
\<close>

theorem shutdown_command_arrives:
  assumes "host_packet_sound bitcode Shutdown" and "send_shutdown env bitcode tr = (Ok (), tr')"
  shows "\<exists>bytes. host_wire tr' = host_wire tr @ bytes \<and>
    (\<forall>rest. reader_thread bitcode (bytes @ rest) = GracefulShutdown # reader_thread bitcode rest)"
proof -
  have "host_stream.packets_of bitcode (host_frame bitcode Shutdown @ rest) =
      Shutdown # host_stream.packets_of bitcode rest" for rest
    using host_stream.packets_of_put [of bitcode "[Shutdown]" rest] assms(1) by simp
  then show ?thesis
    using comm_write_wire [OF assms(2) [unfolded send_shutdown_def]]
    by (intro exI [of _ "host_frame bitcode Shutdown"]) (simp add: reader_thread_packets)
qed

theorem shutdown_command_arrives_witness:
  "\<exists>bytes tr. send_shutdown (\<lambda>_ _. Done) (table_codec [Shutdown]) [] = (Ok (), tr) \<and> host_wire tr = bytes \<and>
     reader_thread (table_codec [Shutdown]) bytes = [GracefulShutdown]"
proof -
  let ?c = "table_codec [Shutdown]"
  have s: "host_packet_sound ?c Shutdown" by (simp add: host_packet_sound_def table_codec_def BUFFER_SIZE_def)
  obtain tr where w: "send_shutdown (\<lambda>_ _. Done) ?c [] = (Ok (), tr)"
    by (simp add: send_shutdown_def comm_write_def Let_def io_def perform_def)
  from shutdown_command_arrives [OF s w] obtain bytes where
    b: "host_wire tr = bytes" "reader_thread ?c (bytes @ []) = GracefulShutdown # reader_thread ?c []"
    by (metis append_Nil host_wire_simps(1))
  have "reader_thread ?c [] = []" by (subst reader_thread.simps) (simp add: read_packet_def read_exact_def)
  with w b show ?thesis by auto
qed

end
